theory Spec2Isabelle
  imports Complex_Main "HOL-Library.Sublist" "HOL-Library.AList"
begin

section \<open>Numbers and clamping\<close>

text \<open>
  The program computes with JavaScript numbers. Finite numbers are modelled as
  \<^typ>\<open>real\<close>: rounding of doubles is outside the model. Wherever the source tests
  \<^verbatim>\<open>Number.isFinite\<close> or compares with \<^verbatim>\<open>null\<close>, the model has an \<open>option\<close>.
\<close>

definition clampRange :: "real \<Rightarrow> real \<Rightarrow> real \<Rightarrow> real" where
  "clampRange v mn mx = max mn (min mx v)"

section \<open>Strings\<close>

text \<open>
  A JavaScript string is modelled as a \<^typ>\<open>string\<close> of code units below 256.
  \<^verbatim>\<open>trim\<close> removes the white space and line terminators of that range from both
  ends; \<^verbatim>\<open>toLowerCase\<close> maps the letters A to Z and leaves every other code unit as it
  is (case mapping beyond ASCII is outside the model).
\<close>

definition isWhitespace :: "char \<Rightarrow> bool" where
  "isWhitespace c = (c \<in> set [CHR 0x09, CHR 0x0A, CHR 0x0B, CHR 0x0C, CHR 0x0D, CHR '' '', CHR 0xA0])"

definition trim :: "string \<Rightarrow> string" where
  "trim s = rev (dropWhile isWhitespace (rev (dropWhile isWhitespace s)))"

definition lowerChar :: "char \<Rightarrow> char" where
  "lowerChar c =
     (case map_of (zip ''ABCDEFGHIJKLMNOPQRSTUVWXYZ'' ''abcdefghijklmnopqrstuvwxyz'') c of
        Some d \<Rightarrow> d
      | None \<Rightarrow> c)"

definition toLowerCase :: "string \<Rightarrow> string" where
  "toLowerCase s = map lowerChar s"

text \<open>\<^verbatim>\<open>s.includes(sub)\<close>.\<close>

fun strIncludes :: "string \<Rightarrow> string \<Rightarrow> bool" where
  "strIncludes [] sub = (sub = [])"
| "strIncludes (c # cs) sub = (prefix sub (c # cs) \<or> strIncludes cs sub)"

text \<open>\<^verbatim>\<open>path.split(".")\<close>.\<close>

fun splitDot :: "string \<Rightarrow> string list" where
  "splitDot [] = [[]]"
| "splitDot (c # cs) =
     (if c = CHR ''.'' then [] # splitDot cs
      else (case splitDot cs of
              [] \<Rightarrow> [[c]]
            | w # ws \<Rightarrow> (c # w) # ws))"

text \<open>\<^verbatim>\<open>parts.join(" | ")\<close>.\<close>

fun joinBar :: "string list \<Rightarrow> string" where
  "joinBar [] = []"
| "joinBar [a] = a"
| "joinBar (a # b # rest) = a @ '' | '' @ joinBar (b # rest)"

text \<open>
  \<^verbatim>\<open>String(n)\<close> for an integral number: the decimal digits, with a minus sign below
  zero. (JavaScript switches to exponent notation from \<open>10^21\<close> on; identifiers of
  that size are outside the model.)
\<close>

definition digitChar :: "nat \<Rightarrow> char" where
  "digitChar d = ''0123456789'' ! d"

fun showNat :: "nat \<Rightarrow> string" where
  "showNat n = (if n < 10 then [digitChar n] else showNat (n div 10) @ [digitChar (n mod 10)])"

declare showNat.simps [simp del]

definition showInt :: "int \<Rightarrow> string" where
  "showInt i = (if i < 0 then CHR ''-'' # showNat (nat (- i)) else showNat (nat i))"

text \<open>\<^verbatim>\<open>Math.round\<close>: the nearest integer, halves rounded up.\<close>

definition mathRound :: "real \<Rightarrow> int" where
  "mathRound v = \<lfloor>v + 1 / 2\<rfloor>"

section \<open>Raw records\<close>

text \<open>
  A value of type \<^verbatim>\<open>unknown\<close>. \<open>JNonFinite\<close> stands for the numbers \<^verbatim>\<open>NaN\<close>,
  \<^verbatim>\<open>Infinity\<close> and \<^verbatim>\<open>-Infinity\<close>, which every reader of the adapter rejects with
  \<^verbatim>\<open>Number.isFinite\<close>. An object is the list of its own properties; properties
  inherited from a prototype are not modelled.
\<close>

datatype jv =
    JUndefined
  | JNull
  | JBool bool
  | JNum real
  | JNonFinite
  | JStr string
  | JArr "jv list"
  | JObj "(string \<times> jv) list"

text \<open>A canonical array index: decimal digits without a leading zero.\<close>

definition isDigit :: "char \<Rightarrow> bool" where
  "isDigit c = (c \<in> set ''0123456789'')"

definition digitValue :: "char \<Rightarrow> nat" where
  "digitValue c = (case map_of (zip ''0123456789'' [0 ..< 10]) c of Some d \<Rightarrow> d | None \<Rightarrow> 0)"

definition parseIndex :: "string \<Rightarrow> nat option" where
  "parseIndex s =
     (if s = [] \<or> \<not> list_all isDigit s \<or> (1 < length s \<and> hd s = CHR ''0'') then None
      else Some (foldl (\<lambda>a c. 10 * a + digitValue c) 0 s))"

text \<open>\<^verbatim>\<open>cursor[chunk]\<close> on an object or an array.\<close>

fun getProp :: "jv \<Rightarrow> string \<Rightarrow> jv" where
  "getProp (JObj kvs) k = (case map_of kvs k of Some v \<Rightarrow> v | None \<Rightarrow> JUndefined)"
| "getProp (JArr xs) k =
     (if k = ''length'' then JNum (of_nat (length xs))
      else (case parseIndex k of
              Some i \<Rightarrow> (if i < length xs then xs ! i else JUndefined)
            | None \<Rightarrow> JUndefined))"
| "getProp _ k = JUndefined"

fun isObject :: "jv \<Rightarrow> bool" where
  "isObject (JObj kvs) = True"
| "isObject (JArr xs) = True"
| "isObject _ = False"

text \<open>\<^verbatim>\<open>asRecord\<close>: \<^verbatim>\<open>!value || typeof value !== "object"\<close> gives \<^verbatim>\<open>null\<close>. Every falsy
  value is a non-object or \<^verbatim>\<open>null\<close>; arrays are objects.\<close>

definition asRecord :: "jv \<Rightarrow> jv option" where
  "asRecord v = (if isObject v then Some v else None)"

fun readChunks :: "jv \<Rightarrow> string list \<Rightarrow> jv" where
  "readChunks cursor [] = cursor"
| "readChunks cursor (chunk # rest) =
     (if \<not> isObject cursor then JUndefined else readChunks (getProp cursor chunk) rest)"

definition readPath :: "jv \<Rightarrow> string \<Rightarrow> jv" where
  "readPath record path = readChunks record (splitDot path)"

fun pickValue :: "jv \<Rightarrow> string list \<Rightarrow> jv" where
  "pickValue record [] = JUndefined"
| "pickValue record (path # paths) =
     (let v = readPath record path in
      if v \<noteq> JUndefined \<and> v \<noteq> JNull then v else pickValue record paths)"

declare pickValue.simps [simp del]

section \<open>The environment of the adapter\<close>

text \<open>
  The adapter reads two JSON files and calls two modules that are not part of the
  verified sources (\<^verbatim>\<open>./geo\<close>, \<^verbatim>\<open>./homography\<close>), and it calls the host for the clock
  and for converting strings. All of them are parameters of the model, collected in one
  record. A zone of the zone map holds pixel coordinates; a centroid entry is \<open>None\<close>
  where \<^verbatim>\<open>Number(...)\<close> of it is not finite.
\<close>

record Zone =
  zone_id :: string
  polygon :: "(real \<times> real) list"
  holes :: "(real \<times> real) list list"
  centroid :: "(real option \<times> real option) option"

record ZoneMap =
  map_width :: real
  map_height :: real
  world_width_m :: "real option"
  world_depth_m :: "real option"
  world_offset_x_m :: "real option"
  world_offset_z_m :: "real option"
  zones :: "Zone list"

record CameraFrame =
  frame_width :: real
  frame_height :: real

record env =
  zm :: ZoneMap
  CAMERA_HOMOGRAPHY :: "string \<Rightarrow> real list option"
  CAMERA_FRAME :: "string \<Rightarrow> CameraFrame option"
  pointInPolygon :: "real \<Rightarrow> real \<Rightarrow> (real \<times> real) list \<Rightarrow> bool"
  mapNormToWorldNorm :: "real \<Rightarrow> real \<Rightarrow> real \<times> real"
  worldNormToMapNorm :: "real \<Rightarrow> real \<Rightarrow> real \<times> real"
  applyHomography :: "real list \<Rightarrow> real \<Rightarrow> real \<Rightarrow> (real \<times> real) option"
  dateNow :: real
  hostNumber :: "string \<Rightarrow> real option"
  hostDateParse :: "string \<Rightarrow> real option"
  localeCompare :: "string \<Rightarrow> string \<Rightarrow> int"

text \<open>
  \<open>hostNumber s\<close> is \<^verbatim>\<open>Number(s)\<close> when that is finite and \<open>None\<close> otherwise;
  \<open>hostDateParse s\<close> is \<^verbatim>\<open>Date.parse(s)\<close> unless that is \<^verbatim>\<open>NaN\<close>; \<open>dateNow\<close> is
  \<^verbatim>\<open>Date.now()\<close>, taken as constant during one call of the adapter.
\<close>

section \<open>Parsing fields (lib/eventAdapter)\<close>

definition MIN_VALID_EPOCH_MS :: real where "MIN_VALID_EPOCH_MS = 946684800000"
definition MAX_FUTURE_DRIFT_MS :: real where "MAX_FUTURE_DRIFT_MS = 1000 * 60 * 60 * 24 * 365"

definition parseId :: "jv \<Rightarrow> string option" where
  "parseId v =
     (case v of
        JStr s \<Rightarrow> (if 0 < length (trim s) then Some (trim s) else None)
      | JNum n \<Rightarrow> Some (showInt (mathRound n))
      | _ \<Rightarrow> None)"

definition normalizeEpoch :: "env \<Rightarrow> real \<Rightarrow> real option" where
  "normalizeEpoch e epochMs =
     (let rounded = of_int (mathRound epochMs) in
      if rounded < MIN_VALID_EPOCH_MS then None
      else if dateNow e + MAX_FUTURE_DRIFT_MS < rounded then None
      else Some rounded)"

definition scaleEpoch :: "env \<Rightarrow> real \<Rightarrow> real option" where
  "scaleEpoch e v =
     (if 1000000000000 \<le> v then normalizeEpoch e v
      else if 1000000000 \<le> v \<and> v \<le> 100000000000 then normalizeEpoch e (v * 1000)
      else normalizeEpoch e v)"

definition parseEpochMs :: "env \<Rightarrow> jv \<Rightarrow> real option" where
  "parseEpochMs e v =
     (case v of
        JNum n \<Rightarrow> scaleEpoch e n
      | JStr s \<Rightarrow>
          (let trimmed = trim s in
           if trimmed = [] then None
           else (case hostNumber e trimmed of
                   Some asNum \<Rightarrow> scaleEpoch e asNum
                 | None \<Rightarrow>
                     (case hostDateParse e trimmed of
                        Some parsed \<Rightarrow> normalizeEpoch e parsed
                      | None \<Rightarrow> None)))
      | _ \<Rightarrow> None)"

definition parseNumber :: "env \<Rightarrow> jv \<Rightarrow> real option" where
  "parseNumber e v =
     (case v of
        JNum n \<Rightarrow> Some n
      | JStr s \<Rightarrow> hostNumber e (trim s)
      | _ \<Rightarrow> None)"

definition parseText :: "jv \<Rightarrow> string option" where
  "parseText v =
     (case v of
        JStr s \<Rightarrow> (if 0 < length (trim s) then Some (trim s) else None)
      | _ \<Rightarrow> None)"

definition normalizeCameraKey :: "string \<Rightarrow> string" where
  "normalizeCameraKey cameraId = toLowerCase (trim cameraId)"

section \<open>Zone geometry (lib/eventAdapter)\<close>

definition WORLD_WIDTH_M :: "env \<Rightarrow> real" where
  "WORLD_WIDTH_M e = (case world_width_m (zm e) of Some w \<Rightarrow> max (1 / 1000) w | None \<Rightarrow> 9)"

definition WORLD_DEPTH_M :: "env \<Rightarrow> real" where
  "WORLD_DEPTH_M e = (case world_depth_m (zm e) of Some d \<Rightarrow> max (1 / 1000) d | None \<Rightarrow> 48 / 10)"

definition WORLD_OFFSET_X_M :: "env \<Rightarrow> real" where
  "WORLD_OFFSET_X_M e = (case world_offset_x_m (zm e) of Some v \<Rightarrow> v | None \<Rightarrow> 0)"

definition WORLD_OFFSET_Z_M :: "env \<Rightarrow> real" where
  "WORLD_OFFSET_Z_M e = (case world_offset_z_m (zm e) of Some v \<Rightarrow> v | None \<Rightarrow> 0)"

text \<open>
  \<^verbatim>\<open>new Map(entries)\<close>: a later entry with a key already present replaces the value and
  keeps the position of the first insertion.
\<close>

definition newMap :: "('k \<times> 'v) list \<Rightarrow> ('k \<times> 'v) list" where
  "newMap entries = fold (\<lambda>kv m. AList.update (fst kv) (snd kv) m) entries []"

text \<open>The entry of \<^verbatim>\<open>ZONE_CENTROIDS\<close> a zone contributes: none when its centroid is not
  an array of two elements or more.\<close>

definition centroidEntries :: "env \<Rightarrow> Zone \<Rightarrow> (string \<times> (real \<times> real)) list" where
  "centroidEntries e zone =
     (case centroid zone of
        None \<Rightarrow> []
      | Some c \<Rightarrow>
          [(zone_id zone,
            ((case fst c of Some v \<Rightarrow> clampRange (v / map_width (zm e)) 0 1 | None \<Rightarrow> 1 / 2),
             (case snd c of Some v \<Rightarrow> clampRange (v / map_height (zm e)) 0 1 | None \<Rightarrow> 1 / 2)))])"

definition ZONE_CENTROIDS :: "env \<Rightarrow> (string \<times> (real \<times> real)) list" where
  "ZONE_CENTROIDS e = newMap (concat (map (centroidEntries e) (zones (zm e))))"

definition ZONE_IDS :: "env \<Rightarrow> string set" where
  "ZONE_IDS e = set (map zone_id (zones (zm e)))"

definition GENERIC_ZONE_IDS :: "string set" where
  "GENERIC_ZONE_IDS = set [''store'', ''site'', ''shop'', ''global'', ''all'']"

record Bounds =
  minX :: real
  maxX :: real
  minY :: real
  maxY :: real

record ZoneGeometry =
  zoneId :: string
  outer :: "(real \<times> real) list"
  outerBounds :: "Bounds option"
  zg_holes :: "(real \<times> real) list list"
  holeBounds :: "Bounds option list"
  zg_centroid :: "real \<times> real"

definition HOLE_PADDING_NORM :: real where "HOLE_PADDING_NORM = 24 / 1000"
definition ZONE_EDGE_PADDING_NORM :: real where "ZONE_EDGE_PADDING_NORM = 12 / 1000"

text \<open>
  \<^verbatim>\<open>polygonBounds\<close>. For an empty polygon the source computes \<^verbatim>\<open>Math.min()\<close> and
  \<^verbatim>\<open>Math.max()\<close>, that is \<^verbatim>\<open>minX = +Infinity, maxX = -Infinity\<close>: bounds that contain no
  point, whatever the padding. The model returns \<open>None\<close> for them.
\<close>

definition polygonBounds :: "(real \<times> real) list \<Rightarrow> Bounds option" where
  "polygonBounds points =
     (if points = [] then None
      else Some \<lparr> minX = Min (set (map fst points)), maxX = Max (set (map fst points)),
                  minY = Min (set (map snd points)), maxY = Max (set (map snd points)) \<rparr>)"

definition pointInBounds :: "real \<Rightarrow> real \<Rightarrow> Bounds option \<Rightarrow> real \<Rightarrow> bool" where
  "pointInBounds px py bounds padding =
     (case bounds of
        None \<Rightarrow> False
      | Some b \<Rightarrow>
          minX b - padding \<le> px \<and> px \<le> maxX b + padding \<and>
          minY b - padding \<le> py \<and> py \<le> maxY b + padding)"

definition normPolygon :: "env \<Rightarrow> (real \<times> real) list \<Rightarrow> (real \<times> real) list" where
  "normPolygon e pts = map (\<lambda>p. (fst p / map_width (zm e), snd p / map_height (zm e))) pts"

definition zoneGeometry :: "env \<Rightarrow> Zone \<Rightarrow> ZoneGeometry" where
  "zoneGeometry e zone =
     (let outerN = normPolygon e (polygon zone);
          holesN = map (normPolygon e) (holes zone) in
      \<lparr> zoneId = zone_id zone,
        outer = outerN,
        outerBounds = polygonBounds outerN,
        zg_holes = holesN,
        holeBounds = map polygonBounds holesN,
        zg_centroid = (case map_of (ZONE_CENTROIDS e) (zone_id zone) of
                         Some c \<Rightarrow> c
                       | None \<Rightarrow> (1 / 2, 1 / 2)) \<rparr>)"

definition ZONE_GEOMETRIES :: "env \<Rightarrow> ZoneGeometry list" where
  "ZONE_GEOMETRIES e = map (zoneGeometry e) (zones (zm e))"

definition ZONE_GEOMETRY_BY_ID :: "env \<Rightarrow> (string \<times> ZoneGeometry) list" where
  "ZONE_GEOMETRY_BY_ID e = newMap (map (\<lambda>z. (zoneId z, z)) (ZONE_GEOMETRIES e))"

definition ALL_HOLES_NORM :: "env \<Rightarrow> (real \<times> real) list list" where
  "ALL_HOLES_NORM e = concat (map zg_holes (ZONE_GEOMETRIES e))"

definition ALL_HOLE_BOUNDS :: "env \<Rightarrow> Bounds option list" where
  "ALL_HOLE_BOUNDS e = concat (map holeBounds (ZONE_GEOMETRIES e))"

definition toWorldFromNorm :: "env \<Rightarrow> real \<Rightarrow> real \<Rightarrow> real \<times> real" where
  "toWorldFromNorm e px py =
     (let worldNorm = mapNormToWorldNorm e px py in
      (WORLD_OFFSET_X_M e + fst worldNorm * WORLD_WIDTH_M e,
       WORLD_OFFSET_Z_M e + snd worldNorm * WORLD_DEPTH_M e))"

definition pointInZoneWalkable :: "env \<Rightarrow> real \<Rightarrow> real \<Rightarrow> ZoneGeometry \<Rightarrow> bool" where
  "pointInZoneWalkable e px py zone =
     (if \<not> pointInPolygon e px py (outer zone) then False
      else if 0 < ZONE_EDGE_PADDING_NORM \<and>
              \<not> pointInBounds px py (outerBounds zone) (- ZONE_EDGE_PADDING_NORM) then False
      else if list_ex (\<lambda>hole. pointInPolygon e px py hole) (zg_holes zone) then False
      else \<not> list_ex (\<lambda>bounds. pointInBounds px py bounds HOLE_PADDING_NORM) (holeBounds zone))"

section \<open>Spiral snap (lib/eventAdapter, \<^verbatim>\<open>spiralSnap\<close>)\<close>

text \<open>
  The per-ring state of the source is \<^verbatim>\<open>bestX, bestY, bestDist2, found\<close>, with
  \<^verbatim>\<open>bestDist2 = +Infinity\<close> and \<^verbatim>\<open>found = false\<close> at the start of every ring. The model
  keeps \<open>None\<close> for that initial state and \<open>Some (bestX, bestY, bestDist2)\<close> once a
  sample has been accepted.
\<close>

type_synonym best = "(real \<times> real \<times> real) option"

definition dist2 :: "real \<Rightarrow> real \<Rightarrow> real \<Rightarrow> real \<Rightarrow> real" where
  "dist2 x0 y0 cx cy = (cx - x0) * (cx - x0) + (cy - y0) * (cy - y0)"

definition clampPoint :: "real \<times> real \<Rightarrow> real \<times> real" where
  "clampPoint p = (clampRange (fst p) 0 1, clampRange (snd p) 0 1)"

text \<open>The closure \<^verbatim>\<open>test\<close> of the source, with the ring state passed explicitly.\<close>

definition spiralTest :: "(real \<Rightarrow> real \<Rightarrow> bool) \<Rightarrow> real \<Rightarrow> real \<Rightarrow> real \<times> real \<Rightarrow> best \<Rightarrow> best" where
  "spiralTest isWalkable x0 y0 p b =
     (let cx = clampRange (fst p) 0 1; cy = clampRange (snd p) 0 1 in
      if \<not> isWalkable cx cy then b
      else let d = dist2 x0 y0 cx cy in
        (case b of
           None \<Rightarrow> Some (cx, cy, d)
         | Some (bx, by, bd) \<Rightarrow> if d < bd then Some (cx, cy, d) else b))"

text \<open>
  The points one ring hands to \<^verbatim>\<open>test\<close>, in the order of the two \<^verbatim>\<open>for\<close> loops: the
  top and bottom strips for \<open>i = -ring .. ring\<close>, then the left and right strips for
  \<open>j = -ring+1 .. ring-1\<close>.
\<close>

definition ringSamples :: "real \<Rightarrow> real \<Rightarrow> real \<Rightarrow> int \<Rightarrow> (real \<times> real) list" where
  "ringSamples x0 y0 step ring =
     (let ringStep = of_int ring * step in
      concat (map (\<lambda>i. [(x0 + of_int i * step, y0 - ringStep), (x0 + of_int i * step, y0 + ringStep)])
                  [- ring .. ring])
      @ concat (map (\<lambda>j. [(x0 - ringStep, y0 + of_int j * step), (x0 + ringStep, y0 + of_int j * step)])
                  [- ring + 1 .. ring - 1]))"

definition ringBest :: "(real \<Rightarrow> real \<Rightarrow> bool) \<Rightarrow> real \<Rightarrow> real \<Rightarrow> real \<Rightarrow> int \<Rightarrow> best" where
  "ringBest isWalkable x0 y0 step ring =
     fold (spiralTest isWalkable x0 y0) (ringSamples x0 y0 step ring) None"

function spiralLoop ::
  "(real \<Rightarrow> real \<Rightarrow> bool) \<Rightarrow> real \<Rightarrow> real \<Rightarrow> real \<Rightarrow> int \<Rightarrow> int \<Rightarrow> (real \<times> real) option" where
  "spiralLoop isWalkable x0 y0 step maxRings ring =
     (if ring \<le> maxRings then
        (case ringBest isWalkable x0 y0 step ring of
           Some (bx, by, bd) \<Rightarrow> Some (bx, by)
         | None \<Rightarrow> spiralLoop isWalkable x0 y0 step maxRings (ring + 1))
      else None)"
  by pat_completeness auto
termination
  by (relation "measure (\<lambda>(w, x0, y0, step, maxRings, ring). nat (maxRings + 1 - ring))") auto

declare spiralLoop.simps [simp del]

definition SPIRAL_STEP :: real where "SPIRAL_STEP = 3 / 1000"
definition SPIRAL_MAX_RINGS :: int where "SPIRAL_MAX_RINGS = 60"

text \<open>\<^verbatim>\<open>spiralSnap(x0, y0, isWalkable)\<close> with the default \<^verbatim>\<open>step = 0.003, maxRings = 60\<close>;
  no call site of the repository passes other values.\<close>

definition spiralSnap :: "real \<Rightarrow> real \<Rightarrow> (real \<Rightarrow> real \<Rightarrow> bool) \<Rightarrow> (real \<times> real) option" where
  "spiralSnap x0 y0 isWalkable = spiralLoop isWalkable x0 y0 SPIRAL_STEP SPIRAL_MAX_RINGS 1"

text \<open>The clamped samples of a ring that pass the predicate.\<close>

definition ringWalkable :: "(real \<Rightarrow> real \<Rightarrow> bool) \<Rightarrow> real \<Rightarrow> real \<Rightarrow> real \<Rightarrow> int \<Rightarrow> (real \<times> real) list" where
  "ringWalkable isWalkable x0 y0 step ring =
     filter (\<lambda>c. isWalkable (fst c) (snd c)) (map clampPoint (ringSamples x0 y0 step ring))"

section \<open>Snapping onto the floor (lib/eventAdapter, \<^verbatim>\<open>snapCoordinatesToFloor\<close>)\<close>

record NormalizedCoordinates =
  nc_x :: real
  nc_y :: real
  worldX :: "real option"
  worldZ :: "real option"

text \<open>The predicate of the unknown-zone branch: off every hole of every zone.\<close>

definition walkableAnywhere :: "env \<Rightarrow> real \<Rightarrow> real \<Rightarrow> bool" where
  "walkableAnywhere e px py =
     (if list_ex (\<lambda>hole. pointInPolygon e px py hole) (ALL_HOLES_NORM e) then False
      else \<not> list_ex (\<lambda>bounds. pointInBounds px py bounds HOLE_PADDING_NORM) (ALL_HOLE_BOUNDS e))"

definition atPoint :: "env \<Rightarrow> real \<times> real \<Rightarrow> NormalizedCoordinates" where
  "atPoint e p =
     (let world = toWorldFromNorm e (fst p) (snd p) in
      \<lparr> nc_x = fst p, nc_y = snd p, worldX = Some (fst world), worldZ = Some (snd world) \<rparr>)"

definition snapCoordinatesToFloor :: "env \<Rightarrow> NormalizedCoordinates \<Rightarrow> string \<Rightarrow> NormalizedCoordinates" where
  "snapCoordinatesToFloor e coordinates zid =
     (let x0 = clampRange (nc_x coordinates) 0 1;
          y0 = clampRange (nc_y coordinates) 0 1 in
      case map_of (ZONE_GEOMETRY_BY_ID e) zid of
        Some zone \<Rightarrow>
          if pointInZoneWalkable e x0 y0 zone then coordinates \<lparr> nc_x := x0, nc_y := y0 \<rparr>
          else if \<not> pointInPolygon e x0 y0 (outer zone) then atPoint e (zg_centroid zone)
          else (case spiralSnap x0 y0 (\<lambda>px py. pointInZoneWalkable e px py zone) of
                  Some snapped \<Rightarrow> atPoint e snapped
                | None \<Rightarrow> atPoint e (zg_centroid zone))
      | None \<Rightarrow>
          if walkableAnywhere e x0 y0 then coordinates \<lparr> nc_x := x0, nc_y := y0 \<rparr>
          else (case spiralSnap x0 y0 (walkableAnywhere e) of
                  None \<Rightarrow> coordinates \<lparr> nc_x := x0, nc_y := y0 \<rparr>
                | Some snapped \<Rightarrow> atPoint e snapped))"

section \<open>Classification (lib/eventAdapter)\<close>

datatype EventType = crowd | fall | fight | loitering | unknownType

datatype IncidentStatus = new | ack | resolved

datatype EventSource = demo | camera | api | unknownSource

definition eventTypeOfName :: "string \<Rightarrow> EventType option" where
  "eventTypeOfName s =
     map_of [(''crowd'', crowd), (''fall'', fall), (''fight'', fight),
             (''loitering'', loitering), (''unknown'', unknownType)] s"

definition incidentStatusOfName :: "string \<Rightarrow> IncidentStatus option" where
  "incidentStatusOfName s = map_of [(''new'', new), (''ack'', ack), (''resolved'', resolved)] s"

definition eventSourceOfName :: "string \<Rightarrow> EventSource option" where
  "eventSourceOfName s =
     map_of [(''demo'', demo), (''camera'', camera), (''api'', api), (''unknown'', unknownSource)] s"

definition normalizeType :: "jv \<Rightarrow> EventType" where
  "normalizeType v =
     (case v of
        JStr s \<Rightarrow>
          (let normalized = toLowerCase (trim s) in
           case eventTypeOfName normalized of
             Some t \<Rightarrow> t
           | None \<Rightarrow>
               if normalized \<in> set [''fall_down'', ''slip'', ''slipfall'', ''trip''] then fall
               else if normalized \<in> set [''violence'', ''assault'', ''aggressive'', ''fight''] then fight
               else if normalized \<in> set [''queue'', ''congestion'', ''crowding'', ''crowd''] then crowd
               else if normalized \<in> set [''loiter'', ''idle'', ''linger'', ''loitering''] then loitering
               else unknownType)
      | _ \<Rightarrow> unknownType)"

text \<open>\<^verbatim>\<open>normalized.replace(/[^0-9.]/g, "")\<close>.\<close>

definition keepDigitsAndDots :: "string \<Rightarrow> string" where
  "keepDigitsAndDots s = filter (\<lambda>c. isDigit c \<or> c = CHR ''.'') s"

definition severityByType :: "EventType \<Rightarrow> nat" where
  "severityByType t = (if t = fall \<or> t = fight then 3 else if t = crowd then 2 else 1)"

definition normalizeSeverity :: "env \<Rightarrow> jv \<Rightarrow> EventType \<Rightarrow> nat" where
  "normalizeSeverity e v t =
     (case v of
        JNum n \<Rightarrow>
          (if n = 1 then 1 else if n = 2 then 2 else if n = 3 then 3
           else if 3 \<le> n then 3 else if 2 \<le> n then 2 else 1)
      | JStr s \<Rightarrow>
          (let normalized = toLowerCase (trim s) in
           if normalized \<in> set [''p1'', ''l3'', ''high'', ''critical'', ''severe'', ''urgent''] then 3
           else if normalized \<in> set [''p2'', ''l2'', ''medium'', ''med'', ''moderate''] then 2
           else if normalized \<in> set [''p3'', ''l1'', ''low'', ''minor''] then 1
           else (case hostNumber e (keepDigitsAndDots normalized) of
                   Some asNum \<Rightarrow>
                     (if 1 \<le> asNum \<and> asNum \<le> 3 then nat (mathRound asNum) else severityByType t)
                 | None \<Rightarrow> severityByType t))
      | _ \<Rightarrow> severityByType t)"

definition normalizeIncidentStatus :: "jv \<Rightarrow> IncidentStatus" where
  "normalizeIncidentStatus v =
     (case v of
        JStr s \<Rightarrow>
          (let normalized = toLowerCase (trim s) in
           case incidentStatusOfName normalized of
             Some st \<Rightarrow> st
           | None \<Rightarrow>
               if normalized \<in> set [''open'', ''opened'', ''detected'', ''created'', ''new_alert''] then new
               else if normalized \<in> set [''acknowledged'', ''acknowledge'', ''in_progress'',
                                           ''processing'', ''dispatched''] then ack
               else if normalized \<in> set [''closed'', ''done'', ''resolved_done'', ''complete'',
                                           ''completed''] then resolved
               else new)
      | _ \<Rightarrow> new)"

definition normalizeSource :: "jv \<Rightarrow> EventSource \<Rightarrow> EventSource" where
  "normalizeSource v fallback =
     (case v of
        JStr s \<Rightarrow>
          (let normalized = toLowerCase (trim s) in
           case eventSourceOfName normalized of
             Some src \<Rightarrow> src
           | None \<Rightarrow>
               if strIncludes normalized ''camera'' then camera
               else if strIncludes normalized ''demo'' then demo
               else if 0 < length normalized then api
               else fallback)
      | _ \<Rightarrow> fallback)"

definition normalizeConfidence :: "env \<Rightarrow> jv \<Rightarrow> nat \<Rightarrow> real" where
  "normalizeConfidence e v severity =
     (case parseNumber e v of
        Some parsed \<Rightarrow>
          (if 1 < parsed \<and> parsed \<le> 100 then clampRange (parsed / 100) 0 1
           else clampRange parsed 0 1)
      | None \<Rightarrow>
          (if severity = 3 then 92 / 100 else if severity = 2 then 84 / 100 else 78 / 100))"

definition resolveEventType :: "jv \<Rightarrow> EventType" where
  "resolveEventType record =
     (let primary = normalizeType
            (pickValue record [''type'', ''event_type'', ''eventType'', ''category'', ''event_name'', ''label'']) in
      if primary \<noteq> unknownType then primary
      else normalizeType (pickValue record [''status'', ''state'', ''event_status'', ''eventState'']))"

text \<open>The note assembled from the three texts \<^verbatim>\<open>extractNote\<close> reads.\<close>

definition composeNote :: "string option \<Rightarrow> string option \<Rightarrow> string option \<Rightarrow> string option" where
  "composeNote direct cause action =
     (let detailChunks =
            (case cause of Some c \<Rightarrow> [''cause:'' @ c] | None \<Rightarrow> []) @
            (case action of Some a \<Rightarrow> [''action:'' @ a] | None \<Rightarrow> []) in
      case direct of
        Some d \<Rightarrow> (if detailChunks = [] then Some d else Some (joinBar (d # detailChunks)))
      | None \<Rightarrow> (if detailChunks \<noteq> [] then Some (joinBar detailChunks) else None))"

definition extractNote :: "jv \<Rightarrow> string option" where
  "extractNote record =
     composeNote
       (parseText (pickValue record
          [''note'', ''message'', ''description'', ''reason'', ''summary'', ''vlm_analysis.summary'']))
       (parseText (pickValue record [''vlm_analysis.cause'', ''analysis.cause'']))
       (parseText (pickValue record
          [''vlm_analysis.action'', ''analysis.action'', ''action'', ''recommended_action'']))"

section \<open>Coordinates (lib/eventAdapter)\<close>

definition normalizeCoordinate :: "env \<Rightarrow> jv \<Rightarrow> real option" where
  "normalizeCoordinate e v =
     (case parseNumber e v of
        None \<Rightarrow> None
      | Some parsed \<Rightarrow>
          if 0 \<le> parsed \<and> parsed \<le> 1 then Some parsed
          else if 0 \<le> parsed \<and> parsed \<le> 100 then Some (clampRange (parsed / 100) 0 1)
          else None)"

definition normalizeCoordinateWithFrame :: "real \<Rightarrow> real \<Rightarrow> real option" where
  "normalizeCoordinateWithFrame v frameSize =
     (if 0 \<le> v \<and> v \<le> 1 then Some v
      else if 0 \<le> v \<and> v \<le> 100 then Some (clampRange (v / 100) 0 1)
      else if 0 < frameSize then Some (clampRange (v / frameSize) 0 1)
      else None)"

record NormalizedBBox =
  x1 :: real
  y1 :: real
  x2 :: real
  y2 :: real

definition bboxOf :: "real \<Rightarrow> real \<Rightarrow> real \<Rightarrow> real \<Rightarrow> NormalizedBBox" where
  "bboxOf a b c d = \<lparr> x1 = min a c, y1 = min b d, x2 = max a c, y2 = max b d \<rparr>"

definition parseBBox :: "env \<Rightarrow> jv \<Rightarrow> NormalizedBBox option" where
  "parseBBox e v =
     (case v of
        JArr (v0 # v1 # v2 # v3 # rest) \<Rightarrow>
          (case (parseNumber e v0, parseNumber e v1, parseNumber e v2, parseNumber e v3) of
             (Some a, Some b, Some c, Some d) \<Rightarrow> Some (bboxOf a b c d)
           | _ \<Rightarrow> None)
      | _ \<Rightarrow>
          (case asRecord v of
             None \<Rightarrow> None
           | Some record \<Rightarrow>
               (case (parseNumber e (pickValue record [''x1'', ''left'', ''xmin'', ''x_min'']),
                      parseNumber e (pickValue record [''y1'', ''top'', ''ymin'', ''y_min'']),
                      parseNumber e (pickValue record [''x2'', ''right'', ''xmax'', ''x_max'']),
                      parseNumber e (pickValue record [''y2'', ''bottom'', ''ymax'', ''y_max''])) of
                  (Some a, Some b, Some c, Some d) \<Rightarrow> Some (bboxOf a b c d)
                | _ \<Rightarrow>
                    (case (parseNumber e (pickValue record [''x'', ''left'']),
                           parseNumber e (pickValue record [''y'', ''top'']),
                           parseNumber e (pickValue record [''w'', ''width'']),
                           parseNumber e (pickValue record [''h'', ''height''])) of
                       (Some bx, Some by, Some w, Some h) \<Rightarrow>
                         Some (bboxOf bx by (bx + max 0 w) (by + max 0 h))
                     | _ \<Rightarrow> None))))"

definition mapBBoxWithCameraCalibration ::
  "env \<Rightarrow> string option \<Rightarrow> real \<Rightarrow> real \<Rightarrow> real option \<Rightarrow> real option \<Rightarrow> (real \<times> real) option" where
  "mapBBoxWithCameraCalibration e cameraId centerX centerY frameWidthRaw frameHeightRaw =
     (case cameraId of
        None \<Rightarrow> None
      | Some cam \<Rightarrow>
          if cam = [] then None
          else (case CAMERA_HOMOGRAPHY e (normalizeCameraKey cam) of
             None \<Rightarrow> None
           | Some matrix \<Rightarrow>
               (let cameraFrame = CAMERA_FRAME e (normalizeCameraKey cam);
                    inputFrame =
                      (case (frameWidthRaw, frameHeightRaw) of
                         (Some fw, Some fh) \<Rightarrow> if 0 < fw \<and> 0 < fh then Some (fw, fh) else None
                       | _ \<Rightarrow> None);
                    isNormalizedInput = (0 \<le> centerX \<and> centerX \<le> 1 \<and> 0 \<le> centerY \<and> centerY \<le> 1);
                    p = (case cameraFrame of
                           Some cf \<Rightarrow>
                             if isNormalizedInput then (centerX * frame_width cf, centerY * frame_height cf)
                             else (case inputFrame of
                                     Some (fw, fh) \<Rightarrow>
                                       ((centerX / fw) * frame_width cf, (centerY / fh) * frame_height cf)
                                   | None \<Rightarrow> (centerX, centerY))
                         | None \<Rightarrow>
                             (case inputFrame of
                                Some (fw, fh) \<Rightarrow>
                                  if isNormalizedInput then (centerX * fw, centerY * fh)
                                  else (centerX, centerY)
                              | None \<Rightarrow> (centerX, centerY))) in
                case applyHomography e matrix (fst p) (snd p) of
                  None \<Rightarrow> None
                | Some mapped \<Rightarrow> Some (clampRange (fst mapped) 0 1, clampRange (snd mapped) 0 1))))"

definition bboxPaths :: "string list" where
  "bboxPaths = [''location.bbox'', ''location.bounding_box'', ''location.box'', ''bbox'',
                ''bounding_box'', ''box'', ''position.bbox'', ''detection.bbox'']"

definition frameWidthPaths :: "string list" where
  "frameWidthPaths = [''frame.width'', ''frameWidth'', ''image.width'', ''imageWidth'',
     ''resolution.width'', ''data.frame.width'', ''payload.frame.width'', ''camera.frame_width'',
     ''location.frame.width'', ''location.frame_width'', ''meta.frame_width'', ''meta.width'']"

definition frameHeightPaths :: "string list" where
  "frameHeightPaths = [''frame.height'', ''frameHeight'', ''image.height'', ''imageHeight'',
     ''resolution.height'', ''data.frame.height'', ''payload.frame.height'', ''camera.frame_height'',
     ''location.frame.height'', ''location.frame_height'', ''meta.frame_height'', ''meta.height'']"

definition plainPoint :: "real \<Rightarrow> real \<Rightarrow> NormalizedCoordinates" where
  "plainPoint px py = \<lparr> nc_x = px, nc_y = py, worldX = None, worldZ = None \<rparr>"

definition extractBBoxCoordinates :: "env \<Rightarrow> jv \<Rightarrow> string option \<Rightarrow> bool \<Rightarrow> NormalizedCoordinates option" where
  "extractBBoxCoordinates e record cameraId allowFrameNormalization =
     (case parseBBox e (pickValue record bboxPaths) of
        None \<Rightarrow> None
      | Some bbox \<Rightarrow>
          (let frameWidthRaw = parseNumber e (pickValue record frameWidthPaths);
               frameHeightRaw = parseNumber e (pickValue record frameHeightPaths);
               frameWidth = (case frameWidthRaw of
                               Some fw \<Rightarrow> if 0 < fw then fw else map_width (zm e)
                             | None \<Rightarrow> map_width (zm e));
               frameHeight = (case frameHeightRaw of
                                Some fh \<Rightarrow> if 0 < fh then fh else map_height (zm e)
                              | None \<Rightarrow> map_height (zm e));
               centerX = (x1 bbox + x2 bbox) / 2;
               centerY = y2 bbox in
           case mapBBoxWithCameraCalibration e cameraId centerX centerY frameWidthRaw frameHeightRaw of
             Some calibrated \<Rightarrow> Some (plainPoint (fst calibrated) (snd calibrated))
           | None \<Rightarrow>
               if \<not> allowFrameNormalization then None
               else (case (normalizeCoordinateWithFrame centerX frameWidth,
                           normalizeCoordinateWithFrame centerY frameHeight) of
                       (Some px, Some py) \<Rightarrow> Some (plainPoint px py)
                     | _ \<Rightarrow> None)))"

definition worldXPaths :: "string list" where
  "worldXPaths = [''world.x'', ''worldX'', ''world_x'', ''position.world.x'', ''position_world.x'',
     ''location.world.x'', ''location.world_x'', ''location.x_m'', ''x_m'']"

definition worldZPaths :: "string list" where
  "worldZPaths = [''world.z'', ''worldZ'', ''world_z'', ''position.world.z'', ''position_world.z'',
     ''location.world.z'', ''location.world_z'', ''location.z_m'', ''z_m'']"

definition extractWorldCoordinates :: "env \<Rightarrow> jv \<Rightarrow> NormalizedCoordinates option" where
  "extractWorldCoordinates e record =
     (case (parseNumber e (pickValue record worldXPaths), parseNumber e (pickValue record worldZPaths)) of
        (Some wx, Some wz) \<Rightarrow>
          (if 0 \<le> wx \<and> wx \<le> 1 \<and> 0 \<le> wz \<and> wz \<le> 1 then
             (let worldNormX = clampRange wx 0 1;
                  worldNormY = clampRange wz 0 1;
                  mapped = worldNormToMapNorm e worldNormX worldNormY in
              Some \<lparr> nc_x = fst mapped, nc_y = snd mapped,
                     worldX = Some (WORLD_OFFSET_X_M e + worldNormX * WORLD_WIDTH_M e),
                     worldZ = Some (WORLD_OFFSET_Z_M e + worldNormY * WORLD_DEPTH_M e) \<rparr>)
           else
             (let worldNormX = clampRange ((wx - WORLD_OFFSET_X_M e) / WORLD_WIDTH_M e) 0 1;
                  worldNormY = clampRange ((wz - WORLD_OFFSET_Z_M e) / WORLD_DEPTH_M e) 0 1;
                  mapped = worldNormToMapNorm e worldNormX worldNormY in
              Some \<lparr> nc_x = fst mapped, nc_y = snd mapped, worldX = Some wx, worldZ = Some wz \<rparr>))
      | _ \<Rightarrow> None)"

definition xPaths :: "string list" where
  "xPaths = [''x'', ''x_norm'', ''xNorm'', ''position.x'', ''position.x_norm'', ''position.xNorm'',
     ''location.x'', ''location.x_norm'', ''location.xNorm'', ''coord.x'', ''coordinates.x'',
     ''point.x'', ''geo.x'']"

definition yPaths :: "string list" where
  "yPaths = [''y'', ''y_norm'', ''yNorm'', ''position.y'', ''position.y_norm'', ''position.yNorm'',
     ''location.y'', ''location.y_norm'', ''location.yNorm'', ''coord.y'', ''coordinates.y'',
     ''point.y'', ''geo.y'']"

definition zoneIdPaths :: "string list" where
  "zoneIdPaths = [''zone_id'', ''zoneId'', ''zone.id'', ''zone.zone_id'', ''location.zone_id'',
     ''location.zoneId'', ''area_id'', ''areaId'']"

text \<open>The six methods of the cascade of \<^verbatim>\<open>extractCoordinates\<close>, in its order.\<close>

definition explicitPair :: "env \<Rightarrow> jv \<Rightarrow> NormalizedCoordinates option" where
  "explicitPair e record =
     (case (normalizeCoordinate e (pickValue record xPaths),
            normalizeCoordinate e (pickValue record yPaths)) of
        (Some px, Some py) \<Rightarrow> Some (plainPoint px py)
      | _ \<Rightarrow> None)"

definition arrayPair :: "env \<Rightarrow> jv \<Rightarrow> NormalizedCoordinates option" where
  "arrayPair e record =
     (case pickValue record [''position'', ''location'', ''coord'', ''coordinates'', ''point''] of
        JArr (p0 # p1 # rest) \<Rightarrow>
          (case (normalizeCoordinate e p0, normalizeCoordinate e p1) of
             (Some px, Some py) \<Rightarrow> Some (plainPoint px py)
           | _ \<Rightarrow> None)
      | _ \<Rightarrow> None)"

definition zoneCentroidPoint :: "env \<Rightarrow> jv \<Rightarrow> NormalizedCoordinates option" where
  "zoneCentroidPoint e record =
     (case parseId (pickValue record zoneIdPaths) of
        None \<Rightarrow> None
      | Some zid \<Rightarrow>
          if zid = [] then None
          else (case map_of (ZONE_CENTROIDS e) zid of
                  Some c \<Rightarrow> Some (plainPoint (fst c) (snd c))
                | None \<Rightarrow> None))"

definition extractCoordinates :: "env \<Rightarrow> jv \<Rightarrow> string option \<Rightarrow> NormalizedCoordinates option" where
  "extractCoordinates e record cameraId =
     (case explicitPair e record of
        Some c \<Rightarrow> Some c
      | None \<Rightarrow>
     (case extractWorldCoordinates e record of
        Some c \<Rightarrow> Some c
      | None \<Rightarrow>
     (case extractBBoxCoordinates e record cameraId False of
        Some c \<Rightarrow> Some c
      | None \<Rightarrow>
     (case extractBBoxCoordinates e record cameraId True of
        Some c \<Rightarrow> Some c
      | None \<Rightarrow>
     (case arrayPair e record of
        Some c \<Rightarrow> Some c
      | None \<Rightarrow> zoneCentroidPoint e record)))))"

text \<open>The loop of \<^verbatim>\<open>resolveZoneId\<close> over the entries of \<^verbatim>\<open>ZONE_CENTROIDS\<close>: the state is
  \<^verbatim>\<open>nearestZoneId\<close> and \<^verbatim>\<open>nearestDistance\<close>, \<open>None\<close> for \<^verbatim>\<open>+Infinity\<close>.\<close>

definition nearerZone ::
  "real \<Rightarrow> real \<Rightarrow> string \<times> (real \<times> real) \<Rightarrow> string \<times> real option \<Rightarrow> string \<times> real option" where
  "nearerZone px py entry st =
     (let d = dist2 (fst (snd entry)) (snd (snd entry)) px py in
      case snd st of
        None \<Rightarrow> (fst entry, Some d)
      | Some nearest \<Rightarrow> if d < nearest then (fst entry, Some d) else st)"

definition resolveZoneId :: "env \<Rightarrow> jv \<Rightarrow> NormalizedCoordinates \<Rightarrow> string" where
  "resolveZoneId e record coordinates =
     (let explicitZoneId = parseId (pickValue record zoneIdPaths);
          trusted = (case explicitZoneId of
                       None \<Rightarrow> None
                     | Some z \<Rightarrow>
                         if z = [] then None
                         else if z \<in> ZONE_IDS e then Some z
                         else if toLowerCase z \<notin> GENERIC_ZONE_IDS then Some z
                         else None) in
      case trusted of
        Some z \<Rightarrow> z
      | None \<Rightarrow>
          (case find (\<lambda>zone. pointInPolygon e (nc_x coordinates) (nc_y coordinates) (outer zone))
                     (ZONE_GEOMETRIES e) of
             Some hitOuter \<Rightarrow> zoneId hitOuter
           | None \<Rightarrow>
               fst (fold (nearerZone (nc_x coordinates) (nc_y coordinates)) (ZONE_CENTROIDS e)
                      (case zones (zm e) of
                         [] \<Rightarrow> (''zone-s001-center'', None)
                       | z0 # rest \<Rightarrow> (zone_id z0, None)))))"

section \<open>Events (lib/eventAdapter, \<^verbatim>\<open>adaptRawEvent\<close> and \<^verbatim>\<open>normalizeEventFeed\<close>)\<close>

text \<open>
  An optional property of an event: the key may be missing from the object, present
  with the value \<^verbatim>\<open>undefined\<close>, or present with a value. The object literal of
  \<^verbatim>\<open>adaptRawEvent\<close> writes every key, so its events never have a missing one.
\<close>

datatype 'a field = Absent | Undefined | Defined 'a

definition fieldOf :: "'a option \<Rightarrow> 'a field" where
  "fieldOf v = (case v of None \<Rightarrow> Undefined | Some a \<Rightarrow> Defined a)"

record EventItem =
  ev_id :: string
  store_id :: string
  detected_at :: real
  ingested_at :: real
  latency_ms :: real
  ev_type :: EventType
  ev_severity :: nat
  confidence :: real
  ev_zone_id :: string
  camera_id :: "string field"
  track_id :: "string field"
  object_label :: "string field"
  raw_status :: "string field"
  ev_source :: EventSource
  model_version :: "string field"
  incident_status :: IncidentStatus
  ev_x :: real
  ev_y :: real
  world_x_m :: "real field"
  world_z_m :: "real field"
  ev_note :: "string field"

record NormalizeOptions =
  maxEvents :: real
  fallbackStoreId :: "string option"
  defaultSource :: "EventSource option"

definition stringOrUndefined :: "jv \<Rightarrow> string option" where
  "stringOrUndefined v = (case v of JStr s \<Rightarrow> Some s | _ \<Rightarrow> None)"

text \<open>The identity of a record: the explicit id, else a camera and track pair.\<close>

definition cameraIdOf :: "jv \<Rightarrow> string option" where
  "cameraIdOf record = parseId (pickValue record
     [''camera_id'', ''cameraId'', ''camera.id'', ''device_id'', ''deviceId'', ''device.id''])"

definition trackIdOf :: "jv \<Rightarrow> string option" where
  "trackIdOf record = parseId (pickValue record
     [''track_id'', ''trackId'', ''tracking_id'', ''trackingId'', ''object_id'', ''objectId''])"

definition explicitIdOf :: "jv \<Rightarrow> string option" where
  "explicitIdOf record = parseId (pickValue record
     [''id'', ''event_id'', ''eventId'', ''uuid'', ''alarm_id'', ''alarmId'', ''alert_id'', ''alertId''])"

definition identityOf :: "jv \<Rightarrow> string option" where
  "identityOf record =
     (case explicitIdOf record of
        Some i \<Rightarrow> Some i
      | None \<Rightarrow>
          (case trackIdOf record of
             None \<Rightarrow> None
           | Some t \<Rightarrow>
               if t = [] then None
               else Some ((case cameraIdOf record of Some c \<Rightarrow> c | None \<Rightarrow> ''cam-unknown'')
                          @ '':track-'' @ t)))"

definition detectedAtOf :: "env \<Rightarrow> jv \<Rightarrow> real option" where
  "detectedAtOf e record = parseEpochMs e (pickValue record
     [''detected_at'', ''detectedAt'', ''ts'', ''timestamp'', ''created_at'', ''createdAt'', ''time''])"

text \<open>
  \<^verbatim>\<open>adaptRawEvent\<close> has four early returns of \<^verbatim>\<open>null\<close>; everything else it computes
  goes into the object it returns. \<open>buildEvent\<close> is that object, for a record that has
  passed the four checks.
\<close>

definition buildEvent ::
  "env \<Rightarrow> NormalizeOptions \<Rightarrow> jv \<Rightarrow> string \<Rightarrow> real \<Rightarrow> NormalizedCoordinates \<Rightarrow> EventItem" where
  "buildEvent e options record i detectedAt coordinates =
     (let cameraId = cameraIdOf record;
          trackId = trackIdOf record;
          ingestedAtRaw = parseEpochMs e (pickValue record
            [''ingested_at'', ''ingestedAt'', ''received_at'', ''receivedAt'', ''updated_at'', ''updatedAt'']);
          ingestedAt = (case ingestedAtRaw of Some t \<Rightarrow> t | None \<Rightarrow> detectedAt);
          latencyRaw = parseNumber e (pickValue record [''latency_ms'', ''latencyMs'', ''latency'', ''delay_ms'']);
          latencyMs = (case latencyRaw of
                         Some l \<Rightarrow> max 0 (of_int (mathRound l))
                       | None \<Rightarrow> max 0 (of_int (mathRound (ingestedAt - detectedAt))));
          statusRaw = pickValue record [''status'', ''state'', ''event_status'', ''result.status'', ''payload.status''];
          objectLabelRaw = pickValue record
            [''label'', ''object.label'', ''class'', ''class_name'', ''object.class'', ''event_label''];
          objectLabel = stringOrUndefined objectLabelRaw;
          rawStatus = stringOrUndefined statusRaw;
          type = resolveEventType record;
          severity = normalizeSeverity e
            (pickValue record [''severity'', ''priority'', ''level'', ''risk'', ''risk_level'', ''riskLevel'',
                               ''status'', ''state''])
            type;
          conf = normalizeConfidence e
            (pickValue record [''confidence'', ''score'', ''probability'', ''confidence_score'', ''confidenceScore''])
            severity;
          zid = resolveZoneId e record coordinates;
          snapped = snapCoordinatesToFloor e coordinates zid;
          storeIdRaw = parseId (pickValue record
            [''store_id'', ''storeId'', ''store.id'', ''site_id'', ''siteId'', ''shop_id'', ''shopId'']);
          storeId = (case storeIdRaw of
                       Some sid \<Rightarrow> sid
                     | None \<Rightarrow> (case fallbackStoreId options of Some f \<Rightarrow> f | None \<Rightarrow> ''s001''));
          source = normalizeSource
            (pickValue record [''source'', ''provider'', ''channel'', ''origin'', ''ingest_source''])
            (case defaultSource options of Some d \<Rightarrow> d | None \<Rightarrow> unknownSource);
          incidentStatus = normalizeIncidentStatus
            (pickValue record [''incident_status'', ''incidentStatus'', ''status'', ''state'', ''resolution'',
                               ''result.status'']);
          modelVersion = parseId (pickValue record [''model_version'', ''modelVersion'', ''model.version'']);
          noteText = extractNote record in
      \<lparr> ev_id = i,
        store_id = storeId,
        detected_at = detectedAt,
        ingested_at = ingestedAt,
        latency_ms = latencyMs,
        ev_type = type,
        ev_severity = severity,
        confidence = conf,
        ev_zone_id = zid,
        camera_id = fieldOf cameraId,
        track_id = fieldOf trackId,
        object_label = fieldOf objectLabel,
        raw_status = fieldOf rawStatus,
        ev_source = source,
        model_version = fieldOf modelVersion,
        incident_status = incidentStatus,
        ev_x = nc_x snapped,
        ev_y = nc_y snapped,
        world_x_m = fieldOf (worldX snapped),
        world_z_m = fieldOf (worldZ snapped),
        ev_note = fieldOf noteText \<rparr>)"

definition adaptRawEvent :: "env \<Rightarrow> NormalizeOptions \<Rightarrow> jv \<Rightarrow> EventItem option" where
  "adaptRawEvent e options v =
     (case asRecord v of
        None \<Rightarrow> None
      | Some record \<Rightarrow>
          (case identityOf record of
             None \<Rightarrow> None
           | Some i \<Rightarrow>
               if i = [] then None
               else (case detectedAtOf e record of
                       None \<Rightarrow> None
                     | Some detectedAt \<Rightarrow>
                         (case extractCoordinates e record (cameraIdOf record) of
                            None \<Rightarrow> None
                          | Some coordinates \<Rightarrow>
                              Some (buildEvent e options record i detectedAt coordinates)))))"

text \<open>
  \<^verbatim>\<open>Array.prototype.sort\<close> with a comparator: the sort of the language standard is
  stable, and for a consistent comparator every stable sort gives the same array. The
  model is the stable insertion sort.
\<close>

fun insertBy :: "('a \<Rightarrow> 'a \<Rightarrow> real) \<Rightarrow> 'a \<Rightarrow> 'a list \<Rightarrow> 'a list" where
  "insertBy cmp a [] = [a]"
| "insertBy cmp a (b # bs) = (if cmp a b \<le> 0 then a # b # bs else b # insertBy cmp a bs)"

definition sortBy :: "('a \<Rightarrow> 'a \<Rightarrow> real) \<Rightarrow> 'a list \<Rightarrow> 'a list" where
  "sortBy cmp xs = foldr (insertBy cmp) xs []"

text \<open>The comparator shared by \<^verbatim>\<open>normalizeEventFeed\<close>, \<^verbatim>\<open>mergeEvents\<close> and
  \<^verbatim>\<open>applyIncomingSyncBatch\<close>.\<close>

definition compareEvents :: "env \<Rightarrow> EventItem \<Rightarrow> EventItem \<Rightarrow> real" where
  "compareEvents e a b =
     (if detected_at b \<noteq> detected_at a then detected_at b - detected_at a
      else if ingested_at b \<noteq> ingested_at a then ingested_at b - ingested_at a
      else of_int (localeCompare e (ev_id a) (ev_id b)))"

text \<open>\<^verbatim>\<open>Math.max(1, Math.min(1000, Number(options.maxEvents) || 1))\<close>, and the integer
  that \<^verbatim>\<open>slice(0, n)\<close> makes of it.\<close>

definition safeMaxEvents :: "NormalizeOptions \<Rightarrow> nat" where
  "safeMaxEvents options =
     nat \<lfloor>max 1 (min 1000 (if maxEvents options = 0 then 1 else maxEvents options))\<rfloor>"

text \<open>One round of the loop that fills \<^verbatim>\<open>dedupedById\<close>.\<close>

definition dedupeStep :: "EventItem \<Rightarrow> (string \<times> EventItem) list \<Rightarrow> (string \<times> EventItem) list" where
  "dedupeStep event m =
     (case map_of m (ev_id event) of
        None \<Rightarrow> AList.update (ev_id event) event m
      | Some existing \<Rightarrow>
          if detected_at existing < detected_at event then AList.update (ev_id event) event m
          else if detected_at event = detected_at existing \<and> ingested_at existing < ingested_at event
               then AList.update (ev_id event) event m
          else m)"

definition normalizedOf :: "env \<Rightarrow> NormalizeOptions \<Rightarrow> jv list \<Rightarrow> EventItem list" where
  "normalizedOf e options items = List.map_filter (adaptRawEvent e options) items"

definition normalizeEventFeed :: "env \<Rightarrow> jv \<Rightarrow> NormalizeOptions \<Rightarrow> EventItem list" where
  "normalizeEventFeed e raw options =
     (case raw of
        JArr items \<Rightarrow>
          (let normalized = normalizedOf e options items;
               dedupedById = fold dedupeStep normalized [] in
           take (safeMaxEvents options) (sortBy (compareEvents e) (map snd dedupedById)))
      | _ \<Rightarrow> [])"

section \<open>Merging into the event set (OpsExperience, \<^verbatim>\<open>mergeEvents\<close>)\<close>

definition MAX_EVENTS :: nat where "MAX_EVENTS = 600"

text \<open>\<^verbatim>\<open>{ ...prev, ...event }\<close>: every key of \<^verbatim>\<open>event\<close> overrides the key of \<^verbatim>\<open>prev\<close>;
  a key missing from \<^verbatim>\<open>event\<close> keeps the value of \<^verbatim>\<open>prev\<close>. The required keys are
  always there.\<close>

definition over :: "'a field \<Rightarrow> 'a field \<Rightarrow> 'a field" where
  "over p n = (case n of Absent \<Rightarrow> p | _ \<Rightarrow> n)"

definition spread :: "EventItem \<Rightarrow> EventItem \<Rightarrow> EventItem" where
  "spread prev event =
     event \<lparr> camera_id := over (camera_id prev) (camera_id event),
             track_id := over (track_id prev) (track_id event),
             object_label := over (object_label prev) (object_label event),
             raw_status := over (raw_status prev) (raw_status event),
             model_version := over (model_version prev) (model_version event),
             world_x_m := over (world_x_m prev) (world_x_m event),
             world_z_m := over (world_z_m prev) (world_z_m event),
             ev_note := over (ev_note prev) (ev_note event) \<rparr>"

definition mergeStep :: "EventItem \<Rightarrow> (string \<times> EventItem) list \<Rightarrow> (string \<times> EventItem) list" where
  "mergeStep event m =
     (case map_of m (ev_id event) of
        Some prev \<Rightarrow> AList.update (ev_id event) (spread prev event) m
      | None \<Rightarrow> AList.update (ev_id event) event m)"

definition mergeEvents :: "env \<Rightarrow> EventItem list \<Rightarrow> EventItem list \<Rightarrow> EventItem list" where
  "mergeEvents e existing incoming =
     (let m0 = newMap (map (\<lambda>event. (ev_id event, event)) existing);
          m = fold mergeStep incoming m0 in
      take MAX_EVENTS (sortBy (compareEvents e) (map snd m)))"

datatype IncomingSyncMode = merge | replace

record IncomingSyncBatch =
  mode :: IncomingSyncMode
  upsert :: "EventItem list"
  removeIds :: "string list"

definition applyIncomingSyncBatch :: "env \<Rightarrow> EventItem list \<Rightarrow> IncomingSyncBatch \<Rightarrow> EventItem list" where
  "applyIncomingSyncBatch e existing incoming =
     (let next0 = (if mode incoming = replace then upsert incoming
                   else mergeEvents e existing (upsert incoming));
          next1 = (if 0 < length (removeIds incoming)
                   then filter (\<lambda>event. ev_id event \<notin> set (removeIds incoming)) next0
                   else next0) in
      take MAX_EVENTS (sortBy (compareEvents e) next1))"

section \<open>Projection into a zone (components/MapView, \<^verbatim>\<open>projectPointToWalkable\<close>)\<close>

text \<open>
  \<^verbatim>\<open>clamp01\<close> is imported from \<^verbatim>\<open>lib/geo\<close>, which is not among the verified sources.
  Modelled from the spec: it yields "the clamped point" of the unit square;
  \<^verbatim>\<open>OpsExperience\<close> defines its own copy as \<^verbatim>\<open>Math.max(0, Math.min(1, value))\<close>.
  \<^verbatim>\<open>pointInPolygon\<close> comes from the same module and is a parameter, \<open>pip\<close>.
  A zone surface is taken with a non-empty polygon, so that its bounds are finite.
\<close>

definition clamp01 :: "real \<Rightarrow> real" where
  "clamp01 v = max 0 (min 1 v)"

definition ROBOT_STUCK_TICKS :: nat where "ROBOT_STUCK_TICKS = 18"
definition EVENT_REACTION_DISTANCE_NORM :: real where "EVENT_REACTION_DISTANCE_NORM = 22 / 100"
definition RESPONSE_SPEED_MIN :: real where "RESPONSE_SPEED_MIN = 3 / 100"
definition ROBOT_CLEARANCE :: real where "ROBOT_CLEARANCE = 7 / 1000"
definition ROBOT_HOLE_PADDING_NORM :: real where "ROBOT_HOLE_PADDING_NORM = 14 / 1000"
definition ROBOT_ZONE_EDGE_PADDING_NORM :: real where "ROBOT_ZONE_EDGE_PADDING_NORM = 4 / 1000"
definition ZONE_SAMPLE_STEPS :: nat where "ZONE_SAMPLE_STEPS = 24"

record ZoneSurface =
  zs_id :: string
  zs_polygon :: "(real \<times> real) list"
  zs_holes :: "(real \<times> real) list list"
  zs_centroid :: "real \<times> real"
  zs_bounds :: Bounds
  zs_holeBounds :: "Bounds option list"

definition pointInHoleOrBufferedBounds ::
  "(real \<Rightarrow> real \<Rightarrow> (real \<times> real) list \<Rightarrow> bool) \<Rightarrow> real \<Rightarrow> real \<Rightarrow>
   (real \<times> real) list list \<Rightarrow> Bounds option list \<Rightarrow> real \<Rightarrow> bool" where
  "pointInHoleOrBufferedBounds pip px py hs hbs holePadding =
     (if list_ex (\<lambda>hole. pip px py hole) hs then True
      else list_ex (\<lambda>bounds. pointInBounds px py bounds holePadding) hbs)"

text \<open>The closure \<^verbatim>\<open>tryCandidate\<close>. Its state is \<^verbatim>\<open>bestX, bestY, bestDist2\<close>, which start as
  the centroid and \<^verbatim>\<open>+Infinity\<close>: \<open>None\<close> stands for that start, as in the spiral snap.\<close>

definition tryCandidate ::
  "(real \<Rightarrow> real \<Rightarrow> (real \<times> real) list \<Rightarrow> bool) \<Rightarrow> ZoneSurface \<Rightarrow> real \<Rightarrow> real \<Rightarrow>
   real \<Rightarrow> real \<Rightarrow> real \<times> real \<Rightarrow> best \<Rightarrow> best" where
  "tryCandidate pip zone holePadding zoneEdgePadding px py candidate b =
     (let nx = clamp01 (fst candidate); ny = clamp01 (snd candidate) in
      if \<not> pip nx ny (zs_polygon zone) then b
      else if pointInHoleOrBufferedBounds pip nx ny (zs_holes zone) (zs_holeBounds zone) holePadding then b
      else if 0 < zoneEdgePadding \<and> \<not> pointInBounds nx ny (Some (zs_bounds zone)) (- zoneEdgePadding) then b
      else let d = dist2 px py nx ny in
        (case b of
           None \<Rightarrow> Some (nx, ny, d)
         | Some (bx, by, bd) \<Rightarrow> if d < bd then Some (nx, ny, d) else b))"

text \<open>The grid of the two nested loops, rows first.\<close>

definition gridSamples :: "ZoneSurface \<Rightarrow> (real \<times> real) list" where
  "gridSamples zone =
     concat (map (\<lambda>yi.
        map (\<lambda>xi.
          (minX (zs_bounds zone) + ((of_nat xi + 1 / 2) / of_nat ZONE_SAMPLE_STEPS)
               * (maxX (zs_bounds zone) - minX (zs_bounds zone)),
           minY (zs_bounds zone) + ((of_nat yi + 1 / 2) / of_nat ZONE_SAMPLE_STEPS)
               * (maxY (zs_bounds zone) - minY (zs_bounds zone))))
          [0 ..< ZONE_SAMPLE_STEPS])
        [0 ..< ZONE_SAMPLE_STEPS])"

function projectPointToWalkable ::
  "(real \<Rightarrow> real \<Rightarrow> (real \<times> real) list \<Rightarrow> bool) \<Rightarrow> real \<Rightarrow> real \<Rightarrow> ZoneSurface \<Rightarrow>
   real \<Rightarrow> real \<Rightarrow> real \<times> real" where
  "projectPointToWalkable pip x0 y0 zone holePadding zoneEdgePadding =
     (if pip (clamp01 x0) (clamp01 y0) (zs_polygon zone) \<and>
         \<not> pointInHoleOrBufferedBounds pip (clamp01 x0) (clamp01 y0) (zs_holes zone) (zs_holeBounds zone)
              holePadding \<and>
         (zoneEdgePadding \<le> 0 \<or>
          pointInBounds (clamp01 x0) (clamp01 y0) (Some (zs_bounds zone)) (- zoneEdgePadding))
      then (clamp01 x0, clamp01 y0)
      else
        (case fold (tryCandidate pip zone holePadding zoneEdgePadding (clamp01 x0) (clamp01 y0))
                   (zs_centroid zone # gridSamples zone) None of
           Some (bx, by, bd) \<Rightarrow> (bx, by)
         | None \<Rightarrow>
             if 0 < zoneEdgePadding
             then projectPointToWalkable pip (clamp01 x0) (clamp01 y0) zone holePadding 0
             else zs_centroid zone))"
  by pat_completeness auto
termination
  by (relation "measure (\<lambda>(pip, x0, y0, zone, holePadding, zoneEdgePadding).
                  if 0 < zoneEdgePadding then 1 else 0)") auto

declare projectPointToWalkable.simps [simp del]

section \<open>The robot tick (components/MapView)\<close>

text \<open>
  \<^verbatim>\<open>Math.hypot\<close>, \<^verbatim>\<open>Math.cos\<close>, \<^verbatim>\<open>Math.sin\<close> and \<^verbatim>\<open>Math.atan2\<close> are the real functions;
  \<^verbatim>\<open>atan2(y, x)\<close> is the argument of the complex number \<open>x + iy\<close>, in \<open>(-\<pi>, \<pi>]\<close> and 0
  at the origin.
\<close>

definition hypot :: "real \<Rightarrow> real \<Rightarrow> real" where
  "hypot dx dy = sqrt (dx * dx + dy * dy)"

definition atan2 :: "real \<Rightarrow> real \<Rightarrow> real" where
  "atan2 dy dx = Arg (Complex dx dy)"

datatype RobotMode = patrol | responding

record RobotState =
  rb_id :: string
  rb_zoneId :: string
  rb_x :: real
  rb_y :: real
  targetX :: real
  targetY :: real
  headingRad :: real
  speed :: real
  baseSpeed :: real
  rb_mode :: RobotMode
  assignedEventId :: "string option"
  stuckTicks :: nat

text \<open>A live event of severity 2 or more, after its projection into its zone.\<close>

record ReactiveEvent =
  re_id :: string
  re_zone_id :: string
  re_severity :: real
  re_x :: real
  re_y :: real

text \<open>
  What one robot's tick draws from \<^verbatim>\<open>Math.random\<close>, \<^verbatim>\<open>pickOne\<close> and
  \<^verbatim>\<open>samplePointInZoneNorm\<close> (of \<^verbatim>\<open>lib/geo\<close>, a random point of a zone): at most two
  samples, two picked zones and two random numbers on any path through the tick.
\<close>

record TickRandom =
  pickedCurrentZone :: string
  firstSample :: "string \<Rightarrow> real \<times> real"
  secondSample :: "string \<Rightarrow> real \<times> real"
  zoneChangeDraw :: real
  pickedNextZone :: string
  detourDraw :: real

definition STEER_ANGLES_RAD :: "real list" where
  "STEER_ANGLES_RAD = [0, 32 / 100, - (32 / 100), 64 / 100, - (64 / 100), 96 / 100, - (96 / 100),
                       126 / 100, - (126 / 100)]"

definition CLEARANCE_PROBES :: "(real \<times> real) list" where
  "CLEARANCE_PROBES =
     [(0, 0), (ROBOT_CLEARANCE, 0), (- ROBOT_CLEARANCE, 0), (0, ROBOT_CLEARANCE), (0, - ROBOT_CLEARANCE),
      (ROBOT_CLEARANCE * (72 / 100), ROBOT_CLEARANCE * (72 / 100)),
      (ROBOT_CLEARANCE * (72 / 100), - ROBOT_CLEARANCE * (72 / 100)),
      (- ROBOT_CLEARANCE * (72 / 100), ROBOT_CLEARANCE * (72 / 100)),
      (- ROBOT_CLEARANCE * (72 / 100), - ROBOT_CLEARANCE * (72 / 100))]"

definition isBlockedPoint ::
  "(real \<Rightarrow> real \<Rightarrow> (real \<times> real) list \<Rightarrow> bool) \<Rightarrow> real \<Rightarrow> real \<Rightarrow>
   (real \<times> real) list list \<Rightarrow> Bounds option list \<Rightarrow> bool" where
  "isBlockedPoint pip px py hs hbs =
     (if px < ROBOT_CLEARANCE \<or> 1 - ROBOT_CLEARANCE < px \<or> py < ROBOT_CLEARANCE \<or> 1 - ROBOT_CLEARANCE < py
      then True
      else list_ex (\<lambda>probe.
             if list_ex (\<lambda>hole. pip (clamp01 (px + fst probe)) (clamp01 (py + snd probe)) hole) hs
             then True
             else list_ex (\<lambda>bounds. pointInBounds (clamp01 (px + fst probe)) (clamp01 (py + snd probe))
                                        bounds ROBOT_HOLE_PADDING_NORM) hbs)
           CLEARANCE_PROBES)"

definition steerCandidate :: "RobotState \<Rightarrow> real \<Rightarrow> real \<Rightarrow> real \<times> real \<times> real" where
  "steerCandidate robot step offset =
     (let heading = atan2 (targetY robot - rb_y robot) (targetX robot - rb_x robot) + offset in
      (rb_x robot + cos heading * step, rb_y robot + sin heading * step, heading))"

definition resolveSteerStep ::
  "(real \<Rightarrow> real \<Rightarrow> (real \<times> real) list \<Rightarrow> bool) \<Rightarrow> RobotState \<Rightarrow> real \<Rightarrow>
   (real \<times> real) list list \<Rightarrow> Bounds option list \<Rightarrow> (real \<times> real \<times> real) option" where
  "resolveSteerStep pip robot step hs hbs =
     find (\<lambda>c. \<not> isBlockedPoint pip (fst c) (fst (snd c)) hs hbs)
          (map (steerCandidate robot step) STEER_ANGLES_RAD)"

text \<open>The loop of \<^verbatim>\<open>findClosestReactiveEvent\<close>: the state is \<^verbatim>\<open>best\<close> and \<^verbatim>\<open>bestScore\<close>.\<close>

definition closerEvent :: "RobotState \<Rightarrow> ReactiveEvent \<Rightarrow> (ReactiveEvent \<times> real) option \<Rightarrow> (ReactiveEvent \<times> real) option" where
  "closerEvent robot event st =
     (let distance = hypot (re_x event - rb_x robot) (re_y event - rb_y robot) in
      if EVENT_REACTION_DISTANCE_NORM < distance then st
      else let score = distance - re_severity event * (3 / 100) in
        (case st of
           None \<Rightarrow> Some (event, score)
         | Some (b, bestScore) \<Rightarrow> if score < bestScore then Some (event, score) else st))"

definition findClosestReactiveEvent :: "RobotState \<Rightarrow> ReactiveEvent list \<Rightarrow> ReactiveEvent option" where
  "findClosestReactiveEvent robot events = map_option fst (fold (closerEvent robot) events None)"

definition projectToWalkableTarget ::
  "(real \<Rightarrow> real \<Rightarrow> (real \<times> real) list \<Rightarrow> bool) \<Rightarrow> ZoneSurface list \<Rightarrow> real \<Rightarrow> real \<Rightarrow> string \<Rightarrow> real \<times> real" where
  "projectToWalkableTarget pip surfaces px py zid =
     (case map_of (newMap (map (\<lambda>z. (zs_id z, z)) surfaces)) zid of
        None \<Rightarrow> (clamp01 px, clamp01 py)
      | Some zone \<Rightarrow>
          projectPointToWalkable pip px py zone ROBOT_HOLE_PADDING_NORM ROBOT_ZONE_EDGE_PADDING_NORM)"

text \<open>\<^verbatim>\<open>zm.zones.find((zone) => zone.zone_id === id) ?? fallback\<close>, as the id of the zone found.
  The zones of the map and their surfaces have the same ids, in the same order.\<close>

definition zoneOr :: "ZoneSurface list \<Rightarrow> string \<Rightarrow> string \<Rightarrow> string" where
  "zoneOr surfaces zid fallback = (if zid \<in> set (map zs_id surfaces) then zid else fallback)"

text \<open>The robot after the first \<^verbatim>\<open>if\<close> of the tick: assigned to an event, released to
  patrol, or unchanged.\<close>

definition assignRobot ::
  "(real \<Rightarrow> real \<Rightarrow> (real \<times> real) list \<Rightarrow> bool) \<Rightarrow> ZoneSurface list \<Rightarrow> TickRandom \<Rightarrow>
   ReactiveEvent list \<Rightarrow> RobotState \<Rightarrow> RobotState" where
  "assignRobot pip surfaces rnd reactiveEvents robot =
     (let currentZone = zoneOr surfaces (rb_zoneId robot) (pickedCurrentZone rnd);
          trackedEvent = (case assignedEventId robot of
                            None \<Rightarrow> None
                          | Some a \<Rightarrow> if a = [] then None
                                      else find (\<lambda>event. re_id event = a) reactiveEvents);
          nearestEvent = findClosestReactiveEvent robot reactiveEvents;
          responseEvent = (case trackedEvent of Some t \<Rightarrow> Some t | None \<Rightarrow> nearestEvent) in
      case responseEvent of
        Some ev \<Rightarrow>
          (let projectedTarget = projectToWalkableTarget pip surfaces (re_x ev) (re_y ev) (re_zone_id ev) in
           robot \<lparr> rb_zoneId := re_zone_id ev,
                   targetX := fst projectedTarget,
                   targetY := snd projectedTarget,
                   speed := max (baseSpeed robot * (116 / 100)) RESPONSE_SPEED_MIN,
                   rb_mode := responding,
                   assignedEventId := Some (re_id ev) \<rparr>)
      | None \<Rightarrow>
          if rb_mode robot = responding then
            (let patrolZone = zoneOr surfaces (rb_zoneId robot) currentZone;
                 patrolRaw = firstSample rnd patrolZone;
                 patrolTarget = projectToWalkableTarget pip surfaces (fst patrolRaw) (snd patrolRaw) patrolZone in
             robot \<lparr> targetX := fst patrolTarget,
                     targetY := snd patrolTarget,
                     speed := baseSpeed robot,
                     rb_mode := patrol,
                     assignedEventId := None,
                     stuckTicks := 0 \<rparr>)
          else robot)"

definition robotTick ::
  "(real \<Rightarrow> real \<Rightarrow> (real \<times> real) list \<Rightarrow> bool) \<Rightarrow> ZoneSurface list \<Rightarrow> TickRandom \<Rightarrow>
   ReactiveEvent list \<Rightarrow> RobotState \<Rightarrow> RobotState" where
  "robotTick pip surfaces rnd reactiveEvents robot =
     (let hs = concat (map zs_holes surfaces);
          hbs = concat (map zs_holeBounds surfaces);
          currentZone = zoneOr surfaces (rb_zoneId robot) (pickedCurrentZone rnd);
          nextRobot = assignRobot pip surfaces rnd reactiveEvents robot;
          distance = hypot (targetX nextRobot - rb_x nextRobot) (targetY nextRobot - rb_y nextRobot);
          step = speed nextRobot * (80 / 1000) in
      if distance \<le> max step (3 / 1000) then
        (if rb_mode nextRobot = responding then
           (let patrolZone = zoneOr surfaces (rb_zoneId nextRobot) currentZone;
                patrolRaw = secondSample rnd patrolZone;
                patrolTarget = projectToWalkableTarget pip surfaces (fst patrolRaw) (snd patrolRaw) patrolZone in
            nextRobot \<lparr> rb_x := targetX nextRobot,
                        rb_y := targetY nextRobot,
                        rb_zoneId := patrolZone,
                        targetX := fst patrolTarget,
                        targetY := snd patrolTarget,
                        speed := baseSpeed nextRobot,
                        rb_mode := patrol,
                        assignedEventId := None,
                        headingRad := atan2 (snd patrolTarget - targetY nextRobot)
                                            (fst patrolTarget - targetX nextRobot),
                        stuckTicks := 0 \<rparr>)
         else
           (let nextZone = (if zoneChangeDraw rnd < 3 / 10 then pickedNextZone rnd else currentZone);
                nextTargetRaw = secondSample rnd nextZone;
                nextTarget = projectToWalkableTarget pip surfaces (fst nextTargetRaw) (snd nextTargetRaw) nextZone in
            nextRobot \<lparr> rb_zoneId := nextZone,
                        targetX := fst nextTarget,
                        targetY := snd nextTarget,
                        headingRad := atan2 (snd nextTarget - rb_y nextRobot) (fst nextTarget - rb_x nextRobot),
                        stuckTicks := 0 \<rparr>))
      else
        (case resolveSteerStep pip nextRobot step hs hbs of
           None \<Rightarrow>
             (let detourHeading = headingRad nextRobot
                                   + (if detourDraw rnd < 1 / 2 then 92 / 100 else - (92 / 100));
                  detourTargetX = clamp01 (rb_x nextRobot + cos detourHeading * (8 / 100));
                  detourTargetY = clamp01 (rb_y nextRobot + sin detourHeading * (8 / 100));
                  projectedDetour = projectToWalkableTarget pip surfaces detourTargetX detourTargetY
                                      (rb_zoneId nextRobot) in
              if \<not> isBlockedPoint pip (fst projectedDetour) (snd projectedDetour) hs hbs then
                nextRobot \<lparr> targetX := fst projectedDetour,
                            targetY := snd projectedDetour,
                            headingRad := detourHeading,
                            stuckTicks := stuckTicks nextRobot + 1 \<rparr>
              else
                (let fallbackZone = zoneOr surfaces (rb_zoneId nextRobot) currentZone;
                     fallbackRaw = secondSample rnd fallbackZone;
                     fallbackPoint = projectToWalkableTarget pip surfaces (fst fallbackRaw) (snd fallbackRaw)
                                       fallbackZone in
                 nextRobot \<lparr> rb_x := fst fallbackPoint,
                             rb_y := snd fallbackPoint,
                             targetX := fst fallbackPoint,
                             targetY := snd fallbackPoint,
                             speed := baseSpeed nextRobot,
                             rb_mode := patrol,
                             assignedEventId := None,
                             headingRad := detourHeading,
                             stuckTicks := 0 \<rparr>))
         | Some steered \<Rightarrow>
             (let movedDistance = hypot (fst steered - rb_x robot) (fst (snd steered) - rb_y robot);
                  stuck = (if movedDistance < 6 / 10000 then stuckTicks robot + 1 else 0) in
              if ROBOT_STUCK_TICKS \<le> stuck then
                (let rescueZone = zoneOr surfaces (rb_zoneId nextRobot) currentZone;
                     rescueRaw = secondSample rnd rescueZone;
                     rescue = projectToWalkableTarget pip surfaces (fst rescueRaw) (snd rescueRaw) rescueZone in
                 nextRobot \<lparr> targetX := fst rescue,
                             targetY := snd rescue,
                             rb_mode := patrol,
                             assignedEventId := None,
                             stuckTicks := 0 \<rparr>)
              else
                nextRobot \<lparr> rb_x := fst steered,
                            rb_y := fst (snd steered),
                            headingRad := snd (snd steered),
                            stuckTicks := stuck \<rparr>)))"

section \<open>A concrete environment\<close>

text \<open>
  Modelled from the spec: \<^verbatim>\<open>pointInPolygon\<close> of \<^verbatim>\<open>lib/geo\<close> is not among the verified
  sources; the spec names it as the point-in-polygon query of the zone geometry model.
  The theorems below hold for every such function (it is a field of the environment);
  the even-odd ray casting here only instantiates it where a theorem is applied to a
  concrete input.
\<close>

definition crossesRay :: "real \<Rightarrow> real \<Rightarrow> real \<times> real \<Rightarrow> real \<times> real \<Rightarrow> bool" where
  "crossesRay px py a b =
     ((py < snd a) \<noteq> (py < snd b) \<and>
      px < (fst b - fst a) * (py - snd a) / (snd b - snd a) + fst a)"

fun rayCrossings :: "real \<Rightarrow> real \<Rightarrow> real \<times> real \<Rightarrow> (real \<times> real) list \<Rightarrow> bool" where
  "rayCrossings px py prev [] = False"
| "rayCrossings px py prev (p # ps) = (crossesRay px py p prev \<noteq> rayCrossings px py p ps)"

definition rayCast :: "real \<Rightarrow> real \<Rightarrow> (real \<times> real) list \<Rightarrow> bool" where
  "rayCast px py poly = (if poly = [] then False else rayCrossings px py (last poly) poly)"

text \<open>A comparison of strings by code units, standing in for \<^verbatim>\<open>localeCompare\<close> on
  concrete inputs.\<close>

fun codeUnitCompare :: "string \<Rightarrow> string \<Rightarrow> int" where
  "codeUnitCompare [] [] = 0"
| "codeUnitCompare [] (b # bs) = - 1"
| "codeUnitCompare (a # as) [] = 1"
| "codeUnitCompare (a # as) (b # bs) =
     (if (of_char a :: nat) < of_char b then - 1
      else if (of_char b :: nat) < of_char a then 1
      else codeUnitCompare as bs)"

text \<open>\<^verbatim>\<open>Number(s)\<close> on the empty string and on strings of decimal digits, which is all
  the concrete inputs below contain.\<close>

definition decimalNumber :: "string \<Rightarrow> real option" where
  "decimalNumber s =
     (if list_all isDigit s then Some (of_nat (foldl (\<lambda>a c. 10 * a + digitValue c) 0 s)) else None)"

text \<open>
  A store of 1000 by 500 pixels and 9 by 4.5 metres (equal aspect ratios, so the map
  and world normalisations coincide) with one rectangular zone, \<open>zone-a\<close>, covering the
  left half of it, with a shelf in the middle of the zone, and no calibrated camera.
\<close>

definition demoZone :: Zone where
  "demoZone = \<lparr> zone_id = ''zone-a'',
                polygon = [(0, 0), (500, 0), (500, 500), (0, 500)],
                holes = [[(200, 200), (300, 200), (300, 300), (200, 300)]],
                centroid = Some (Some 250, Some 100) \<rparr>"

definition demoZoneMap :: ZoneMap where
  "demoZoneMap = \<lparr> map_width = 1000, map_height = 500,
                   world_width_m = Some 9, world_depth_m = Some (9 / 2),
                   world_offset_x_m = Some 0, world_offset_z_m = Some 0,
                   zones = [demoZone] \<rparr>"

definition demoEnv :: env where
  "demoEnv = \<lparr> zm = demoZoneMap,
               CAMERA_HOMOGRAPHY = (\<lambda>k. None),
               CAMERA_FRAME = (\<lambda>k. None),
               pointInPolygon = rayCast,
               mapNormToWorldNorm = (\<lambda>px py. (px, py)),
               worldNormToMapNorm = (\<lambda>px py. (px, py)),
               applyHomography = (\<lambda>m px py. None),
               dateNow = 1800000000000,
               hostNumber = decimalNumber,
               hostDateParse = (\<lambda>s. None),
               localeCompare = codeUnitCompare \<rparr>"

definition demoOptions :: NormalizeOptions where
  "demoOptions = \<lparr> maxEvents = 600, fallbackStoreId = Some ''s001'', defaultSource = Some api \<rparr>"

section \<open>Example records, events and surfaces\<close>

definition scenarioRecord :: jv where
  "scenarioRecord = JObj [(''id'', JStr ''e1''), (''ts'', JNum 1700000000000),
     (''x'', JNum (1 / 2)), (''y'', JNum (1 / 2)), (''type'', JStr ''fall_down''),
     (''severity'', JStr ''high'')]"

definition shelfRecord :: jv where
  "shelfRecord = JObj [(''id'', JStr ''e2''), (''ts'', JNum 1700000000000),
     (''x'', JNum (178 / 1000)), (''y'', JNum (1 / 2))]"

definition staleClockRecord :: jv where
  "staleClockRecord = JObj [(''id'', JStr ''e1''), (''detected_at'', JNum 0),
     (''ts'', JNum 1700000000000), (''x'', JNum (1 / 2)), (''y'', JNum (1 / 2))]"


definition demoFeed :: "jv list" where
  "demoFeed =
     [JObj [(''camera_id'', JStr ''cam1''), (''track_id'', JNum 7), (''detected_at'', JNum 1700000000100),
            (''x'', JNum (1 / 10)), (''y'', JNum (1 / 10))],
      JStr ''noise'',
      JObj [(''id'', JStr ''e9''), (''ts'', JNum 1700000000150), (''x'', JNum (1 / 10)), (''y'', JNum (1 / 5))],
      JObj [(''camera_id'', JStr ''cam1''), (''track_id'', JNum 7), (''detected_at'', JNum 1700000000200),
            (''x'', JNum (3 / 10)), (''y'', JNum (1 / 10))]]"

definition shelfEvent :: EventItem where
  "shelfEvent = \<lparr> ev_id = ''e2'', store_id = ''s001'', detected_at = 1700000000200,
       ingested_at = 1700000000300, latency_ms = 100, ev_type = fall, ev_severity = 3,
       confidence = 92 / 100, ev_zone_id = ''zone-a'', camera_id = Defined ''cam1'',
       track_id = Undefined, object_label = Defined ''person'', raw_status = Defined ''open'',
       ev_source = api, model_version = Undefined, incident_status = new,
       ev_x = 1 / 10, ev_y = 1 / 10, world_x_m = Undefined, world_z_m = Undefined,
       ev_note = Undefined \<rparr>"

definition staleEvent :: EventItem where
  "staleEvent = shelfEvent \<lparr> detected_at := 1700000000100, ingested_at := 1700000000100,
       latency_ms := 0, ev_type := crowd, ev_severity := 2, camera_id := Undefined,
       object_label := Undefined, raw_status := Undefined \<rparr>"

definition blockedSurface :: ZoneSurface where
  "blockedSurface = \<lparr> zs_id = ''zone-shelf'', zs_polygon = [(0, 0), (1, 0), (1, 1), (0, 1)],
      zs_holes = [[(0, 0), (1, 0), (1, 1), (0, 1)]], zs_centroid = (1 / 2, 1 / 2),
      zs_bounds = \<lparr> minX = 0, maxX = 1, minY = 0, maxY = 1 \<rparr>,
      zs_holeBounds = [Some \<lparr> minX = 0, maxX = 1, minY = 0, maxY = 1 \<rparr>] \<rparr>"

definition pocketSurface :: ZoneSurface where
  "pocketSurface = \<lparr> zs_id = ''zone-a'', zs_polygon = [(0, 0), (1, 0), (1, 1), (0, 1)],
      zs_holes = [[(45 / 100, 45 / 100), (55 / 100, 45 / 100), (55 / 100, 55 / 100), (45 / 100, 55 / 100)]],
      zs_centroid = (1 / 5, 1 / 5),
      zs_bounds = \<lparr> minX = 0, maxX = 1, minY = 0, maxY = 1 \<rparr>,
      zs_holeBounds = [Some \<lparr> minX = 45 / 100, maxX = 55 / 100, minY = 45 / 100, maxY = 55 / 100 \<rparr>] \<rparr>"

definition pocketEvent :: ReactiveEvent where
  "pocketEvent = \<lparr> re_id = ''e1'', re_zone_id = ''zone-a'', re_severity = 3,
                    re_x = 2 / 5, re_y = 1 / 2 \<rparr>"

definition pocketDraws :: TickRandom where
  "pocketDraws = \<lparr> pickedCurrentZone = ''zone-a'', firstSample = (\<lambda>z. (1 / 5, 1 / 5)),
                    secondSample = (\<lambda>z. (1 / 5, 1 / 5)), zoneChangeDraw = 1 / 2,
                    pickedNextZone = ''zone-a'', detourDraw = 1 / 4 \<rparr>"

definition stuckRobot :: RobotState where
  "stuckRobot = \<lparr> rb_id = ''robot-1'', rb_zoneId = ''zone-a'', rb_x = 113 / 200, rb_y = 1 / 2,
                   targetX = 2 / 5, targetY = 1 / 2, headingRad = - (92 / 100),
                   speed = 87 / 2500, baseSpeed = 3 / 100, rb_mode = responding,
                   assignedEventId = Some ''e1'', stuckTicks = 18 \<rparr>"

definition labelledRecord :: jv where
  "labelledRecord =
     JObj [(''id'', JStr ''e5''), (''ts'', JNum 1700000000000),
           (''world'', JObj [(''x'', JNum (9 / 5)), (''z'', JNum (9 / 10))]),
           (''status'', JStr ''open''), (''label'', JStr ''person'')]"

definition narrowOptions :: NormalizeOptions where
  "narrowOptions = \<lparr> maxEvents = 2, fallbackStoreId = Some ''s001'', defaultSource = Some api \<rparr>"

definition freshEvent :: EventItem where
  "freshEvent = shelfEvent \<lparr> detected_at := 1700000000900, ingested_at := 1700000000950 \<rparr>"

definition otherEvent :: EventItem where
  "otherEvent = shelfEvent \<lparr> ev_id := ''e7'' \<rparr>"

definition ringSurface :: ZoneSurface where
  "ringSurface = \<lparr> zs_id = ''zone-ring'', zs_polygon = [(0, 0), (1, 0), (1, 1), (0, 1)],
      zs_holes = [[(45 / 100, 45 / 100), (55 / 100, 45 / 100), (55 / 100, 55 / 100), (45 / 100, 55 / 100)]],
      zs_centroid = (1 / 2, 1 / 2),
      zs_bounds = \<lparr> minX = 0, maxX = 1, minY = 0, maxY = 1 \<rparr>,
      zs_holeBounds = [Some \<lparr> minX = 45 / 100, maxX = 55 / 100, minY = 45 / 100, maxY = 55 / 100 \<rparr>] \<rparr>"

section \<open>Invariants and derived notions\<close>

text \<open>Invariant of the fold over one ring: the state is the first minimum of the
  walkable clamped samples seen so far.\<close>

definition bestOf :: "real \<Rightarrow> real \<Rightarrow> (real \<times> real) list \<Rightarrow> best \<Rightarrow> bool" where
  "bestOf x0 y0 cs b =
     (case b of
        None \<Rightarrow> cs = []
      | Some (bx, by, bd) \<Rightarrow>
          (bx, by) \<in> set cs \<and> bd = dist2 x0 y0 bx by \<and>
          (\<forall>c \<in> set cs. bd \<le> dist2 x0 y0 (fst c) (snd c)))"

definition inUnit :: "real \<times> real \<Rightarrow> bool" where
  "inUnit p = (0 \<le> fst p \<and> fst p \<le> 1 \<and> 0 \<le> snd p \<and> snd p \<le> 1)"

text \<open>\<open>newer a b\<close>: \<open>a\<close> is strictly newer than \<open>b\<close> by detection time, then ingestion time.\<close>

definition newer :: "EventItem \<Rightarrow> EventItem \<Rightarrow> bool" where
  "newer a b = (detected_at b < detected_at a \<or>
                (detected_at a = detected_at b \<and> ingested_at b < ingested_at a))"

definition dedupeInv :: "(string \<times> EventItem) list \<Rightarrow> EventItem list \<Rightarrow> bool" where
  "dedupeInv m seen =
     (distinct (map fst m) \<and> dom (map_of m) = ev_id ` set seen \<and>
      (\<forall>k v. map_of m k = Some v \<longrightarrow>
         ev_id v = k \<and> v \<in> set seen \<and> (\<forall>n \<in> set seen. ev_id n = k \<longrightarrow> \<not> newer n v)))"

text \<open>The order of the comparator: newest first, ties by the host's comparison of ids.\<close>

definition newestFirst :: "env \<Rightarrow> EventItem \<Rightarrow> EventItem \<Rightarrow> bool" where
  "newestFirst e a b =
     (detected_at b < detected_at a \<or>
      (detected_at a = detected_at b \<and>
       (ingested_at b < ingested_at a \<or>
        (ingested_at a = ingested_at b \<and> localeCompare e (ev_id a) (ev_id b) \<le> 0))))"

definition allKeys :: "EventItem \<Rightarrow> bool" where
  "allKeys ev = (camera_id ev \<noteq> Absent \<and> track_id ev \<noteq> Absent \<and> object_label ev \<noteq> Absent \<and>
                 raw_status ev \<noteq> Absent \<and> model_version ev \<noteq> Absent \<and> world_x_m ev \<noteq> Absent \<and>
                 world_z_m ev \<noteq> Absent \<and> ev_note ev \<noteq> Absent)"

text \<open>\<open>surfaceWalkable\<close> is the test both the first check and \<^verbatim>\<open>tryCandidate\<close> apply: inside
  the polygon, off every hole and padded hole box, and within the edge margin when one
  is set.\<close>

definition surfaceWalkable ::
  "(real \<Rightarrow> real \<Rightarrow> (real \<times> real) list \<Rightarrow> bool) \<Rightarrow> ZoneSurface \<Rightarrow> real \<Rightarrow> real \<Rightarrow> real \<Rightarrow> real \<Rightarrow> bool" where
  "surfaceWalkable pip zone holePadding zoneEdgePadding px py =
     (pip px py (zs_polygon zone) \<and>
      \<not> pointInHoleOrBufferedBounds pip px py (zs_holes zone) (zs_holeBounds zone) holePadding \<and>
      (zoneEdgePadding \<le> 0 \<or> pointInBounds px py (Some (zs_bounds zone)) (- zoneEdgePadding)))"

definition projectionCandidates :: "ZoneSurface \<Rightarrow> (real \<times> real) list" where
  "projectionCandidates zone = map clampPoint (zs_centroid zone # gridSamples zone)"

text \<open>A pocket: a point so close to the padded box of a hole that every point within
  one step of it has its probe at \<open>(-ROBOT_CLEARANCE, 0)\<close> inside the padded box.\<close>

definition inPocket :: "Bounds \<Rightarrow> real \<Rightarrow> real \<Rightarrow> real \<Rightarrow> bool" where
  "inPocket b px py s =
     (minX b - ROBOT_HOLE_PADDING_NORM \<le> px - s - ROBOT_CLEARANCE \<and>
      px + s - ROBOT_CLEARANCE \<le> maxX b + ROBOT_HOLE_PADDING_NORM \<and>
      minY b - ROBOT_HOLE_PADDING_NORM \<le> py - s \<and>
      py + s \<le> maxY b + ROBOT_HOLE_PADDING_NORM)"

definition trimmedText :: "string \<Rightarrow> bool" where
  "trimmedText s = (s \<noteq> [] \<and> \<not> isWhitespace (hd s) \<and> \<not> isWhitespace (last s))"

text \<open>
  An event of the feed, read as a raw record again: the object that \<^verbatim>\<open>adaptRawEvent\<close>
  returns, with its keys in the order of the object literal. An optional key holds
  \<^verbatim>\<open>undefined\<close> when the adapter found nothing for it.
\<close>

definition typeName :: "EventType \<Rightarrow> string" where
  "typeName t = (case t of crowd \<Rightarrow> ''crowd'' | fall \<Rightarrow> ''fall'' | fight \<Rightarrow> ''fight''
                 | loitering \<Rightarrow> ''loitering'' | unknownType \<Rightarrow> ''unknown'')"

definition sourceName :: "EventSource \<Rightarrow> string" where
  "sourceName s = (case s of demo \<Rightarrow> ''demo'' | camera \<Rightarrow> ''camera'' | api \<Rightarrow> ''api''
                   | unknownSource \<Rightarrow> ''unknown'')"

definition statusName :: "IncidentStatus \<Rightarrow> string" where
  "statusName s = (case s of new \<Rightarrow> ''new'' | ack \<Rightarrow> ''ack'' | resolved \<Rightarrow> ''resolved'')"

definition fieldEntry :: "string \<Rightarrow> ('a \<Rightarrow> jv) \<Rightarrow> 'a field \<Rightarrow> (string \<times> jv) list" where
  "fieldEntry k wrap f =
     (case f of Absent \<Rightarrow> [] | Undefined \<Rightarrow> [(k, JUndefined)] | Defined a \<Rightarrow> [(k, wrap a)])"

definition toRaw :: "EventItem \<Rightarrow> jv" where
  "toRaw ev = JObj (
     [(''id'', JStr (ev_id ev)),
      (''store_id'', JStr (store_id ev)),
      (''detected_at'', JNum (detected_at ev)),
      (''ingested_at'', JNum (ingested_at ev)),
      (''latency_ms'', JNum (latency_ms ev)),
      (''type'', JStr (typeName (ev_type ev))),
      (''severity'', JNum (of_nat (ev_severity ev))),
      (''confidence'', JNum (confidence ev)),
      (''zone_id'', JStr (ev_zone_id ev))]
     @ fieldEntry ''camera_id'' JStr (camera_id ev)
     @ fieldEntry ''track_id'' JStr (track_id ev)
     @ fieldEntry ''object_label'' JStr (object_label ev)
     @ fieldEntry ''raw_status'' JStr (raw_status ev)
     @ [(''source'', JStr (sourceName (ev_source ev)))]
     @ fieldEntry ''model_version'' JStr (model_version ev)
     @ [(''incident_status'', JStr (statusName (incident_status ev)))]
     @ [(''x'', JNum (ev_x ev)), (''y'', JNum (ev_y ev))]
     @ fieldEntry ''world_x_m'' JNum (world_x_m ev)
     @ fieldEntry ''world_z_m'' JNum (world_z_m ev)
     @ fieldEntry ''note'' JStr (ev_note ev))"

text \<open>Reading a property off the list of the own properties.\<close>

definition lookupU :: "(string \<times> jv) list \<Rightarrow> string \<Rightarrow> jv" where
  "lookupU kvs k = (case map_of kvs k of Some v \<Rightarrow> v | None \<Rightarrow> JUndefined)"

definition fieldValue :: "('a \<Rightarrow> jv) \<Rightarrow> 'a field \<Rightarrow> jv" where
  "fieldValue wrap f = (case f of Defined a \<Rightarrow> wrap a | _ \<Rightarrow> JUndefined)"

definition validEpoch :: "env \<Rightarrow> real \<Rightarrow> bool" where
  "validEpoch e d = ((\<exists>k::int. d = of_int k) \<and> MIN_VALID_EPOCH_MS \<le> d \<and>
                     d \<le> dateNow e + MAX_FUTURE_DRIFT_MS)"

definition trimmedField :: "string field \<Rightarrow> bool" where
  "trimmedField f = (case f of Defined s \<Rightarrow> trimmedText s | _ \<Rightarrow> True)"

text \<open>What every event built by \<^verbatim>\<open>adaptRawEvent\<close> satisfies.\<close>

definition canonicalEvent :: "env \<Rightarrow> EventItem \<Rightarrow> bool" where
  "canonicalEvent e ev =
     (allKeys ev \<and> trimmedText (ev_id ev) \<and> validEpoch e (detected_at ev) \<and>
      validEpoch e (ingested_at ev) \<and> (\<exists>k::int. 0 \<le> k \<and> latency_ms ev = of_int k) \<and>
      ev_severity ev \<in> {1, 2, 3} \<and> 0 \<le> confidence ev \<and> confidence ev \<le> 1 \<and>
      trimmedField (camera_id ev) \<and> trimmedField (track_id ev) \<and> trimmedField (model_version ev) \<and>
      trimmedField (ev_note ev) \<and> inUnit (ev_x ev, ev_y ev))"

definition ingestedOf :: "env \<Rightarrow> jv \<Rightarrow> real \<Rightarrow> real" where
  "ingestedOf e v d =
     (case parseEpochMs e (pickValue v
            [''ingested_at'', ''ingestedAt'', ''received_at'', ''receivedAt'', ''updated_at'', ''updatedAt''])
      of Some t \<Rightarrow> t | None \<Rightarrow> d)"

definition latencyOf :: "env \<Rightarrow> jv \<Rightarrow> real \<Rightarrow> real" where
  "latencyOf e v d =
     (case parseNumber e (pickValue v [''latency_ms'', ''latencyMs'', ''latency'', ''delay_ms'']) of
        Some l \<Rightarrow> max 0 (of_int (mathRound l))
      | None \<Rightarrow> max 0 (of_int (mathRound (ingestedOf e v d - d))))"

definition severityOf :: "env \<Rightarrow> jv \<Rightarrow> nat" where
  "severityOf e v =
     normalizeSeverity e
       (pickValue v [''severity'', ''priority'', ''level'', ''risk'', ''risk_level'', ''riskLevel'',
                     ''status'', ''state''])
       (resolveEventType v)"

definition storeIdOf :: "NormalizeOptions \<Rightarrow> jv \<Rightarrow> string" where
  "storeIdOf options v =
     (case parseId (pickValue v
            [''store_id'', ''storeId'', ''store.id'', ''site_id'', ''siteId'', ''shop_id'', ''shopId'']) of
        Some sid \<Rightarrow> sid
      | None \<Rightarrow> (case fallbackStoreId options of Some f \<Rightarrow> f | None \<Rightarrow> ''s001''))"

definition reAdapt :: "env \<Rightarrow> NormalizeOptions \<Rightarrow> EventItem \<Rightarrow> EventItem" where
  "reAdapt e options ev =
     buildEvent e options (toRaw ev) (ev_id ev) (detected_at ev) (plainPoint (ev_x ev) (ev_y ev))"

text \<open>What a second pass keeps of an event \<open>a\<close> of the first output, in the event
  \<open>b\<close> it makes of it.\<close>

definition reNormalized :: "EventItem \<Rightarrow> EventItem \<Rightarrow> bool" where
  "reNormalized a b =
     (ev_id b = ev_id a \<and> detected_at b = detected_at a \<and> ingested_at b = ingested_at a \<and>
      latency_ms b = latency_ms a \<and> ev_type b = ev_type a \<and> ev_severity b = ev_severity a \<and>
      confidence b = confidence a \<and> camera_id b = camera_id a \<and> track_id b = track_id a \<and>
      ev_source b = ev_source a \<and> model_version b = model_version a \<and>
      incident_status b = incident_status a \<and> ev_note b = ev_note a \<and>
      object_label b = Undefined \<and> raw_status b = Undefined)"

text \<open>The store id of a record that names none.\<close>

definition storeFallback :: "NormalizeOptions \<Rightarrow> string" where
  "storeFallback options = (case fallbackStoreId options of Some f \<Rightarrow> f | None \<Rightarrow> ''s001'')"

text \<open>A zone id that \<^verbatim>\<open>resolveZoneId\<close> takes from the record as it is.\<close>

definition trustedZoneId :: "env \<Rightarrow> string \<Rightarrow> bool" where
  "trustedZoneId e z = (trimmedText z \<and> (z \<in> ZONE_IDS e \<or> toLowerCase z \<notin> GENERIC_ZONE_IDS))"

text \<open>A point that \<^verbatim>\<open>snapCoordinatesToFloor\<close> leaves where it is, for a zone id.\<close>

definition snapFixed :: "env \<Rightarrow> string \<Rightarrow> real \<times> real \<Rightarrow> bool" where
  "snapFixed e zid p =
     (nc_x (snapCoordinatesToFloor e (plainPoint (fst p) (snd p)) zid) = fst p \<and>
      nc_y (snapCoordinatesToFloor e (plainPoint (fst p) (snd p)) zid) = snd p)"

text \<open>An event map of the merge: every key once, every event under its own id.\<close>

definition keyed :: "(string \<times> EventItem) list \<Rightarrow> bool" where
  "keyed m = (distinct (map fst m) \<and> (\<forall>p \<in> set m. ev_id (snd p) = fst p))"

text \<open>What \<^verbatim>\<open>map.set(event.id, prev ? { ...prev, ...event } : event)\<close> stores.\<close>

definition absorb :: "EventItem \<Rightarrow> EventItem option \<Rightarrow> EventItem option" where
  "absorb event prev = Some (case prev of Some p \<Rightarrow> spread p event | None \<Rightarrow> event)"

text \<open>The map of \<^verbatim>\<open>mergeEvents\<close> after its loop.\<close>

definition mergedMap :: "EventItem list \<Rightarrow> EventItem list \<Rightarrow> (string \<times> EventItem) list" where
  "mergedMap existing incoming =
     fold mergeStep incoming (newMap (map (\<lambda>event. (ev_id event, event)) existing))"

text \<open>
  The candidates of the projection in the words of the specification: the centroid of
  the zone and the centres of the cells of a 24 by 24 grid over the bounding box of the
  zone, each clamped to the unit square.
\<close>

definition gridCandidate :: "ZoneSurface \<Rightarrow> real \<times> real \<Rightarrow> bool" where
  "gridCandidate zone q =
     (\<exists>xi \<in> {0 ..< 24 :: nat}. \<exists>yi \<in> {0 ..< 24 :: nat}.
        q = (clamp01 (minX (zs_bounds zone)
                       + ((of_nat xi + 1 / 2) / 24) * (maxX (zs_bounds zone) - minX (zs_bounds zone))),
             clamp01 (minY (zs_bounds zone)
                       + ((of_nat yi + 1 / 2) / 24) * (maxY (zs_bounds zone) - minY (zs_bounds zone)))))"

definition candidateOf :: "ZoneSurface \<Rightarrow> real \<times> real \<Rightarrow> bool" where
  "candidateOf zone q =
     (q = (clamp01 (fst (zs_centroid zone)), clamp01 (snd (zs_centroid zone))) \<or> gridCandidate zone q)"

section \<open>Properties of the spiral snap\<close>

lemma clampRange_unit: "0 \<le> clampRange v 0 1 \<and> clampRange v 0 1 \<le> 1"
  by (simp add: clampRange_def)

lemma clampRange_id: "0 \<le> v \<Longrightarrow> v \<le> 1 \<Longrightarrow> clampRange v 0 1 = v"
  by (simp add: clampRange_def)

lemma spiralTest_bestOf:
  assumes "bestOf x0 y0 cs b"
  shows "bestOf x0 y0 (cs @ filter (\<lambda>c. W (fst c) (snd c)) [clampPoint p]) (spiralTest W x0 y0 p b)"
proof (cases "W (clampRange (fst p) 0 1) (clampRange (snd p) 0 1)")
  case False
  then show ?thesis using assms by (simp add: spiralTest_def clampPoint_def)
next
  case True
  show ?thesis
  proof (cases b)
    case None
    then show ?thesis using assms True
      by (simp add: spiralTest_def clampPoint_def bestOf_def Let_def)
  next
    case (Some t)
    obtain bx "by" bd where t: "t = (bx, by, bd)" by (cases t) auto
    show ?thesis using assms True Some t
      by (auto simp: spiralTest_def clampPoint_def bestOf_def Let_def)
  qed
qed

lemma fold_spiralTest_bestOf:
  "bestOf x0 y0 cs b \<Longrightarrow>
   bestOf x0 y0 (cs @ filter (\<lambda>c. W (fst c) (snd c)) (map clampPoint ps))
     (fold (spiralTest W x0 y0) ps b)"
proof (induction ps arbitrary: cs b)
  case Nil
  then show ?case by simp
next
  case (Cons p ps)
  from spiralTest_bestOf[OF Cons.prems, of W p]
  have "bestOf x0 y0 (cs @ filter (\<lambda>c. W (fst c) (snd c)) [clampPoint p]) (spiralTest W x0 y0 p b)" .
  from Cons.IH[OF this] show ?case by (cases "W (fst (clampPoint p)) (snd (clampPoint p))") simp_all
qed

lemma ringBest_bestOf:
  "bestOf x0 y0 (ringWalkable W x0 y0 step ring) (ringBest W x0 y0 step ring)"
proof -
  have "bestOf x0 y0 [] None" by (simp add: bestOf_def)
  from fold_spiralTest_bestOf[OF this, of W "ringSamples x0 y0 step ring"]
  show ?thesis by (simp add: ringBest_def ringWalkable_def)
qed

lemma ringBest_None_iff:
  "ringBest W x0 y0 step ring = None \<longleftrightarrow> ringWalkable W x0 y0 step ring = []"
  using ringBest_bestOf[of x0 y0 W step ring]
  by (auto simp: bestOf_def split: option.splits)

lemma ringBest_Some:
  assumes "ringBest W x0 y0 step ring = Some (bx, by, bd)"
  shows "(bx, by) \<in> set (ringWalkable W x0 y0 step ring)"
    and "\<forall>c \<in> set (ringWalkable W x0 y0 step ring). dist2 x0 y0 bx by \<le> dist2 x0 y0 (fst c) (snd c)"
  using ringBest_bestOf[of x0 y0 W step ring] assms
  by (auto simp: bestOf_def)

lemma ringWalkable_sound:
  "c \<in> set (ringWalkable W x0 y0 step ring) \<Longrightarrow>
     W (fst c) (snd c) \<and> 0 \<le> fst c \<and> fst c \<le> 1 \<and> 0 \<le> snd c \<and> snd c \<le> 1"
  by (auto simp: ringWalkable_def clampPoint_def clampRange_unit)

lemma spiralLoop_char:
  "(case spiralLoop W x0 y0 step m k of
      None \<Rightarrow> (\<forall>r\<in>{k..m}. ringWalkable W x0 y0 step r = [])
    | Some p \<Rightarrow> (\<exists>r\<in>{k..m}. (\<forall>r'\<in>{k..<r}. ringWalkable W x0 y0 step r' = []) \<and>
          p \<in> set (ringWalkable W x0 y0 step r) \<and>
          (\<forall>c\<in>set (ringWalkable W x0 y0 step r).
              dist2 x0 y0 (fst p) (snd p) \<le> dist2 x0 y0 (fst c) (snd c))))"
proof (induction W x0 y0 step m k rule: spiralLoop.induct)
  case (1 W x0 y0 step m k)
  show ?case
  proof (cases "k \<le> m")
    case False
    then show ?thesis by (simp add: spiralLoop.simps)
  next
    case True
    show ?thesis
    proof (cases "ringBest W x0 y0 step k")
      case None
      then have empty: "ringWalkable W x0 y0 step k = []" by (simp add: ringBest_None_iff)
      have eq: "spiralLoop W x0 y0 step m k = spiralLoop W x0 y0 step m (k + 1)"
        using True None by (simp add: spiralLoop.simps[of W x0 y0 step m k])
      have IH: "(case spiralLoop W x0 y0 step m (k + 1) of
          None \<Rightarrow> (\<forall>r\<in>{k + 1..m}. ringWalkable W x0 y0 step r = [])
        | Some p \<Rightarrow> (\<exists>r\<in>{k + 1..m}. (\<forall>r'\<in>{k + 1..<r}. ringWalkable W x0 y0 step r' = []) \<and>
          p \<in> set (ringWalkable W x0 y0 step r) \<and>
          (\<forall>c\<in>set (ringWalkable W x0 y0 step r).
              dist2 x0 y0 (fst p) (snd p) \<le> dist2 x0 y0 (fst c) (snd c))))"
        using "1.IH"[OF True None] .
      show ?thesis
      proof (cases "spiralLoop W x0 y0 step m (k + 1)")
        case N: None
        with IH have "\<forall>r\<in>{k + 1..m}. ringWalkable W x0 y0 step r = []" by simp
        with empty have "\<forall>r\<in>{k..m}. ringWalkable W x0 y0 step r = []"
          by (metis atLeastAtMost_iff add1_zle_eq order_le_less)
        then show ?thesis using eq N by simp
      next
        case (Some p)
        with IH obtain r where r: "r \<in> {k + 1..m}"
          "\<forall>r'\<in>{k + 1..<r}. ringWalkable W x0 y0 step r' = []"
          "p \<in> set (ringWalkable W x0 y0 step r)"
          "\<forall>c\<in>set (ringWalkable W x0 y0 step r).
              dist2 x0 y0 (fst p) (snd p) \<le> dist2 x0 y0 (fst c) (snd c)"
          by auto
        have "\<forall>r'\<in>{k..<r}. ringWalkable W x0 y0 step r' = []"
        proof
          fix r' assume "r' \<in> {k..<r}"
          then have "r' = k \<or> r' \<in> {k + 1..<r}" by auto
          then show "ringWalkable W x0 y0 step r' = []" using empty r(2) by auto
        qed
        moreover have "r \<in> {k..m}" using r(1) by auto
        ultimately show ?thesis using eq Some r(3,4) by auto
      qed
    next
      case (Some t)
      obtain bx "by" bd where t: "t = (bx, by, bd)" by (cases t) auto
      have eq: "spiralLoop W x0 y0 step m k = Some (bx, by)"
        using True Some t by (simp add: spiralLoop.simps[of W x0 y0 step m k])
      from ringBest_Some[OF Some[unfolded t]]
      have "(bx, by) \<in> set (ringWalkable W x0 y0 step k)"
        "\<forall>c\<in>set (ringWalkable W x0 y0 step k). dist2 x0 y0 bx by \<le> dist2 x0 y0 (fst c) (snd c)"
        by auto
      moreover have "k \<in> {k..m}" using True by simp
      moreover have "\<forall>r'\<in>{k..<k}. ringWalkable W x0 y0 step r' = []" by simp
      ultimately have "\<exists>r\<in>{k..m}. (\<forall>r'\<in>{k..<r}. ringWalkable W x0 y0 step r' = []) \<and>
          (bx, by) \<in> set (ringWalkable W x0 y0 step r) \<and>
          (\<forall>c\<in>set (ringWalkable W x0 y0 step r).
              dist2 x0 y0 bx by \<le> dist2 x0 y0 (fst c) (snd c))"
        by (intro bexI[of _ k] conjI) assumption+
      then show ?thesis unfolding eq by simp
    qed
  qed
qed

lemma spiralSnap_Some_walkable:
  assumes "spiralSnap x0 y0 W = Some p"
  shows "W (fst p) (snd p) \<and> 0 \<le> fst p \<and> fst p \<le> 1 \<and> 0 \<le> snd p \<and> snd p \<le> 1"
proof -
  from spiralLoop_char[where W=W and ?x0.0=x0 and ?y0.0=y0 and step=SPIRAL_STEP and m=SPIRAL_MAX_RINGS and k=1] assms
  obtain r where "p \<in> set (ringWalkable W x0 y0 SPIRAL_STEP r)"
    by (auto simp: spiralSnap_def)
  then show ?thesis by (rule ringWalkable_sound)
qed

text \<open>
  C6. For every starting point and every walkability predicate, \<^verbatim>\<open>spiralSnap\<close> is a
  total function that looks at rings 1 to 60 only. It returns \<open>None\<close> exactly when no
  ring among them has a clamped sample satisfying the predicate; otherwise it returns a
  clamped sample of the first ring that has one, that sample satisfies the predicate and
  no walkable sample of that ring is closer (by squared distance) to the start.
\<close>

theorem spiralSnap_first_ring:
  "(case spiralSnap x0 y0 W of
      None \<Rightarrow> (\<forall>r\<in>{1..60}. ringWalkable W x0 y0 (3 / 1000) r = [])
    | Some p \<Rightarrow> (\<exists>r\<in>{1..60}. (\<forall>r'\<in>{1..<r}. ringWalkable W x0 y0 (3 / 1000) r' = []) \<and>
          p \<in> set (ringWalkable W x0 y0 (3 / 1000) r) \<and> W (fst p) (snd p) \<and>
          (\<forall>c\<in>set (ringWalkable W x0 y0 (3 / 1000) r).
              dist2 x0 y0 (fst p) (snd p) \<le> dist2 x0 y0 (fst c) (snd c))))"
proof (cases "spiralSnap x0 y0 W")
  case None
  then show ?thesis
    using spiralLoop_char[where W=W and ?x0.0=x0 and ?y0.0=y0 and step=SPIRAL_STEP and m=SPIRAL_MAX_RINGS and k=1]
    by (simp add: spiralSnap_def SPIRAL_STEP_def SPIRAL_MAX_RINGS_def)
next
  case (Some p)
  then have w: "W (fst p) (snd p)" using spiralSnap_Some_walkable by blast
  show ?thesis
    using Some w spiralLoop_char[where W=W and ?x0.0=x0 and ?y0.0=y0 and step=SPIRAL_STEP and m=SPIRAL_MAX_RINGS and k=1]
    by (simp add: spiralSnap_def SPIRAL_STEP_def SPIRAL_MAX_RINGS_def)
qed

theorem spiralSnap_first_ring_witness:
  "\<exists>p. spiralSnap (499 / 1000) (1 / 2) (\<lambda>x y. 1 / 2 \<le> x) = Some p \<and> 1 / 2 \<le> fst p"
proof (cases "spiralSnap (499 / 1000) (1 / 2) (\<lambda>x y. 1 / 2 \<le> x)")
  case None
  have "(1::int) \<in> {1..60}" by simp
  moreover have "ringWalkable (\<lambda>x y. 1 / 2 \<le> x) (499 / 1000) (1 / 2) (3 / 1000) 1 \<noteq> []"
    by (simp add: ringWalkable_def ringSamples_def clampPoint_def clampRange_def upto.simps)
  ultimately show ?thesis
    using spiralSnap_first_ring[where ?x0.0="499 / 1000" and ?y0.0="1 / 2" and W="\<lambda>x y. 1 / 2 \<le> x"] None
    by (simp del: atLeastAtMost_iff)
next
  case (Some p)
  then show ?thesis
    using spiralSnap_first_ring[where ?x0.0="499 / 1000" and ?y0.0="1 / 2" and W="\<lambda>x y. 1 / 2 \<le> x"]
    by auto
qed

section \<open>Properties of the adapter\<close>

lemma fold_update_map_of:
  "map_of (fold (\<lambda>kv m. AList.update (fst kv) (snd kv) m) es m0) = map_of m0 ++ map_of (rev es)"
proof (induction es arbitrary: m0)
  case Nil
  then show ?case by simp
next
  case (Cons kv es)
  have a: "map_of (AList.update (fst kv) (snd kv) m0) = map_of m0 ++ map_of [kv]"
    by (cases kv) (simp add: update_conv' fun_eq_iff map_add_def)
  have "map_of (fold (\<lambda>kv m. AList.update (fst kv) (snd kv) m) (kv # es) m0)
      = map_of (AList.update (fst kv) (snd kv) m0) ++ map_of (rev es)"
    using Cons.IH[of "AList.update (fst kv) (snd kv) m0"] by simp
  also have "\<dots> = (map_of m0 ++ map_of [kv]) ++ map_of (rev es)" by (simp only: a)
  also have "\<dots> = map_of m0 ++ map_of (rev (kv # es))" by (simp only: rev.simps map_of_append map_add_assoc)
  finally show ?case .
qed

lemma newMap_map_of: "map_of (newMap es) = map_of (rev es)"
  by (simp add: newMap_def fold_update_map_of)

lemma newMap_SomeD: "map_of (newMap es) k = Some v \<Longrightarrow> (k, v) \<in> set es"
  using map_of_SomeD[of "rev es" k v] by (simp add: newMap_map_of)

lemma in_concat_mapD: "a \<in> set (concat (map f zs)) \<Longrightarrow> \<exists>z\<in>set zs. a \<in> set (f z)"
  by auto

lemma ZONE_CENTROIDS_unit:
  assumes "map_of (ZONE_CENTROIDS e) k = Some c"
  shows "inUnit c"
proof -
  from in_concat_mapD[OF newMap_SomeD[OF assms[unfolded ZONE_CENTROIDS_def]]]
  obtain zone where z: "(k, c) \<in> set (centroidEntries e zone)"
    by blast
  show ?thesis
  proof (cases "centroid zone")
    case None
    with z show ?thesis by (simp add: centroidEntries_def)
  next
    case (Some cc)
    with z have "c = ((case fst cc of Some v \<Rightarrow> clampRange (v / map_width (zm e)) 0 1 | None \<Rightarrow> 1 / 2),
                (case snd cc of Some v \<Rightarrow> clampRange (v / map_height (zm e)) 0 1 | None \<Rightarrow> 1 / 2))"
      by (simp add: centroidEntries_def)
    then show ?thesis
      by (cases "fst cc"; cases "snd cc") (simp_all add: inUnit_def clampRange_unit)
  qed
qed

lemma ZONE_GEOMETRY_BY_ID_D:
  assumes "map_of (ZONE_GEOMETRY_BY_ID e) zid = Some zone"
  shows "zoneId zone = zid \<and> zone \<in> set (ZONE_GEOMETRIES e)"
  using newMap_SomeD[OF assms[unfolded ZONE_GEOMETRY_BY_ID_def]] by auto

lemma zg_centroid_unit:
  assumes "map_of (ZONE_GEOMETRY_BY_ID e) zid = Some zone"
  shows "inUnit (zg_centroid zone)"
proof -
  from ZONE_GEOMETRY_BY_ID_D[OF assms] obtain z where z: "zone = zoneGeometry e z"
    by (auto simp: ZONE_GEOMETRIES_def)
  show ?thesis
  proof (cases "map_of (ZONE_CENTROIDS e) (zone_id z)")
    case None
    then show ?thesis by (simp add: z zoneGeometry_def Let_def inUnit_def)
  next
    case (Some c)
    then show ?thesis using ZONE_CENTROIDS_unit[OF Some] by (simp add: z zoneGeometry_def Let_def)
  qed
qed

lemma atPoint_xy: "nc_x (atPoint e p) = fst p \<and> nc_y (atPoint e p) = snd p"
  by (simp add: atPoint_def Let_def)

lemma clampPoint_unit: "inUnit (clampRange a 0 1, clampRange b 0 1)"
  by (simp add: inUnit_def clampRange_unit)

lemma snapCoordinatesToFloor_cases:
  "(case map_of (ZONE_GEOMETRY_BY_ID e) zid of
      Some zone \<Rightarrow>
        (let p = (nc_x (snapCoordinatesToFloor e c zid), nc_y (snapCoordinatesToFloor e c zid)) in
         inUnit p \<and> (pointInZoneWalkable e (fst p) (snd p) zone \<or> p = zg_centroid zone))
    | None \<Rightarrow> inUnit (nc_x (snapCoordinatesToFloor e c zid), nc_y (snapCoordinatesToFloor e c zid)))"
proof (cases "map_of (ZONE_GEOMETRY_BY_ID e) zid")
  case None
  show ?thesis
  proof (cases "spiralSnap (clampRange (nc_x c) 0 1) (clampRange (nc_y c) 0 1) (walkableAnywhere e)")
    case N2: None
    then show ?thesis using None
      by (simp add: snapCoordinatesToFloor_def Let_def clampPoint_unit)
  next
    case (Some s)
    from spiralSnap_Some_walkable[OF Some] have "inUnit s" by (simp add: inUnit_def)
    then show ?thesis using None Some
      by (simp add: snapCoordinatesToFloor_def Let_def clampPoint_unit atPoint_xy)
  qed
next
  case (Some zone)
  note cu = zg_centroid_unit[OF Some]
  let ?x0 = "clampRange (nc_x c) 0 1" and ?y0 = "clampRange (nc_y c) 0 1"
  show ?thesis
  proof (cases "pointInZoneWalkable e ?x0 ?y0 zone")
    case True
    then show ?thesis using Some
      by (simp add: snapCoordinatesToFloor_def Let_def clampPoint_unit)
  next
    case nw: False
    show ?thesis
    proof (cases "pointInPolygon e ?x0 ?y0 (outer zone)")
      case False
      then show ?thesis using Some nw cu
        by (simp add: snapCoordinatesToFloor_def Let_def atPoint_xy)
    next
      case True
      show ?thesis
      proof (cases "spiralSnap ?x0 ?y0 (\<lambda>px py. pointInZoneWalkable e px py zone)")
        case None
        then show ?thesis using Some nw cu True
          by (simp add: snapCoordinatesToFloor_def Let_def atPoint_xy)
      next
        case S2: (Some s)
        from spiralSnap_Some_walkable[OF S2]
        have "inUnit s" "pointInZoneWalkable e (fst s) (snd s) zone" by (simp_all add: inUnit_def)
        then show ?thesis using Some nw True S2
          by (simp add: snapCoordinatesToFloor_def Let_def atPoint_xy)
      qed
    qed
  qed
qed

lemma buildEvent_fields:
  "ev_zone_id (buildEvent e options record i d c) = resolveZoneId e record c"
  "ev_x (buildEvent e options record i d c) = nc_x (snapCoordinatesToFloor e c (resolveZoneId e record c))"
  "ev_y (buildEvent e options record i d c) = nc_y (snapCoordinatesToFloor e c (resolveZoneId e record c))"
  "ev_id (buildEvent e options record i d c) = i"
  "detected_at (buildEvent e options record i d c) = d"
  by (simp_all add: buildEvent_def Let_def)

lemma adaptRawEvent_SomeD:
  assumes "adaptRawEvent e options v = Some ev"
  shows "\<exists>i d c. identityOf v = Some i \<and> detectedAtOf e v = Some d \<and>
             extractCoordinates e v (cameraIdOf v) = Some c \<and> isObject v \<and>
             ev = buildEvent e options v i d c"
proof -
  from assms obtain r where r: "asRecord v = Some r"
    by (cases "asRecord v") (simp_all add: adaptRawEvent_def)
  then have rv: "r = v" "isObject v" by (auto simp: asRecord_def split: if_splits)
  from assms r rv obtain i where i: "identityOf v = Some i"
    by (cases "identityOf v") (simp_all add: adaptRawEvent_def)
  from assms r rv i have ne: "i \<noteq> []"
    by (auto simp: adaptRawEvent_def)
  from assms r rv i ne obtain d where d: "detectedAtOf e v = Some d"
    by (cases "detectedAtOf e v") (simp_all add: adaptRawEvent_def)
  from assms r rv i ne d obtain c where c: "extractCoordinates e v (cameraIdOf v) = Some c"
    by (cases "extractCoordinates e v (cameraIdOf v)") (simp_all add: adaptRawEvent_def)
  from assms r rv i ne d c have "ev = buildEvent e options v i d c"
    by (simp add: adaptRawEvent_def)
  with i d c rv show ?thesis by blast
qed

text \<open>
  C1. For a store map with nonzero pixel dimensions, every event that \<^verbatim>\<open>adaptRawEvent\<close>
  returns has \<open>x\<close> and \<open>y\<close> in the closed interval from 0 to 1, whichever method of the
  cascade resolved the point and whichever branch of the snap produced the result.
\<close>

theorem adaptRawEvent_xy_in_unit:
  assumes "map_width (zm e) \<noteq> 0" and "map_height (zm e) \<noteq> 0"
    and "adaptRawEvent e options v = Some ev"
  shows "0 \<le> ev_x ev \<and> ev_x ev \<le> 1 \<and> 0 \<le> ev_y ev \<and> ev_y ev \<le> 1"
proof -
  from adaptRawEvent_SomeD[OF assms(3)] obtain i d c where
    ev: "ev = buildEvent e options v i d c" by blast
  have "inUnit (nc_x (snapCoordinatesToFloor e c (resolveZoneId e v c)),
                nc_y (snapCoordinatesToFloor e c (resolveZoneId e v c)))"
    using snapCoordinatesToFloor_cases[where e=e and zid="resolveZoneId e v c" and c=c]
    by (cases "map_of (ZONE_GEOMETRY_BY_ID e) (resolveZoneId e v c)") (simp_all add: Let_def)
  then show ?thesis by (simp add: ev buildEvent_fields inUnit_def)
qed

theorem adaptRawEvent_xy_in_unit_witness:
  "\<exists>ev. adaptRawEvent demoEnv demoOptions scenarioRecord = Some ev \<and>
        0 \<le> ev_x ev \<and> ev_x ev \<le> 1 \<and> 0 \<le> ev_y ev \<and> ev_y ev \<le> 1"
proof -
  have "adaptRawEvent demoEnv demoOptions scenarioRecord \<noteq> None" by code_simp
  then obtain ev where ev: "adaptRawEvent demoEnv demoOptions scenarioRecord = Some ev" by blast
  have w: "map_width (zm demoEnv) \<noteq> 0" "map_height (zm demoEnv) \<noteq> 0"
    by (simp_all add: demoEnv_def demoZoneMap_def)
  from adaptRawEvent_xy_in_unit[OF w ev] ev show ?thesis by blast
qed

text \<open>
  C2. For every event that \<^verbatim>\<open>adaptRawEvent\<close> returns and whose zone id names a zone of
  the loaded zone map, the final point is walkable with respect to that zone (inside the
  outer polygon, outside every hole polygon, outside every padded hole bounding box,
  inside the outer bounds shrunk by the edge padding) or it is exactly the centroid of
  that zone.
\<close>

theorem adaptRawEvent_walkable_or_centroid:
  assumes "adaptRawEvent e options v = Some ev"
    and "map_of (ZONE_GEOMETRY_BY_ID e) (ev_zone_id ev) = Some zone"
  shows "(pointInPolygon e (ev_x ev) (ev_y ev) (outer zone) \<and>
          (\<forall>hole \<in> set (zg_holes zone). \<not> pointInPolygon e (ev_x ev) (ev_y ev) hole) \<and>
          (\<forall>b \<in> set (holeBounds zone). \<not> pointInBounds (ev_x ev) (ev_y ev) b HOLE_PADDING_NORM) \<and>
          pointInBounds (ev_x ev) (ev_y ev) (outerBounds zone) (- ZONE_EDGE_PADDING_NORM))
         \<or> (ev_x ev, ev_y ev) = zg_centroid zone"
proof -
  from adaptRawEvent_SomeD[OF assms(1)] obtain i d c where
    ev: "ev = buildEvent e options v i d c" by blast
  have z: "map_of (ZONE_GEOMETRY_BY_ID e) (resolveZoneId e v c) = Some zone"
    using assms(2) by (simp add: ev buildEvent_fields)
  have "pointInZoneWalkable e (ev_x ev) (ev_y ev) zone \<or> (ev_x ev, ev_y ev) = zg_centroid zone"
    using snapCoordinatesToFloor_cases[where e=e and zid="resolveZoneId e v c" and c=c] z
    by (simp add: Let_def ev buildEvent_fields)
  then show ?thesis
    by (auto simp: pointInZoneWalkable_def list_ex_iff ZONE_EDGE_PADDING_NORM_def split: if_splits)
qed

theorem adaptRawEvent_walkable_or_centroid_witness:
  "\<exists>ev zone. adaptRawEvent demoEnv demoOptions shelfRecord = Some ev \<and>
      map_of (ZONE_GEOMETRY_BY_ID demoEnv) (ev_zone_id ev) = Some zone \<and>
      (ev_x ev, ev_y ev) \<noteq> zg_centroid zone \<and> ev_x ev \<noteq> 178 / 1000 \<and>
      pointInPolygon demoEnv (ev_x ev) (ev_y ev) (outer zone) \<and>
      \<not> pointInBounds (ev_x ev) (ev_y ev) (hd (holeBounds zone)) HOLE_PADDING_NORM"
proof -
  have a: "map_option (\<lambda>ev. (ev_zone_id ev, ev_x ev, ev_y ev)) (adaptRawEvent demoEnv demoOptions shelfRecord)
      = Some (''zone-a'', 175 / 1000, 1 / 2)" by code_simp
  then obtain ev where ev: "adaptRawEvent demoEnv demoOptions shelfRecord = Some ev"
    "ev_zone_id ev = ''zone-a''" "ev_x ev = 175 / 1000" "ev_y ev = 1 / 2" by auto
  have "map_of (ZONE_GEOMETRY_BY_ID demoEnv) ''zone-a'' = Some (zoneGeometry demoEnv demoZone)"
    by code_simp
  then have z: "map_of (ZONE_GEOMETRY_BY_ID demoEnv) (ev_zone_id ev) = Some (zoneGeometry demoEnv demoZone)"
    by (simp add: ev)
  have c: "zg_centroid (zoneGeometry demoEnv demoZone) = (1 / 4, 1 / 5)" by code_simp
  have hb: "holeBounds (zoneGeometry demoEnv demoZone) =
      [Some \<lparr>minX = 1 / 5, maxX = 3 / 10, minY = 2 / 5, maxY = 3 / 5\<rparr>]" by code_simp
  have nc: "(ev_x ev, ev_y ev) \<noteq> zg_centroid (zoneGeometry demoEnv demoZone)"
    by (simp add: ev c)
  have nx: "ev_x ev \<noteq> 178 / 1000" by (simp add: ev)
  from adaptRawEvent_walkable_or_centroid[OF ev(1) z] nc
  have W: "pointInPolygon demoEnv (ev_x ev) (ev_y ev) (outer (zoneGeometry demoEnv demoZone))"
    "\<forall>b \<in> set (holeBounds (zoneGeometry demoEnv demoZone)).
        \<not> pointInBounds (ev_x ev) (ev_y ev) b HOLE_PADDING_NORM"
    by blast+
  from W(2) have "\<not> pointInBounds (ev_x ev) (ev_y ev) (hd (holeBounds (zoneGeometry demoEnv demoZone)))
      HOLE_PADDING_NORM"
    by (simp add: hb)
  with ev(1) z nc nx W(1) show ?thesis by blast
qed

lemma showNat_nonempty: "showNat n \<noteq> []"
  by (subst showNat.simps) simp

lemma parseId_nonempty: "parseId v = Some s \<Longrightarrow> s \<noteq> []"
  by (cases v) (auto simp: parseId_def showInt_def showNat_nonempty split: if_splits)

lemma identityOf_nonempty: "identityOf v = Some i \<Longrightarrow> i \<noteq> []"
  by (auto simp: identityOf_def explicitIdOf_def dest: parseId_nonempty split: option.splits if_splits)

lemma identityOf_None_iff:
  "identityOf v = None \<longleftrightarrow> explicitIdOf v = None \<and> trackIdOf v = None"
  by (auto simp: identityOf_def trackIdOf_def dest: parseId_nonempty split: option.splits if_splits)

lemma extractCoordinates_None_iff:
  "extractCoordinates e v cam = None \<longleftrightarrow>
     explicitPair e v = None \<and> extractWorldCoordinates e v = None \<and>
     extractBBoxCoordinates e v cam False = None \<and> extractBBoxCoordinates e v cam True = None \<and>
     arrayPair e v = None \<and> zoneCentroidPoint e v = None"
  by (simp add: extractCoordinates_def split: option.splits)

text \<open>
  C3, as the code has it. \<^verbatim>\<open>adaptRawEvent\<close> returns \<^verbatim>\<open>null\<close> if and only if the input is
  not an object; or neither the first non-null candidate among the id fields nor the
  first non-null candidate among the track id fields parses to an identifier; or the
  first non-null candidate among the timestamp fields does not parse to a valid
  timestamp; or each of the six methods of the coordinate cascade fails. Later
  candidates of a field list are not tried once an earlier one is present.
\<close>

theorem adaptRawEvent_null_first_candidate:
  "adaptRawEvent e options v = None \<longleftrightarrow>
     (\<not> isObject v \<or>
      (explicitIdOf v = None \<and> trackIdOf v = None) \<or>
      parseEpochMs e (pickValue v [''detected_at'', ''detectedAt'', ''ts'', ''timestamp'',
                                   ''created_at'', ''createdAt'', ''time'']) = None \<or>
      (explicitPair e v = None \<and> extractWorldCoordinates e v = None \<and>
       extractBBoxCoordinates e v (cameraIdOf v) False = None \<and>
       extractBBoxCoordinates e v (cameraIdOf v) True = None \<and>
       arrayPair e v = None \<and> zoneCentroidPoint e v = None))"
proof (cases "isObject v")
  case False
  then show ?thesis by (simp add: adaptRawEvent_def asRecord_def)
next
  case obj: True
  show ?thesis
  proof (cases "identityOf v")
    case None
    then show ?thesis using obj identityOf_None_iff[of v]
      by (simp add: adaptRawEvent_def asRecord_def)
  next
    case (Some i)
    then have ne: "i \<noteq> []" by (rule identityOf_nonempty)
    from Some have idn: "\<not> (explicitIdOf v = None \<and> trackIdOf v = None)"
      using identityOf_None_iff[of v] by simp
    show ?thesis
    proof (cases "detectedAtOf e v")
      case None
      then show ?thesis using obj Some ne
        by (simp add: adaptRawEvent_def asRecord_def detectedAtOf_def)
    next
      case d: (Some d)
      then have dn: "parseEpochMs e (pickValue v [''detected_at'', ''detectedAt'', ''ts'', ''timestamp'',
                                   ''created_at'', ''createdAt'', ''time'']) \<noteq> None"
        by (simp add: detectedAtOf_def)
      show ?thesis
      proof (cases "extractCoordinates e v (cameraIdOf v)")
        case None
        then show ?thesis using obj Some ne d extractCoordinates_None_iff[of e v "cameraIdOf v"]
          by (simp add: adaptRawEvent_def asRecord_def)
      next
        case c: (Some c)
        then have "\<not> (explicitPair e v = None \<and> extractWorldCoordinates e v = None \<and>
          extractBBoxCoordinates e v (cameraIdOf v) False = None \<and>
          extractBBoxCoordinates e v (cameraIdOf v) True = None \<and>
          arrayPair e v = None \<and> zoneCentroidPoint e v = None)"
          using extractCoordinates_None_iff[of e v "cameraIdOf v"] by simp
        moreover have "adaptRawEvent e options v \<noteq> None"
          using obj Some ne d c by (simp add: adaptRawEvent_def asRecord_def)
        ultimately show ?thesis using obj idn dn by blast
      qed
    qed
  qed
qed

theorem adaptRawEvent_null_first_candidate_witness:
  "adaptRawEvent demoEnv demoOptions staleClockRecord = None \<and>
   parseEpochMs demoEnv (pickValue staleClockRecord [''detected_at'', ''detectedAt'', ''ts'', ''timestamp'',
                                   ''created_at'', ''createdAt'', ''time'']) = None"
proof -
  have "parseEpochMs demoEnv (pickValue staleClockRecord [''detected_at'', ''detectedAt'', ''ts'', ''timestamp'',
                                   ''created_at'', ''createdAt'', ''time'']) = None"
    by code_simp
  then show ?thesis
    using adaptRawEvent_null_first_candidate[of demoEnv demoOptions staleClockRecord] by blast
qed

text \<open>
  C3 as stated fails: this record is an object with an explicit id, a valid timestamp
  under the candidate field \<open>ts\<close> and an explicit coordinate pair, and it is rejected,
  because the earlier candidate \<open>detected_at\<close> is present and invalid.
\<close>

theorem adaptRawEvent_null_counterexample:
  "adaptRawEvent demoEnv demoOptions staleClockRecord = None \<and>
   isObject staleClockRecord \<and>
   explicitIdOf staleClockRecord = Some ''e1'' \<and>
   parseEpochMs demoEnv (readPath staleClockRecord ''ts'') = Some 1700000000000 \<and>
   explicitPair demoEnv staleClockRecord = Some (plainPoint (1 / 2) (1 / 2))"
  by code_simp




section \<open>Properties of the feed\<close>

lemma dedupeStep_map_of:
  "map_of (dedupeStep ev m) =
     (case map_of m (ev_id ev) of
        None \<Rightarrow> (map_of m)(ev_id ev \<mapsto> ev)
      | Some existing \<Rightarrow> if newer ev existing then (map_of m)(ev_id ev \<mapsto> ev) else map_of m)"
  by (auto simp: dedupeStep_def newer_def update_conv' split: option.splits)

lemma dedupeStep_distinct: "distinct (map fst m) \<Longrightarrow> distinct (map fst (dedupeStep ev m))"
  by (simp add: dedupeStep_def distinct_update split: option.splits)

lemma newer_irrefl: "\<not> newer a a"
  by (simp add: newer_def)

lemma newer_chain: "\<not> newer n x \<Longrightarrow> newer ev x \<Longrightarrow> \<not> newer n ev"
  by (auto simp: newer_def)

lemma dedupeStep_inv:
  assumes "dedupeInv m seen"
  shows "dedupeInv (dedupeStep ev m) (seen @ [ev])"
proof -
  from assms have d: "distinct (map fst m)" and dm: "dom (map_of m) = ev_id ` set seen"
    and vals: "\<And>k v. map_of m k = Some v \<Longrightarrow>
         ev_id v = k \<and> v \<in> set seen \<and> (\<forall>n \<in> set seen. ev_id n = k \<longrightarrow> \<not> newer n v)"
    by (auto simp: dedupeInv_def)
  show ?thesis
  proof (cases "map_of m (ev_id ev)")
    case None
    then have fresh: "\<And>n. n \<in> set seen \<Longrightarrow> ev_id n \<noteq> ev_id ev"
      using dm by (metis domIff imageI)
    have mo: "map_of (dedupeStep ev m) = (map_of m)(ev_id ev \<mapsto> ev)"
      by (simp add: dedupeStep_map_of None)
    show ?thesis
      unfolding dedupeInv_def mo
      using dedupeStep_distinct[OF d, of ev] dm vals fresh
      by (auto simp: newer_irrefl split: if_splits)
  next
    case (Some existing)
    note ex = vals[OF Some]
    have indom: "ev_id ev \<in> ev_id ` set seen" using Some dm by blast
    show ?thesis
    proof (cases "newer ev existing")
      case True
      have mo: "map_of (dedupeStep ev m) = (map_of m)(ev_id ev \<mapsto> ev)"
        by (simp add: dedupeStep_map_of Some True)
      have "\<And>n. n \<in> set seen \<Longrightarrow> ev_id n = ev_id ev \<Longrightarrow> \<not> newer n ev"
        using ex True newer_chain by blast
      then show ?thesis
        unfolding dedupeInv_def mo
        using dedupeStep_distinct[OF d, of ev] dm vals indom
        by (auto simp: newer_irrefl split: if_splits)
    next
      case False
      have mo: "map_of (dedupeStep ev m) = map_of m"
        by (simp add: dedupeStep_map_of Some False)
      have "\<And>k v. map_of m k = Some v \<Longrightarrow> ev_id ev = k \<Longrightarrow> \<not> newer ev v"
        using Some False by auto
      then show ?thesis
        unfolding dedupeInv_def mo
        using dedupeStep_distinct[OF d, of ev] dm vals indom
        by auto
    qed
  qed
qed

lemma fold_dedupeStep_inv:
  "dedupeInv m seen \<Longrightarrow> dedupeInv (fold dedupeStep ns m) (seen @ ns)"
proof (induction ns arbitrary: m seen)
  case Nil
  then show ?case by simp
next
  case (Cons n ns)
  from Cons.IH[OF dedupeStep_inv[OF Cons.prems, of n]] show ?case by simp
qed

lemma dedupe_inv: "dedupeInv (fold dedupeStep ns []) ns"
  using fold_dedupeStep_inv[of "[]" "[]" ns] by (simp add: dedupeInv_def)

lemma dedupeInv_values:
  assumes "dedupeInv m seen"
  shows "set (map snd m) \<subseteq> set seen"
    and "ev_id ` set (map snd m) = ev_id ` set seen"
    and "distinct (map ev_id (map snd m))"
    and "\<forall>kept \<in> set (map snd m). \<forall>n \<in> set seen. ev_id n = ev_id kept \<longrightarrow> \<not> newer n kept"
proof -
  from assms have d: "distinct (map fst m)" and dm: "dom (map_of m) = ev_id ` set seen"
    and vals: "\<And>k v. map_of m k = Some v \<Longrightarrow>
         ev_id v = k \<and> v \<in> set seen \<and> (\<forall>n \<in> set seen. ev_id n = k \<longrightarrow> \<not> newer n v)"
    by (auto simp: dedupeInv_def)
  have mem: "\<And>k v. (k, v) \<in> set m \<Longrightarrow> map_of m k = Some v"
    using d by simp
  have pair: "\<And>k v. (k, v) \<in> set m \<Longrightarrow>
         ev_id v = k \<and> v \<in> set seen \<and> (\<forall>n \<in> set seen. ev_id n = k \<longrightarrow> \<not> newer n v)"
    using vals[OF mem] .
  have keys: "map ev_id (map snd m) = map fst m"
    using pair by (auto simp: map_eq_conv)
  show "set (map snd m) \<subseteq> set seen" using pair by auto
  show "distinct (map ev_id (map snd m))" by (simp only: keys d)
  have "ev_id ` set (map snd m) = set (map fst m)" using keys by (metis set_map)
  also have "\<dots> = dom (map_of m)" by (simp add: dom_map_of_conv_image_fst)
  finally show "ev_id ` set (map snd m) = ev_id ` set seen" using dm by simp
  show "\<forall>kept \<in> set (map snd m). \<forall>n \<in> set seen. ev_id n = ev_id kept \<longrightarrow> \<not> newer n kept"
    using pair by fastforce
qed

lemma set_insertBy: "set (insertBy cmp a xs) = insert a (set xs)"
  by (induction xs) auto

lemma set_sortBy: "set (sortBy cmp xs) = set xs"
  by (induction xs) (simp_all add: sortBy_def set_insertBy)

lemma distinct_map_insertBy:
  "distinct (map f (insertBy cmp a xs)) \<longleftrightarrow> f a \<notin> f ` set xs \<and> distinct (map f xs)"
  by (induction xs) (auto simp: set_insertBy)

lemma distinct_map_sortBy: "distinct (map f (sortBy cmp xs)) \<longleftrightarrow> distinct (map f xs)"
  by (induction xs) (simp_all add: sortBy_def distinct_map_insertBy set_sortBy[unfolded sortBy_def])

lemma sorted_insertBy:
  assumes total: "\<And>a b. cmp a b \<le> 0 \<or> cmp b a \<le> 0"
    and trans: "\<And>a b c. cmp a b \<le> 0 \<Longrightarrow> cmp b c \<le> 0 \<Longrightarrow> cmp a c \<le> 0"
    and "sorted_wrt (\<lambda>a b. cmp a b \<le> 0) xs"
  shows "sorted_wrt (\<lambda>a b. cmp a b \<le> 0) (insertBy cmp a xs)"
  using assms(3)
proof (induction xs)
  case Nil
  then show ?case by simp
next
  case (Cons b bs)
  show ?case
  proof (cases "cmp a b \<le> 0")
    case True
    then have "\<forall>c \<in> set bs. cmp a c \<le> 0" using Cons.prems trans by auto
    then show ?thesis using True Cons.prems by simp
  next
    case False
    then have "cmp b a \<le> 0" using total by blast
    then show ?thesis using False Cons by (auto simp: set_insertBy)
  qed
qed

lemma sorted_sortBy:
  assumes total: "\<And>a b. cmp a b \<le> 0 \<or> cmp b a \<le> 0"
    and trans: "\<And>a b c. cmp a b \<le> 0 \<Longrightarrow> cmp b c \<le> 0 \<Longrightarrow> cmp a c \<le> 0"
  shows "sorted_wrt (\<lambda>a b. cmp a b \<le> 0) (sortBy cmp xs)"
proof (induction xs)
  case Nil
  then show ?case by (simp add: sortBy_def)
next
  case (Cons a xs)
  have "sortBy cmp (a # xs) = insertBy cmp a (sortBy cmp xs)" by (simp add: sortBy_def)
  then show ?case using sorted_insertBy[where cmp=cmp and a=a and xs="sortBy cmp xs", OF total trans Cons.IH] by simp
qed

lemma compareEvents_le: "compareEvents e a b \<le> 0 \<longleftrightarrow> newestFirst e a b"
  by (auto simp: compareEvents_def newestFirst_def)

lemma safeMaxEvents_range: "1 \<le> safeMaxEvents options \<and> safeMaxEvents options \<le> 1000"
proof -
  let ?v = "max 1 (min 1000 (if maxEvents options = 0 then 1 else maxEvents options))"
  have "1 \<le> ?v" "?v \<le> 1000" by auto
  then have "1 \<le> \<lfloor>?v\<rfloor>" "\<lfloor>?v\<rfloor> \<le> 1000" by linarith+
  then show ?thesis unfolding safeMaxEvents_def by linarith
qed

lemma codeUnitCompare_total: "codeUnitCompare a b \<le> 0 \<or> codeUnitCompare b a \<le> 0"
  by (induction a b rule: codeUnitCompare.induct) auto

lemma codeUnitCompare_trans:
  "codeUnitCompare a b \<le> 0 \<Longrightarrow> codeUnitCompare b c \<le> 0 \<Longrightarrow> codeUnitCompare a c \<le> 0"
proof (induction a arbitrary: b c)
  case Nil
  then show ?case by (cases c) auto
next
  case (Cons x xs)
  then obtain y ys where b: "b = y # ys" by (cases b) auto
  with Cons.prems obtain z zs where c: "c = z # zs" by (cases c) auto
  show ?case using Cons.prems Cons.IH[of ys zs] unfolding b c
    by (auto split: if_splits)
qed

lemma safeMaxEvents_clamp:
  "safeMaxEvents options = nat \<lfloor>max 1 (min 1000 (maxEvents options))\<rfloor>"
  by (simp add: safeMaxEvents_def)

lemma compareEvents_preorder:
  assumes total: "\<forall>a b. localeCompare e a b \<le> 0 \<or> localeCompare e b a \<le> 0"
    and trans: "\<forall>a b c. localeCompare e a b \<le> 0 \<longrightarrow> localeCompare e b c \<le> 0 \<longrightarrow>
                  localeCompare e a c \<le> 0"
  shows "compareEvents e a b \<le> 0 \<or> compareEvents e b a \<le> 0"
    and "compareEvents e a b \<le> 0 \<Longrightarrow> compareEvents e b c \<le> 0 \<Longrightarrow> compareEvents e a c \<le> 0"
proof -
  have "localeCompare e (ev_id a) (ev_id b) \<le> 0 \<or> localeCompare e (ev_id b) (ev_id a) \<le> 0"
    using total by blast
  then have "newestFirst e a b \<or> newestFirst e b a"
    unfolding newestFirst_def by linarith
  then show "compareEvents e a b \<le> 0 \<or> compareEvents e b a \<le> 0"
    by (simp add: compareEvents_le)
next
  assume ab: "compareEvents e a b \<le> 0" and bc: "compareEvents e b c \<le> 0"
  have l: "localeCompare e (ev_id a) (ev_id b) \<le> 0 \<Longrightarrow> localeCompare e (ev_id b) (ev_id c) \<le> 0
      \<Longrightarrow> localeCompare e (ev_id a) (ev_id c) \<le> 0"
    using trans by blast
  from ab bc have "newestFirst e a b" "newestFirst e b c" by (simp_all add: compareEvents_le)
  then have "newestFirst e a c"
    unfolding newestFirst_def using l by (elim disjE conjE) auto
  then show "compareEvents e a c \<le> 0" by (simp add: compareEvents_le)
qed

text \<open>
  C4. For every input array and options, \<^verbatim>\<open>normalizeEventFeed\<close> returns the first
  \<open>k\<close> elements of a list \<open>full\<close>, where \<open>k\<close> is \<open>maxEvents\<close> clamped to the range
  from 1 to 1000 (and rounded down, as \<^verbatim>\<open>slice\<close> does), and \<open>full\<close> consists of
  normalised input records only (records that normalise to \<^verbatim>\<open>null\<close> are dropped), has
  every id of the normalised records exactly once, keeps for each id an event than which
  no normalised record of that id is strictly newer, and is sorted by detection time
  descending, then ingestion time descending, then by the comparison of the ids. The
  host's \<^verbatim>\<open>localeCompare\<close> is taken to be a total preorder.
\<close>

theorem normalizeEventFeed_contract:
  assumes total: "\<forall>a b. localeCompare e a b \<le> 0 \<or> localeCompare e b a \<le> 0"
    and trans: "\<forall>a b c. localeCompare e a b \<le> 0 \<longrightarrow> localeCompare e b c \<le> 0 \<longrightarrow>
                  localeCompare e a c \<le> 0"
  shows "\<exists>full.
      normalizeEventFeed e (JArr items) options
        = take (nat \<lfloor>max 1 (min 1000 (maxEvents options))\<rfloor>) full \<and>
      set full \<subseteq> set (List.map_filter (adaptRawEvent e options) items) \<and>
      ev_id ` set full = ev_id ` set (List.map_filter (adaptRawEvent e options) items) \<and>
      distinct (map ev_id full) \<and>
      (\<forall>kept \<in> set full. \<forall>n \<in> set (List.map_filter (adaptRawEvent e options) items).
          ev_id n = ev_id kept \<longrightarrow> \<not> newer n kept) \<and>
      sorted_wrt (newestFirst e) full"
proof -
  let ?N = "List.map_filter (adaptRawEvent e options) items"
  let ?D = "map snd (fold dedupeStep ?N [])"
  let ?full = "sortBy (compareEvents e) ?D"
  note dv = dedupeInv_values[OF dedupe_inv[of ?N]]
  note po = compareEvents_preorder[OF total trans]
  have s: "sorted_wrt (newestFirst e) ?full"
    using sorted_sortBy[where cmp="compareEvents e" and xs="?D", OF po(1) po(2)]
    by (simp add: compareEvents_le)
  have "normalizeEventFeed e (JArr items) options
      = take (nat \<lfloor>max 1 (min 1000 (maxEvents options))\<rfloor>) ?full"
    by (simp add: normalizeEventFeed_def normalizedOf_def Let_def safeMaxEvents_clamp)
  moreover have "set ?full \<subseteq> set ?N" using dv(1) by (simp add: set_sortBy)
  moreover have "ev_id ` set ?full = ev_id ` set ?N" using dv(2) by (simp add: set_sortBy)
  moreover have "distinct (map ev_id ?full)" using dv(3) by (simp add: distinct_map_sortBy)
  moreover have "\<forall>kept \<in> set ?full. \<forall>n \<in> set ?N. ev_id n = ev_id kept \<longrightarrow> \<not> newer n kept"
    using dv(4) by (simp add: set_sortBy)
  ultimately show ?thesis using s by blast
qed

theorem normalizeEventFeed_contract_witness:
  "map (\<lambda>ev. (ev_id ev, detected_at ev))
       (normalizeEventFeed demoEnv (JArr (labelledRecord # shelfRecord # demoFeed)) narrowOptions)
     = [(''cam1:track-7'', 1700000000200), (''e9'', 1700000000150)] \<and>
   (\<exists>full. normalizeEventFeed demoEnv (JArr (labelledRecord # shelfRecord # demoFeed)) narrowOptions
              = take 2 full \<and>
      ev_id ` set full = set [''e5'', ''e2'', ''cam1:track-7'', ''e9'', ''cam1:track-7''] \<and>
      distinct (map ev_id full) \<and> sorted_wrt (newestFirst demoEnv) full)"
proof -
  have lc: "localeCompare demoEnv = codeUnitCompare" by (simp add: demoEnv_def)
  have total: "\<forall>a b. localeCompare demoEnv a b \<le> 0 \<or> localeCompare demoEnv b a \<le> 0"
    unfolding lc using codeUnitCompare_total by blast
  have trans: "\<forall>a b c. localeCompare demoEnv a b \<le> 0 \<longrightarrow> localeCompare demoEnv b c \<le> 0 \<longrightarrow>
                  localeCompare demoEnv a c \<le> 0"
    unfolding lc using codeUnitCompare_trans by blast
  have k: "nat \<lfloor>max 1 (min 1000 (maxEvents narrowOptions))\<rfloor> = 2"
    by (simp add: narrowOptions_def)
  have ids: "map ev_id (List.map_filter (adaptRawEvent demoEnv narrowOptions)
                 (labelledRecord # shelfRecord # demoFeed))
     = [''e5'', ''e2'', ''cam1:track-7'', ''e9'', ''cam1:track-7'']"
    by code_simp
  have i: "ev_id ` set (List.map_filter (adaptRawEvent demoEnv narrowOptions)
                 (labelledRecord # shelfRecord # demoFeed))
     = set [''e5'', ''e2'', ''cam1:track-7'', ''e9'', ''cam1:track-7'']"
    unfolding set_map[symmetric] ids by (rule refl)
  have v: "map (\<lambda>ev. (ev_id ev, detected_at ev))
       (normalizeEventFeed demoEnv (JArr (labelledRecord # shelfRecord # demoFeed)) narrowOptions)
     = [(''cam1:track-7'', 1700000000200), (''e9'', 1700000000150)]"
    by code_simp
  from normalizeEventFeed_contract[where e=demoEnv and items="labelledRecord # shelfRecord # demoFeed"
        and options=narrowOptions, OF total trans]
  obtain full where f: "normalizeEventFeed demoEnv (JArr (labelledRecord # shelfRecord # demoFeed)) narrowOptions
              = take 2 full"
      "ev_id ` set full = set [''e5'', ''e2'', ''cam1:track-7'', ''e9'', ''cam1:track-7'']"
      "distinct (map ev_id full)" "sorted_wrt (newestFirst demoEnv) full"
    unfolding k i by blast
  show ?thesis
  proof (rule conjI)
    show "map (\<lambda>ev. (ev_id ev, detected_at ev))
       (normalizeEventFeed demoEnv (JArr (labelledRecord # shelfRecord # demoFeed)) narrowOptions)
     = [(''cam1:track-7'', 1700000000200), (''e9'', 1700000000150)]" by (rule v)
  next
    from f show "\<exists>full. normalizeEventFeed demoEnv (JArr (labelledRecord # shelfRecord # demoFeed)) narrowOptions
              = take 2 full \<and>
      ev_id ` set full = set [''e5'', ''e2'', ''cam1:track-7'', ''e9'', ''cam1:track-7''] \<and>
      distinct (map ev_id full) \<and> sorted_wrt (newestFirst demoEnv) full"
      by (intro exI[of _ full] conjI)
  qed
qed

section \<open>Properties of the merge\<close>

lemma fold_update_distinct:
  "distinct (map fst m0) \<Longrightarrow>
   distinct (map fst (fold (\<lambda>kv m. AList.update (fst kv) (snd kv) m) es m0))"
  by (induction es arbitrary: m0) (simp_all add: distinct_update)

lemma newMap_distinct: "distinct (map fst (newMap es))"
  by (simp add: newMap_def fold_update_distinct)

lemma spread_required:
  "ev_id (spread prev ev) = ev_id ev"
  "detected_at (spread prev ev) = detected_at ev"
  "ingested_at (spread prev ev) = ingested_at ev"
  "store_id (spread prev ev) = store_id ev"
  "latency_ms (spread prev ev) = latency_ms ev"
  "ev_type (spread prev ev) = ev_type ev"
  "ev_severity (spread prev ev) = ev_severity ev"
  "confidence (spread prev ev) = confidence ev"
  "ev_zone_id (spread prev ev) = ev_zone_id ev"
  "ev_source (spread prev ev) = ev_source ev"
  "incident_status (spread prev ev) = incident_status ev"
  "ev_x (spread prev ev) = ev_x ev"
  "ev_y (spread prev ev) = ev_y ev"
  by (simp_all add: spread_def)

lemma over_present: "n \<noteq> Absent \<Longrightarrow> over p n = n"
  by (cases n) (simp_all add: over_def)

lemma spread_allKeys: "allKeys ev \<Longrightarrow> spread prev ev = ev"
  by (simp add: spread_def allKeys_def over_present)

lemma fieldOf_present: "fieldOf v \<noteq> Absent"
  by (cases v) (simp_all add: fieldOf_def)

lemma buildEvent_allKeys: "allKeys (buildEvent e options record i d c)"
  by (simp add: allKeys_def buildEvent_def Let_def fieldOf_present)

lemma newMap_set: "(k, v) \<in> set (newMap es) \<Longrightarrow> (k, v) \<in> set es"
  using newMap_SomeD[of es k v] newMap_distinct[of es] by simp

lemma set_update_subset: "set (AList.update k v m) \<subseteq> insert (k, v) (set m)"
  by (induction m) auto

lemma length_update_le: "length (AList.update k v m) \<le> Suc (length m)"
  by (induction m) auto

lemma mergeStep_update:
  "mergeStep ev m = AList.update (ev_id ev) (the (absorb ev (map_of m (ev_id ev)))) m"
  by (cases "map_of m (ev_id ev)") (simp_all add: mergeStep_def absorb_def)

lemma absorb_id: "ev_id (the (absorb ev prev)) = ev_id ev"
  by (cases prev) (simp_all add: absorb_def spread_required)

lemma mergeStep_map_of:
  "map_of (mergeStep ev m) k = (if k = ev_id ev then absorb ev (map_of m k) else map_of m k)"
  by (simp add: mergeStep_update update_conv' absorb_def)

lemma mergeStep_keyed: "keyed m \<Longrightarrow> keyed (mergeStep ev m)"
  unfolding keyed_def mergeStep_update
  using set_update_subset[of "ev_id ev" "the (absorb ev (map_of m (ev_id ev)))" m]
  by (auto simp: distinct_update absorb_id)

lemma fold_mergeStep_keyed: "keyed m \<Longrightarrow> keyed (fold mergeStep evs m)"
  by (induction evs arbitrary: m) (simp_all add: mergeStep_keyed)

lemma fold_mergeStep_other:
  "\<forall>x \<in> set evs. ev_id x \<noteq> k \<Longrightarrow> map_of (fold mergeStep evs m) k = map_of m k"
  by (induction evs arbitrary: m) (auto simp: mergeStep_map_of)

lemma fold_mergeStep_last:
  assumes "\<forall>x \<in> set post. ev_id x \<noteq> ev_id ev"
  shows "map_of (fold mergeStep (pre @ ev # post) m) (ev_id ev)
           = absorb ev (map_of (fold mergeStep pre m) (ev_id ev))"
  using fold_mergeStep_other[OF assms] by (simp add: mergeStep_map_of)

lemma length_fold_mergeStep: "length (fold mergeStep evs m) \<le> length m + length evs"
proof (induction evs arbitrary: m)
  case Nil
  then show ?case by simp
next
  case (Cons a evs)
  have "length (mergeStep a m) \<le> Suc (length m)"
    unfolding mergeStep_update by (rule length_update_le)
  with Cons[of "mergeStep a m"] show ?case by simp
qed

lemma length_newMap: "length (newMap es) \<le> length es"
proof -
  have "\<And>m. length (fold (\<lambda>kv m. AList.update (fst kv) (snd kv) m) es m) \<le> length m + length es"
  proof (induction es)
    case Nil
    then show ?case by simp
  next
    case (Cons a es)
    have "length (AList.update (fst a) (snd a) m) \<le> Suc (length m)" by (rule length_update_le)
    with Cons[of "AList.update (fst a) (snd a) m"] show ?case by simp
  qed
  from this[of "[]"] show ?thesis by (simp add: newMap_def)
qed

lemma newMap_keyed: "keyed (newMap (map (\<lambda>x. (ev_id x, x)) existing))"
  unfolding keyed_def
proof (intro conjI ballI)
  show "distinct (map fst (newMap (map (\<lambda>x. (ev_id x, x)) existing)))" by (rule newMap_distinct)
next
  fix p assume "p \<in> set (newMap (map (\<lambda>x. (ev_id x, x)) existing))"
  then have "(fst p, snd p) \<in> set (newMap (map (\<lambda>x. (ev_id x, x)) existing))" by simp
  then have "(fst p, snd p) \<in> set (map (\<lambda>x. (ev_id x, x)) existing)" by (rule newMap_set)
  then show "ev_id (snd p) = fst p" by auto
qed

lemma length_insertBy: "length (insertBy cmp a xs) = Suc (length xs)"
  by (induction xs) simp_all

lemma length_sortBy: "length (sortBy cmp xs) = length xs"
  by (induction xs) (simp_all add: sortBy_def length_insertBy)

lemma mergeEvents_mergedMap:
  "mergeEvents e existing incoming
     = take MAX_EVENTS (sortBy (compareEvents e) (map snd (mergedMap existing incoming)))"
  by (simp add: mergeEvents_def mergedMap_def Let_def)

lemma mergedMap_last:
  assumes "\<forall>x \<in> set post. ev_id x \<noteq> ev_id ev"
  shows "\<exists>stored. map_of (mergedMap existing (pre @ ev # post)) (ev_id ev) = Some stored \<and>
           (stored = ev \<or> (\<exists>prev. stored = spread prev ev))"
  unfolding mergedMap_def fold_mergeStep_last[OF assms] absorb_def
  by (auto split: option.splits)

lemma mergedMap_values:
  assumes x: "x \<in> set (map snd (mergedMap existing incoming))"
  shows "map_of (mergedMap existing incoming) (ev_id x) = Some x"
proof -
  have k: "keyed (mergedMap existing incoming)"
    unfolding mergedMap_def by (intro fold_mergeStep_keyed newMap_keyed)
  from x obtain p where p: "p \<in> set (mergedMap existing incoming)" "x = snd p" by auto
  with k have "fst p = ev_id x" by (simp add: keyed_def)
  with p have "(ev_id x, x) \<in> set (mergedMap existing incoming)" by (metis prod.collapse)
  with k show ?thesis by (simp add: keyed_def)
qed

lemma mergedMap_length:
  "length (mergedMap existing incoming) \<le> length existing + length incoming"
  unfolding mergedMap_def
  using length_fold_mergeStep[of incoming "newMap (map (\<lambda>event. (ev_id event, event)) existing)"]
        length_newMap[of "map (\<lambda>event. (ev_id event, event)) existing"]
  by simp

lemma applyIncomingSyncBatch_merge:
  "applyIncomingSyncBatch e existing \<lparr> mode = merge, upsert = incoming, removeIds = rm \<rparr>
     = take MAX_EVENTS (sortBy (compareEvents e)
         (filter (\<lambda>event. ev_id event \<notin> set rm) (mergeEvents e existing incoming)))"
  by (cases rm) (simp_all add: applyIncomingSyncBatch_def Let_def)

text \<open>
  C7, as the code has it. When \<^verbatim>\<open>mergeEvents\<close>, or \<^verbatim>\<open>applyIncomingSyncBatch\<close> in merge
  mode, merges a batch, the last incoming event of an id always overrides what the event
  set had under that id, whatever the timestamps: every event of that id in the result
  is the incoming event itself or the spread of it over an earlier event, it has the
  detection and ingestion times of the incoming event, and it is the incoming event
  itself when that has all its keys, as every event built by \<^verbatim>\<open>adaptRawEvent\<close> has.
  The result has an event of that id when the existing and the incoming events together
  are at most 600 and, for \<^verbatim>\<open>applyIncomingSyncBatch\<close>, the id is not to be removed.
\<close>

theorem mergeEvents_incoming_overrides:
  assumes inc: "incoming = pre @ ev # post"
    and lst: "\<forall>x \<in> set post. ev_id x \<noteq> ev_id ev"
  shows "(\<forall>x. (x \<in> set (mergeEvents e existing incoming) \<or>
               x \<in> set (applyIncomingSyncBatch e existing
                           \<lparr> mode = merge, upsert = incoming, removeIds = rm \<rparr>)) \<and>
              ev_id x = ev_id ev \<longrightarrow>
            (x = ev \<or> (\<exists>prev. x = spread prev ev)) \<and>
            detected_at x = detected_at ev \<and> ingested_at x = ingested_at ev \<and>
            (allKeys ev \<longrightarrow> x = ev)) \<and>
         (length existing + length incoming \<le> MAX_EVENTS \<longrightarrow>
            (\<exists>x \<in> set (mergeEvents e existing incoming). ev_id x = ev_id ev) \<and>
            (ev_id ev \<notin> set rm \<longrightarrow>
               (\<exists>x \<in> set (applyIncomingSyncBatch e existing
                             \<lparr> mode = merge, upsert = incoming, removeIds = rm \<rparr>).
                  ev_id x = ev_id ev)))"
proof -
  let ?m = "mergedMap existing incoming"
  let ?merged = "mergeEvents e existing incoming"
  let ?applied = "applyIncomingSyncBatch e existing \<lparr> mode = merge, upsert = incoming, removeIds = rm \<rparr>"
  from mergedMap_last[OF lst, of existing pre] obtain stored
    where st: "map_of ?m (ev_id ev) = Some stored"
      and form: "stored = ev \<or> (\<exists>prev. stored = spread prev ev)"
    unfolding inc by blast
  have sub1: "set ?merged \<subseteq> set (map snd ?m)"
    unfolding mergeEvents_mergedMap using set_take_subset[of MAX_EVENTS] by (fastforce simp: set_sortBy)
  have sub2: "set ?applied \<subseteq> set ?merged"
    unfolding applyIncomingSyncBatch_merge using set_take_subset[of MAX_EVENTS]
    by (fastforce simp: set_sortBy)
  have props: "(stored = ev \<or> (\<exists>prev. stored = spread prev ev)) \<and>
      detected_at stored = detected_at ev \<and> ingested_at stored = ingested_at ev \<and>
      (allKeys ev \<longrightarrow> stored = ev)"
    using form spread_required(2,3) spread_allKeys by auto
  have first: "\<forall>x. (x \<in> set ?merged \<or> x \<in> set ?applied) \<and> ev_id x = ev_id ev \<longrightarrow>
            (x = ev \<or> (\<exists>prev. x = spread prev ev)) \<and>
            detected_at x = detected_at ev \<and> ingested_at x = ingested_at ev \<and>
            (allKeys ev \<longrightarrow> x = ev)"
  proof (intro allI impI)
    fix x assume a: "(x \<in> set ?merged \<or> x \<in> set ?applied) \<and> ev_id x = ev_id ev"
    then have "x \<in> set (map snd ?m)" using sub1 sub2 by blast
    from mergedMap_values[OF this] a st have "x = stored" by simp
    with props show "(x = ev \<or> (\<exists>prev. x = spread prev ev)) \<and>
            detected_at x = detected_at ev \<and> ingested_at x = ingested_at ev \<and>
            (allKeys ev \<longrightarrow> x = ev)" by simp
  qed
  have second: "(\<exists>x \<in> set ?merged. ev_id x = ev_id ev) \<and>
            (ev_id ev \<notin> set rm \<longrightarrow> (\<exists>x \<in> set ?applied. ev_id x = ev_id ev))"
    if small: "length existing + length incoming \<le> MAX_EVENTS"
  proof -
    have sid: "ev_id stored = ev_id ev" using form spread_required(1) by auto
    have "stored \<in> set (map snd ?m)" using map_of_SomeD[OF st] by force
    moreover have "length (sortBy (compareEvents e) (map snd ?m)) \<le> MAX_EVENTS"
      using mergedMap_length[of existing incoming] small by (simp add: length_sortBy)
    ultimately have in1: "stored \<in> set ?merged"
      unfolding mergeEvents_mergedMap by (simp add: set_sortBy)
    have "length (sortBy (compareEvents e) (filter (\<lambda>event. ev_id event \<notin> set rm) ?merged)) \<le> MAX_EVENTS"
    proof -
      have "length (filter (\<lambda>event. ev_id event \<notin> set rm) ?merged) \<le> length ?merged" by simp
      also have "\<dots> \<le> MAX_EVENTS" unfolding mergeEvents_mergedMap by simp
      finally show ?thesis by (simp add: length_sortBy)
    qed
    then have in2: "ev_id ev \<notin> set rm \<Longrightarrow> stored \<in> set ?applied"
      unfolding applyIncomingSyncBatch_merge using in1 sid by (simp add: set_sortBy)
    from in1 in2 sid show ?thesis by blast
  qed
  from first second show ?thesis by blast
qed

theorem mergeEvents_incoming_overrides_witness:
  "newer shelfEvent staleEvent \<and> newer freshEvent staleEvent \<and>
   staleEvent \<in> set (mergeEvents demoEnv [shelfEvent] [freshEvent, staleEvent, otherEvent]) \<and>
   staleEvent \<in> set (applyIncomingSyncBatch demoEnv [shelfEvent]
        \<lparr> mode = merge, upsert = [freshEvent, staleEvent, otherEvent], removeIds = [''e0''] \<rparr>) \<and>
   set (filter (\<lambda>x. ev_id x = ''e2'')
          (mergeEvents demoEnv [shelfEvent] [freshEvent, staleEvent, otherEvent])) = {staleEvent}"
proof -
  have i: "[freshEvent, staleEvent, otherEvent] = [freshEvent] @ staleEvent # [otherEvent]" by simp
  have l: "\<forall>x \<in> set [otherEvent]. ev_id x \<noteq> ev_id staleEvent"
    by (simp add: otherEvent_def staleEvent_def shelfEvent_def)
  have k: "allKeys staleEvent" by (simp add: allKeys_def staleEvent_def shelfEvent_def)
  have n: "newer shelfEvent staleEvent" "newer freshEvent staleEvent"
    by (simp_all add: newer_def freshEvent_def staleEvent_def shelfEvent_def)
  have s: "length [shelfEvent] + length [freshEvent, staleEvent, otherEvent] \<le> MAX_EVENTS"
    by (simp add: MAX_EVENTS_def)
  have r: "ev_id staleEvent \<notin> set [''e0'']" "ev_id staleEvent = ''e2''"
    by (simp_all add: staleEvent_def shelfEvent_def)
  note t = mergeEvents_incoming_overrides[OF i l, of demoEnv "[shelfEvent]" "[''e0'']"]
  from t s obtain x where x: "x \<in> set (mergeEvents demoEnv [shelfEvent] [freshEvent, staleEvent, otherEvent])"
      "ev_id x = ev_id staleEvent" by blast
  with t k have x1: "x = staleEvent" by blast
  from t s r(1) obtain y where y: "y \<in> set (applyIncomingSyncBatch demoEnv [shelfEvent]
        \<lparr> mode = merge, upsert = [freshEvent, staleEvent, otherEvent], removeIds = [''e0''] \<rparr>)"
      "ev_id y = ev_id staleEvent" by blast
  with t k have y1: "y = staleEvent" by blast
  have all: "\<forall>x \<in> set (mergeEvents demoEnv [shelfEvent] [freshEvent, staleEvent, otherEvent]).
       ev_id x = ''e2'' \<longrightarrow> x = staleEvent"
    using t k r(2) by auto
  from x x1 r(2) all
  have only: "set (filter (\<lambda>x. ev_id x = ''e2'')
          (mergeEvents demoEnv [shelfEvent] [freshEvent, staleEvent, otherEvent])) = {staleEvent}"
    by auto
  from n x x1 y y1 only show ?thesis by simp
qed

text \<open>
  C7 as stated fails: the stored event is strictly newer than the incoming one of the
  same id, and after the merge only the incoming, older event is left.
\<close>

theorem mergeEvents_newest_counterexample:
  "newer shelfEvent staleEvent \<and> ev_id staleEvent = ev_id shelfEvent \<and>
   mergeEvents demoEnv [shelfEvent] [staleEvent] = [staleEvent] \<and>
   applyIncomingSyncBatch demoEnv [shelfEvent]
      \<lparr> mode = merge, upsert = [staleEvent], removeIds = [] \<rparr> = [staleEvent] \<and>
   staleEvent \<noteq> shelfEvent"
  by (simp add: newer_def mergeEvents_def applyIncomingSyncBatch_def mergeStep_def newMap_def
        spread_def over_def sortBy_def MAX_EVENTS_def staleEvent_def shelfEvent_def Let_def)

section \<open>Properties of the projection\<close>

lemma clamp01_clampRange: "clamp01 v = clampRange v 0 1"
  by (simp add: clamp01_def clampRange_def)

lemma clamp01_idem: "clamp01 (clamp01 v) = clamp01 v"
  by (simp add: clamp01_def)

lemma tryCandidate_spiralTest:
  "tryCandidate pip zone hp ep px py = spiralTest (surfaceWalkable pip zone hp ep) px py"
  by (auto simp: fun_eq_iff tryCandidate_def spiralTest_def surfaceWalkable_def clamp01_clampRange
        Let_def not_less)

lemma candidates_bestOf:
  "bestOf px py (filter (\<lambda>c. surfaceWalkable pip zone hp ep (fst c) (snd c)) (projectionCandidates zone))
     (fold (tryCandidate pip zone hp ep px py) (zs_centroid zone # gridSamples zone) None)"
proof -
  have "bestOf px py [] None" by (simp add: bestOf_def)
  from fold_spiralTest_bestOf[OF this, of "surfaceWalkable pip zone hp ep" "zs_centroid zone # gridSamples zone"]
  show ?thesis by (simp only: tryCandidate_spiralTest projectionCandidates_def append_Nil)
qed

lemma project_point_walkable:
  assumes "surfaceWalkable pip zone hp ep (clamp01 x0) (clamp01 y0)"
  shows "projectPointToWalkable pip x0 y0 zone hp ep = (clamp01 x0, clamp01 y0)"
  using assms by (subst projectPointToWalkable.simps) (simp add: surfaceWalkable_def)

lemma project_candidate_found:
  assumes "\<not> surfaceWalkable pip zone hp ep (clamp01 x0) (clamp01 y0)"
    and "\<exists>q \<in> set (projectionCandidates zone). surfaceWalkable pip zone hp ep (fst q) (snd q)"
  shows "projectPointToWalkable pip x0 y0 zone hp ep \<in> set (projectionCandidates zone) \<and>
         surfaceWalkable pip zone hp ep (fst (projectPointToWalkable pip x0 y0 zone hp ep))
                                          (snd (projectPointToWalkable pip x0 y0 zone hp ep)) \<and>
         (\<forall>q \<in> set (projectionCandidates zone). surfaceWalkable pip zone hp ep (fst q) (snd q) \<longrightarrow>
            dist2 (clamp01 x0) (clamp01 y0) (fst (projectPointToWalkable pip x0 y0 zone hp ep))
                                             (snd (projectPointToWalkable pip x0 y0 zone hp ep))
            \<le> dist2 (clamp01 x0) (clamp01 y0) (fst q) (snd q))"
proof -
  let ?ws = "filter (\<lambda>c. surfaceWalkable pip zone hp ep (fst c) (snd c)) (projectionCandidates zone)"
  let ?b = "fold (tryCandidate pip zone hp ep (clamp01 x0) (clamp01 y0)) (zs_centroid zone # gridSamples zone) None"
  note inv = candidates_bestOf[of "clamp01 x0" "clamp01 y0" pip zone hp ep]
  from assms(2) have ne: "?ws \<noteq> []" by (auto simp: filter_empty_conv)
  with inv obtain bx "by" bd where b: "?b = Some (bx, by, bd)"
    by (cases ?b) (auto simp: bestOf_def)
  from inv b have mem: "(bx, by) \<in> set ?ws"
    and mn: "\<forall>c \<in> set ?ws. dist2 (clamp01 x0) (clamp01 y0) bx by \<le> dist2 (clamp01 x0) (clamp01 y0) (fst c) (snd c)"
    by (auto simp: bestOf_def)
  have nc: "\<not> (pip (clamp01 x0) (clamp01 y0) (zs_polygon zone) \<and>
         \<not> pointInHoleOrBufferedBounds pip (clamp01 x0) (clamp01 y0) (zs_holes zone) (zs_holeBounds zone) hp \<and>
         (ep \<le> 0 \<or> pointInBounds (clamp01 x0) (clamp01 y0) (Some (zs_bounds zone)) (- ep)))"
    using assms(1) by (simp add: surfaceWalkable_def)
  have r: "projectPointToWalkable pip x0 y0 zone hp ep = (bx, by)"
    by (subst projectPointToWalkable.simps) (simp only: nc if_False b option.case prod.case)
  show ?thesis unfolding r using mem mn by auto
qed

lemma project_nothing_found:
  assumes "\<not> surfaceWalkable pip zone hp ep (clamp01 x0) (clamp01 y0)"
    and "\<forall>q \<in> set (projectionCandidates zone). \<not> surfaceWalkable pip zone hp ep (fst q) (snd q)"
  shows "projectPointToWalkable pip x0 y0 zone hp ep =
           (if 0 < ep then projectPointToWalkable pip (clamp01 x0) (clamp01 y0) zone hp 0
            else zs_centroid zone)"
proof -
  let ?ws = "filter (\<lambda>c. surfaceWalkable pip zone hp ep (fst c) (snd c)) (projectionCandidates zone)"
  let ?b = "fold (tryCandidate pip zone hp ep (clamp01 x0) (clamp01 y0)) (zs_centroid zone # gridSamples zone) None"
  note inv = candidates_bestOf[of "clamp01 x0" "clamp01 y0" pip zone hp ep]
  from assms(2) have "?ws = []" by (auto simp: filter_empty_conv)
  with inv have b: "?b = None" by (cases ?b) (auto simp: bestOf_def)
  have nc: "\<not> (pip (clamp01 x0) (clamp01 y0) (zs_polygon zone) \<and>
         \<not> pointInHoleOrBufferedBounds pip (clamp01 x0) (clamp01 y0) (zs_holes zone) (zs_holeBounds zone) hp \<and>
         (ep \<le> 0 \<or> pointInBounds (clamp01 x0) (clamp01 y0) (Some (zs_bounds zone)) (- ep)))"
    using assms(1) by (simp add: surfaceWalkable_def)
  show ?thesis
    by (subst projectPointToWalkable.simps) (simp only: nc if_False b option.case)
qed

lemma surfaceWalkable_without_edge:
  "surfaceWalkable pip zone hp ep px py \<Longrightarrow> surfaceWalkable pip zone hp 0 px py"
  by (simp add: surfaceWalkable_def)

lemma project_last_resort:
  assumes "\<not> surfaceWalkable pip zone hp 0 (clamp01 x0) (clamp01 y0)"
    and "\<forall>q \<in> set (projectionCandidates zone). \<not> surfaceWalkable pip zone hp 0 (fst q) (snd q)"
  shows "projectPointToWalkable pip x0 y0 zone hp ep = zs_centroid zone"
proof -
  have a: "\<not> surfaceWalkable pip zone hp ep (clamp01 x0) (clamp01 y0)"
    using assms(1) surfaceWalkable_without_edge by blast
  have b: "\<forall>q \<in> set (projectionCandidates zone). \<not> surfaceWalkable pip zone hp ep (fst q) (snd q)"
    using assms(2) surfaceWalkable_without_edge by blast
  have z: "projectPointToWalkable pip (clamp01 x0) (clamp01 y0) zone hp 0 = zs_centroid zone"
    using project_nothing_found[of pip zone hp 0 "clamp01 x0" "clamp01 y0"] assms
    by (simp add: clamp01_idem)
  show ?thesis using project_nothing_found[OF a b] z by simp
qed

lemma clampPoint_clamp01: "clampPoint p = (clamp01 (fst p), clamp01 (snd p))"
  by (simp add: clampPoint_def clamp01_clampRange)

lemma in_grid:
  "p \<in> set (concat (map (\<lambda>y. map (\<lambda>x. f x y) xs) ys)) \<longleftrightarrow> (\<exists>x \<in> set xs. \<exists>y \<in> set ys. p = f x y)"
  by auto

lemma gridSamples_iff:
  "p \<in> set (gridSamples zone) \<longleftrightarrow>
     (\<exists>xi \<in> {0 ..< 24 :: nat}. \<exists>yi \<in> {0 ..< 24 :: nat}.
        p = (minX (zs_bounds zone)
               + ((of_nat xi + 1 / 2) / 24) * (maxX (zs_bounds zone) - minX (zs_bounds zone)),
             minY (zs_bounds zone)
               + ((of_nat yi + 1 / 2) / 24) * (maxY (zs_bounds zone) - minY (zs_bounds zone))))"
  unfolding gridSamples_def ZONE_SAMPLE_STEPS_def of_nat_numeral in_grid set_upt
  by (rule refl)

lemma projectionCandidates_iff:
  "q \<in> set (projectionCandidates zone) \<longleftrightarrow> candidateOf zone q"
proof -
  have g: "q \<in> clampPoint ` set (gridSamples zone) \<longleftrightarrow> gridCandidate zone q"
  proof
    assume "q \<in> clampPoint ` set (gridSamples zone)"
    then obtain p where p: "p \<in> set (gridSamples zone)" and q: "q = clampPoint p" by blast
    from p[unfolded gridSamples_iff] obtain xi yi where i: "xi \<in> {0 ..< 24 :: nat}" "yi \<in> {0 ..< 24 :: nat}"
      and pe: "p = (minX (zs_bounds zone)
               + ((of_nat xi + 1 / 2) / 24) * (maxX (zs_bounds zone) - minX (zs_bounds zone)),
             minY (zs_bounds zone)
               + ((of_nat yi + 1 / 2) / 24) * (maxY (zs_bounds zone) - minY (zs_bounds zone)))"
      by blast
    show "gridCandidate zone q"
      unfolding gridCandidate_def q pe clampPoint_clamp01 fst_conv snd_conv
      using i by blast
  next
    assume "gridCandidate zone q"
    then obtain xi yi where i: "xi \<in> {0 ..< 24 :: nat}" "yi \<in> {0 ..< 24 :: nat}"
      and qe: "q = (clamp01 (minX (zs_bounds zone)
                       + ((of_nat xi + 1 / 2) / 24) * (maxX (zs_bounds zone) - minX (zs_bounds zone))),
             clamp01 (minY (zs_bounds zone)
                       + ((of_nat yi + 1 / 2) / 24) * (maxY (zs_bounds zone) - minY (zs_bounds zone))))"
      unfolding gridCandidate_def by blast
    let ?p = "(minX (zs_bounds zone)
               + ((of_nat xi + 1 / 2) / 24) * (maxX (zs_bounds zone) - minX (zs_bounds zone)),
             minY (zs_bounds zone)
               + ((of_nat yi + 1 / 2) / 24) * (maxY (zs_bounds zone) - minY (zs_bounds zone)))"
    have "?p \<in> set (gridSamples zone)" unfolding gridSamples_iff using i by blast
    moreover have "q = clampPoint ?p" unfolding qe clampPoint_clamp01 fst_conv snd_conv by (rule refl)
    ultimately show "q \<in> clampPoint ` set (gridSamples zone)" by blast
  qed
  have "q \<in> set (projectionCandidates zone) \<longleftrightarrow>
        q = clampPoint (zs_centroid zone) \<or> q \<in> clampPoint ` set (gridSamples zone)"
    unfolding projectionCandidates_def by simp
  then show ?thesis unfolding g candidateOf_def clampPoint_clamp01 .
qed

text \<open>A walkable candidate that no later walkable candidate beats stays the best.\<close>

lemma fold_spiralTest_keeps:
  assumes "\<forall>c \<in> set cs. W (fst (clampPoint c)) (snd (clampPoint c)) \<longrightarrow>
             bd \<le> dist2 px py (fst (clampPoint c)) (snd (clampPoint c))"
  shows "fold (spiralTest W px py) cs (Some (bx, by, bd)) = Some (bx, by, bd)"
  using assms
  by (induction cs) (auto simp: spiralTest_def clampPoint_def Let_def)

lemma project_centroid_first:
  assumes nw: "\<not> surfaceWalkable pip zone hp ep (clamp01 x0) (clamp01 y0)"
    and cw: "surfaceWalkable pip zone hp ep (clamp01 (fst (zs_centroid zone))) (clamp01 (snd (zs_centroid zone)))"
    and mn: "\<forall>q \<in> set (projectionCandidates zone). surfaceWalkable pip zone hp ep (fst q) (snd q) \<longrightarrow>
               dist2 (clamp01 x0) (clamp01 y0) (clamp01 (fst (zs_centroid zone))) (clamp01 (snd (zs_centroid zone)))
               \<le> dist2 (clamp01 x0) (clamp01 y0) (fst q) (snd q)"
  shows "projectPointToWalkable pip x0 y0 zone hp ep
           = (clamp01 (fst (zs_centroid zone)), clamp01 (snd (zs_centroid zone)))"
proof -
  let ?W = "surfaceWalkable pip zone hp ep"
  let ?px = "clamp01 x0" and ?py = "clamp01 y0"
  let ?cx = "clamp01 (fst (zs_centroid zone))" and ?cy = "clamp01 (snd (zs_centroid zone))"
  have first: "spiralTest ?W ?px ?py (zs_centroid zone) None = Some (?cx, ?cy, dist2 ?px ?py ?cx ?cy)"
    using cw by (simp add: spiralTest_def Let_def clamp01_clampRange)
  have rest: "\<forall>c \<in> set (gridSamples zone). ?W (fst (clampPoint c)) (snd (clampPoint c)) \<longrightarrow>
      dist2 ?px ?py ?cx ?cy \<le> dist2 ?px ?py (fst (clampPoint c)) (snd (clampPoint c))"
    using mn by (simp add: projectionCandidates_def)
  have b: "fold (tryCandidate pip zone hp ep ?px ?py) (zs_centroid zone # gridSamples zone) None
      = Some (?cx, ?cy, dist2 ?px ?py ?cx ?cy)"
    by (simp only: tryCandidate_spiralTest fold_simps first fold_spiralTest_keeps[OF rest])
  have nc: "\<not> (pip ?px ?py (zs_polygon zone) \<and>
         \<not> pointInHoleOrBufferedBounds pip ?px ?py (zs_holes zone) (zs_holeBounds zone) hp \<and>
         (ep \<le> 0 \<or> pointInBounds ?px ?py (Some (zs_bounds zone)) (- ep)))"
    using nw by (simp add: surfaceWalkable_def)
  show ?thesis
    by (subst projectPointToWalkable.simps) (simp only: nc if_False b option.case prod.case)
qed

text \<open>
  C8, as the code has it. \<^verbatim>\<open>projectPointToWalkable\<close> returns the clamped input point when
  that is walkable. Otherwise its candidates are the clamped centroid of the zone and
  the clamped centres of the cells of a 24 by 24 grid over the bounding box of the zone:
  when one of them is walkable it returns a walkable candidate closest to the clamped
  input, and that is the centroid when the centroid is walkable and no walkable
  candidate is closer. If no candidate is walkable and the edge padding is positive, it
  returns what the same search gives with the edge padding set to 0. If nothing is
  walkable even without edge padding, it returns the centroid of the zone.
\<close>

theorem projectPointToWalkable_contract:
  "(surfaceWalkable pip zone hp ep (clamp01 x0) (clamp01 y0) \<longrightarrow>
      projectPointToWalkable pip x0 y0 zone hp ep = (clamp01 x0, clamp01 y0)) \<and>
   (\<not> surfaceWalkable pip zone hp ep (clamp01 x0) (clamp01 y0) \<and>
    (\<exists>q. candidateOf zone q \<and> surfaceWalkable pip zone hp ep (fst q) (snd q)) \<longrightarrow>
      candidateOf zone (projectPointToWalkable pip x0 y0 zone hp ep) \<and>
      surfaceWalkable pip zone hp ep (fst (projectPointToWalkable pip x0 y0 zone hp ep))
                                       (snd (projectPointToWalkable pip x0 y0 zone hp ep)) \<and>
      (\<forall>q. candidateOf zone q \<and> surfaceWalkable pip zone hp ep (fst q) (snd q) \<longrightarrow>
         dist2 (clamp01 x0) (clamp01 y0) (fst (projectPointToWalkable pip x0 y0 zone hp ep))
                                          (snd (projectPointToWalkable pip x0 y0 zone hp ep))
         \<le> dist2 (clamp01 x0) (clamp01 y0) (fst q) (snd q)) \<and>
      (surfaceWalkable pip zone hp ep (clamp01 (fst (zs_centroid zone))) (clamp01 (snd (zs_centroid zone))) \<and>
       (\<forall>q. candidateOf zone q \<and> surfaceWalkable pip zone hp ep (fst q) (snd q) \<longrightarrow>
          dist2 (clamp01 x0) (clamp01 y0) (clamp01 (fst (zs_centroid zone))) (clamp01 (snd (zs_centroid zone)))
          \<le> dist2 (clamp01 x0) (clamp01 y0) (fst q) (snd q)) \<longrightarrow>
       projectPointToWalkable pip x0 y0 zone hp ep
         = (clamp01 (fst (zs_centroid zone)), clamp01 (snd (zs_centroid zone))))) \<and>
   (\<not> surfaceWalkable pip zone hp ep (clamp01 x0) (clamp01 y0) \<and>
    (\<forall>q. candidateOf zone q \<longrightarrow> \<not> surfaceWalkable pip zone hp ep (fst q) (snd q)) \<and>
    0 < ep \<longrightarrow>
      projectPointToWalkable pip x0 y0 zone hp ep = projectPointToWalkable pip x0 y0 zone hp 0) \<and>
   (\<not> surfaceWalkable pip zone hp 0 (clamp01 x0) (clamp01 y0) \<and>
    (\<forall>q. candidateOf zone q \<longrightarrow> \<not> surfaceWalkable pip zone hp 0 (fst q) (snd q)) \<longrightarrow>
      projectPointToWalkable pip x0 y0 zone hp ep = zs_centroid zone)"
proof (intro conjI impI)
  assume "surfaceWalkable pip zone hp ep (clamp01 x0) (clamp01 y0)"
  then show "projectPointToWalkable pip x0 y0 zone hp ep = (clamp01 x0, clamp01 y0)"
    by (rule project_point_walkable)
next
  assume a: "\<not> surfaceWalkable pip zone hp ep (clamp01 x0) (clamp01 y0) \<and>
    (\<exists>q. candidateOf zone q \<and> surfaceWalkable pip zone hp ep (fst q) (snd q))"
  then have ex: "\<exists>q \<in> set (projectionCandidates zone). surfaceWalkable pip zone hp ep (fst q) (snd q)"
    unfolding Bex_def projectionCandidates_iff by blast
  note f = project_candidate_found[OF conjunct1[OF a] ex, unfolded Ball_def projectionCandidates_iff]
  from f show "candidateOf zone (projectPointToWalkable pip x0 y0 zone hp ep)"
    by blast
  from f show "surfaceWalkable pip zone hp ep (fst (projectPointToWalkable pip x0 y0 zone hp ep))
                                       (snd (projectPointToWalkable pip x0 y0 zone hp ep))" by blast
  from f show "\<forall>q. candidateOf zone q \<and> surfaceWalkable pip zone hp ep (fst q) (snd q) \<longrightarrow>
         dist2 (clamp01 x0) (clamp01 y0) (fst (projectPointToWalkable pip x0 y0 zone hp ep))
                                          (snd (projectPointToWalkable pip x0 y0 zone hp ep))
         \<le> dist2 (clamp01 x0) (clamp01 y0) (fst q) (snd q)"
    by blast
  assume c: "surfaceWalkable pip zone hp ep (clamp01 (fst (zs_centroid zone))) (clamp01 (snd (zs_centroid zone))) \<and>
       (\<forall>q. candidateOf zone q \<and> surfaceWalkable pip zone hp ep (fst q) (snd q) \<longrightarrow>
          dist2 (clamp01 x0) (clamp01 y0) (clamp01 (fst (zs_centroid zone))) (clamp01 (snd (zs_centroid zone)))
          \<le> dist2 (clamp01 x0) (clamp01 y0) (fst q) (snd q))"
  then have mn: "\<forall>q \<in> set (projectionCandidates zone). surfaceWalkable pip zone hp ep (fst q) (snd q) \<longrightarrow>
               dist2 (clamp01 x0) (clamp01 y0) (clamp01 (fst (zs_centroid zone))) (clamp01 (snd (zs_centroid zone)))
               \<le> dist2 (clamp01 x0) (clamp01 y0) (fst q) (snd q)"
    unfolding Ball_def projectionCandidates_iff by blast
  show "projectPointToWalkable pip x0 y0 zone hp ep
         = (clamp01 (fst (zs_centroid zone)), clamp01 (snd (zs_centroid zone)))"
    by (rule project_centroid_first[OF conjunct1[OF a] conjunct1[OF c] mn])
next
  assume a: "\<not> surfaceWalkable pip zone hp ep (clamp01 x0) (clamp01 y0) \<and>
    (\<forall>q. candidateOf zone q \<longrightarrow> \<not> surfaceWalkable pip zone hp ep (fst q) (snd q)) \<and> 0 < ep"
  then have no: "\<forall>q \<in> set (projectionCandidates zone). \<not> surfaceWalkable pip zone hp ep (fst q) (snd q)"
    unfolding Ball_def projectionCandidates_iff by blast
  have same: "projectPointToWalkable pip (clamp01 x0) (clamp01 y0) zone hp 0
      = projectPointToWalkable pip x0 y0 zone hp 0"
    by (subst projectPointToWalkable.simps, subst (2) projectPointToWalkable.simps)
       (simp only: clamp01_idem)
  from a project_nothing_found[OF conjunct1[OF a] no] same
  show "projectPointToWalkable pip x0 y0 zone hp ep = projectPointToWalkable pip x0 y0 zone hp 0"
    by simp
next
  assume a: "\<not> surfaceWalkable pip zone hp 0 (clamp01 x0) (clamp01 y0) \<and>
    (\<forall>q. candidateOf zone q \<longrightarrow> \<not> surfaceWalkable pip zone hp 0 (fst q) (snd q))"
  then have no: "\<forall>q \<in> set (projectionCandidates zone). \<not> surfaceWalkable pip zone hp 0 (fst q) (snd q)"
    unfolding Ball_def projectionCandidates_iff by blast
  show "projectPointToWalkable pip x0 y0 zone hp ep = zs_centroid zone"
    by (rule project_last_resort[OF conjunct1[OF a] no])
qed

theorem projectPointToWalkable_contract_witness:
  "gridCandidate ringSurface
     (projectPointToWalkable rayCast (44 / 100) (47 / 100) ringSurface ROBOT_HOLE_PADDING_NORM
        ROBOT_ZONE_EDGE_PADDING_NORM) \<and>
   dist2 (44 / 100) (47 / 100)
     (fst (projectPointToWalkable rayCast (44 / 100) (47 / 100) ringSurface ROBOT_HOLE_PADDING_NORM
        ROBOT_ZONE_EDGE_PADDING_NORM))
     (snd (projectPointToWalkable rayCast (44 / 100) (47 / 100) ringSurface ROBOT_HOLE_PADDING_NORM
        ROBOT_ZONE_EDGE_PADDING_NORM))
     \<le> dist2 (44 / 100) (47 / 100) (19 / 48) (23 / 48) \<and>
   \<not> surfaceWalkable rayCast ringSurface ROBOT_HOLE_PADDING_NORM ROBOT_ZONE_EDGE_PADDING_NORM
       (clamp01 (fst (zs_centroid ringSurface))) (clamp01 (snd (zs_centroid ringSurface)))"
proof -
  let ?hp = ROBOT_HOLE_PADDING_NORM and ?ep = ROBOT_ZONE_EDGE_PADDING_NORM
  let ?P = "projectPointToWalkable rayCast (44 / 100) (47 / 100) ringSurface ?hp ?ep"
  have cl: "clamp01 (44 / 100) = 44 / 100" "clamp01 (47 / 100) = 47 / 100"
    by (simp_all add: clamp01_def)
  have n: "\<not> surfaceWalkable rayCast ringSurface ?hp ?ep (clamp01 (44 / 100)) (clamp01 (47 / 100))"
    by code_simp
  have nc: "\<not> surfaceWalkable rayCast ringSurface ?hp ?ep
       (clamp01 (fst (zs_centroid ringSurface))) (clamp01 (snd (zs_centroid ringSurface)))"
    by code_simp
  have g: "gridCandidate ringSurface (19 / 48, 23 / 48)"
    unfolding gridCandidate_def
    by (intro bexI[of _ 9] bexI[of _ 11]) (simp_all add: ringSurface_def clamp01_def)
  have w: "surfaceWalkable rayCast ringSurface ?hp ?ep (fst (19 / 48, 23 / 48)) (snd (19 / 48, 23 / 48))"
    by code_simp
  from g w have ex: "\<exists>q. candidateOf ringSurface q \<and> surfaceWalkable rayCast ringSurface ?hp ?ep (fst q) (snd q)"
    unfolding candidateOf_def by blast
  from projectPointToWalkable_contract[where pip=rayCast and zone=ringSurface and hp="?hp" and ep="?ep"
        and ?x0.0="44 / 100" and ?y0.0="47 / 100"] n ex
  have c: "candidateOf ringSurface ?P"
    and pw: "surfaceWalkable rayCast ringSurface ?hp ?ep (fst ?P) (snd ?P)"
    and mn: "\<forall>q. candidateOf ringSurface q \<and> surfaceWalkable rayCast ringSurface ?hp ?ep (fst q) (snd q) \<longrightarrow>
         dist2 (clamp01 (44 / 100)) (clamp01 (47 / 100)) (fst ?P) (snd ?P)
         \<le> dist2 (clamp01 (44 / 100)) (clamp01 (47 / 100)) (fst q) (snd q)"
    by blast+
  from c pw nc have "gridCandidate ringSurface ?P"
    unfolding candidateOf_def by (metis fst_conv snd_conv)
  moreover from mn g w have "dist2 (44 / 100) (47 / 100) (fst ?P) (snd ?P)
      \<le> dist2 (44 / 100) (47 / 100) (19 / 48) (23 / 48)"
    unfolding candidateOf_def cl by (metis fst_conv snd_conv)
  ultimately show ?thesis using nc by blast
qed

lemma covered_unit_blocked:
  assumes "0 \<le> px" "px \<le> 1" "0 \<le> py" "py \<le> 1" "0 \<le> hp"
  shows "\<not> surfaceWalkable pip blockedSurface hp ep px py"
  using assms
  by (simp add: surfaceWalkable_def pointInHoleOrBufferedBounds_def pointInBounds_def blockedSurface_def)

text \<open>
  C8 as stated fails in its last clause: in a zone whose shelf covers it entirely no
  candidate is walkable, with or without edge padding, and the result is the centroid,
  not the clamped input point.
\<close>

theorem projectPointToWalkable_last_resort_counterexample:
  "projectPointToWalkable rayCast (1 / 5) (3 / 10) blockedSurface ROBOT_HOLE_PADDING_NORM
      ROBOT_ZONE_EDGE_PADDING_NORM = (1 / 2, 1 / 2) \<and>
   (clamp01 (1 / 5), clamp01 (3 / 10)) = (1 / 5, 3 / 10)"
proof -
  have hp: "0 \<le> ROBOT_HOLE_PADDING_NORM" by (simp add: ROBOT_HOLE_PADDING_NORM_def)
  have a: "\<not> surfaceWalkable rayCast blockedSurface ROBOT_HOLE_PADDING_NORM 0 (clamp01 (1 / 5)) (clamp01 (3 / 10))"
    by (rule covered_unit_blocked) (simp_all add: clamp01_def hp)
  have b: "\<forall>q \<in> set (projectionCandidates blockedSurface).
      \<not> surfaceWalkable rayCast blockedSurface ROBOT_HOLE_PADDING_NORM 0 (fst q) (snd q)"
  proof
    fix q assume "q \<in> set (projectionCandidates blockedSurface)"
    then have "q \<in> clampPoint ` set (zs_centroid blockedSurface # gridSamples blockedSurface)"
      by (simp only: projectionCandidates_def set_map)
    then obtain p where "q = clampPoint p" by blast
    then have "0 \<le> fst q" "fst q \<le> 1" "0 \<le> snd q" "snd q \<le> 1"
      by (simp_all add: clampPoint_def clampRange_unit)
    then show "\<not> surfaceWalkable rayCast blockedSurface ROBOT_HOLE_PADDING_NORM 0 (fst q) (snd q)"
      using hp by (rule covered_unit_blocked)
  qed
  have "projectPointToWalkable rayCast (1 / 5) (3 / 10) blockedSurface ROBOT_HOLE_PADDING_NORM
      ROBOT_ZONE_EDGE_PADDING_NORM = zs_centroid blockedSurface"
    using project_last_resort[OF a b] .
  then show ?thesis by (simp add: blockedSurface_def clamp01_def)
qed

section \<open>Properties of the robot tick\<close>

lemma clamp01_id: "0 \<le> v \<Longrightarrow> v \<le> 1 \<Longrightarrow> clamp01 v = v"
  by (simp add: clamp01_def)

lemma pocket_blocked:
  assumes b: "Some b \<in> set hbs" and p: "inPocket b px py s"
    and dx: "\<bar>dx\<bar> \<le> s" and dy: "\<bar>dy\<bar> \<le> s"
  shows "isBlockedPoint pip (px + dx) (py + dy) hs hbs"
proof (cases "px + dx < ROBOT_CLEARANCE \<or> 1 - ROBOT_CLEARANCE < px + dx \<or>
              py + dy < ROBOT_CLEARANCE \<or> 1 - ROBOT_CLEARANCE < py + dy")
  case True
  then show ?thesis by (simp add: isBlockedPoint_def)
next
  case False
  then have r: "ROBOT_CLEARANCE \<le> px + dx" "px + dx \<le> 1 - ROBOT_CLEARANCE"
    "ROBOT_CLEARANCE \<le> py + dy" "py + dy \<le> 1 - ROBOT_CLEARANCE" by auto
  have c: "0 \<le> ROBOT_CLEARANCE" by (simp add: ROBOT_CLEARANCE_def)
  have cx: "clamp01 (px + dx + fst (- ROBOT_CLEARANCE, 0::real)) = px + dx - ROBOT_CLEARANCE"
    using r c by (simp add: clamp01_def)
  have cy: "clamp01 (py + dy + snd (- ROBOT_CLEARANCE, 0::real)) = py + dy"
    using r c by (simp add: clamp01_def)
  have inb: "pointInBounds (px + dx - ROBOT_CLEARANCE) (py + dy) (Some b) ROBOT_HOLE_PADDING_NORM"
    using p dx dy by (simp add: pointInBounds_def inPocket_def) linarith
  have probe: "(- ROBOT_CLEARANCE, 0) \<in> set CLEARANCE_PROBES" by (simp add: CLEARANCE_PROBES_def)
  have "list_ex (\<lambda>bounds. pointInBounds (clamp01 (px + dx + fst (- ROBOT_CLEARANCE, 0::real)))
            (clamp01 (py + dy + snd (- ROBOT_CLEARANCE, 0::real))) bounds ROBOT_HOLE_PADDING_NORM) hbs"
    unfolding cx cy list_ex_iff using b inb by blast
  then have "list_ex (\<lambda>probe.
             if list_ex (\<lambda>hole. pip (clamp01 (px + dx + fst probe)) (clamp01 (py + dy + snd probe)) hole) hs
             then True
             else list_ex (\<lambda>bounds. pointInBounds (clamp01 (px + dx + fst probe)) (clamp01 (py + dy + snd probe))
                                        bounds ROBOT_HOLE_PADDING_NORM) hbs)
           CLEARANCE_PROBES"
    unfolding list_ex_iff[of _ CLEARANCE_PROBES] using probe by (intro bexI[of _ "(- ROBOT_CLEARANCE, 0)"]) simp_all
  then show ?thesis using False by (simp add: isBlockedPoint_def)
qed

lemma pocket_no_steer:
  assumes b: "Some b \<in> set hbs" and p: "inPocket b (rb_x robot) (rb_y robot) s" and s: "0 \<le> s"
  shows "resolveSteerStep pip robot s hs hbs = None"
proof -
  have "\<And>offset. isBlockedPoint pip (fst (steerCandidate robot s offset))
            (fst (snd (steerCandidate robot s offset))) hs hbs"
  proof -
    fix offset
    let ?h = "atan2 (targetY robot - rb_y robot) (targetX robot - rb_x robot) + offset"
    have "\<bar>cos ?h * s\<bar> \<le> s" "\<bar>sin ?h * s\<bar> \<le> s"
      using s by (simp_all add: abs_mult mult_left_le_one_le)
    from pocket_blocked[OF b p this, of pip hs]
    show "isBlockedPoint pip (fst (steerCandidate robot s offset))
            (fst (snd (steerCandidate robot s offset))) hs hbs"
      by (simp add: steerCandidate_def Let_def)
  qed
  then show ?thesis
    by (simp add: resolveSteerStep_def find_None_iff)
qed

lemma hypot_zero: "hypot dx 0 = \<bar>dx\<bar>"
  by (simp add: hypot_def)

text \<open>The detour branch of the tick: it adds one to the stuck counter and never compares
  it with \<^verbatim>\<open>ROBOT_STUCK_TICKS\<close>.\<close>

lemma tick_detour_counts:
  assumes far: "\<not> hypot (targetX (assignRobot pip surfaces rnd evs robot) - rb_x (assignRobot pip surfaces rnd evs robot))
                        (targetY (assignRobot pip surfaces rnd evs robot) - rb_y (assignRobot pip surfaces rnd evs robot))
                  \<le> max (speed (assignRobot pip surfaces rnd evs robot) * (80 / 1000)) (3 / 1000)"
    and nosteer: "resolveSteerStep pip (assignRobot pip surfaces rnd evs robot)
                    (speed (assignRobot pip surfaces rnd evs robot) * (80 / 1000))
                    (concat (map zs_holes surfaces)) (concat (map zs_holeBounds surfaces)) = None"
    and dh: "dh = headingRad (assignRobot pip surfaces rnd evs robot)
                   + (if detourDraw rnd < 1 / 2 then 92 / 100 else - (92 / 100))"
    and pd: "pd = projectToWalkableTarget pip surfaces
                    (clamp01 (rb_x (assignRobot pip surfaces rnd evs robot) + cos dh * (8 / 100)))
                    (clamp01 (rb_y (assignRobot pip surfaces rnd evs robot) + sin dh * (8 / 100)))
                    (rb_zoneId (assignRobot pip surfaces rnd evs robot))"
    and clear: "\<not> isBlockedPoint pip (fst pd) (snd pd)
                    (concat (map zs_holes surfaces)) (concat (map zs_holeBounds surfaces))"
  shows "robotTick pip surfaces rnd evs robot =
           (assignRobot pip surfaces rnd evs robot)
             \<lparr> targetX := fst pd, targetY := snd pd, headingRad := dh,
               stuckTicks := stuckTicks (assignRobot pip surfaces rnd evs robot) + 1 \<rparr>"
  using far nosteer clear unfolding dh pd
  by (simp add: robotTick_def Let_def)

lemma pocket_lookup:
  "map_of (newMap (map (\<lambda>z. (zs_id z, z)) [pocketSurface])) ''zone-a'' = Some pocketSurface"
  by (simp add: newMap_def pocketSurface_def)

lemma pocket_project:
  assumes "surfaceWalkable rayCast pocketSurface ROBOT_HOLE_PADDING_NORM ROBOT_ZONE_EDGE_PADDING_NORM
             (clamp01 px) (clamp01 py)"
  shows "projectToWalkableTarget rayCast [pocketSurface] px py ''zone-a'' = (clamp01 px, clamp01 py)"
  unfolding projectToWalkableTarget_def pocket_lookup option.case
  using assms by (rule project_point_walkable)

lemma pocket_walkable_event:
  "surfaceWalkable rayCast pocketSurface ROBOT_HOLE_PADDING_NORM ROBOT_ZONE_EDGE_PADDING_NORM
     (clamp01 (2 / 5)) (clamp01 (1 / 2))"
  by code_simp

lemma pocket_walkable_detour:
  "surfaceWalkable rayCast pocketSurface ROBOT_HOLE_PADDING_NORM ROBOT_ZONE_EDGE_PADDING_NORM
     (clamp01 (129 / 200)) (clamp01 (1 / 2))"
  by code_simp

lemma pocket_detour_clear:
  "\<not> isBlockedPoint rayCast (129 / 200) (1 / 2) (concat (map zs_holes [pocketSurface]))
       (concat (map zs_holeBounds [pocketSurface]))"
  by code_simp

lemma pocket_assign:
  "assignRobot rayCast [pocketSurface] pocketDraws [pocketEvent] stuckRobot = stuckRobot"
proof -
  have t: "projectToWalkableTarget rayCast [pocketSurface] (2 / 5) (1 / 2) ''zone-a'' = (2 / 5, 1 / 2)"
    using pocket_project[OF pocket_walkable_event] by (simp add: clamp01_def)
  have tr: "find (\<lambda>event. re_id event = ''e1'') [pocketEvent] = Some pocketEvent"
    by (simp add: pocketEvent_def)
  have z: "re_zone_id pocketEvent = ''zone-a''" "re_x pocketEvent = 2 / 5" "re_y pocketEvent = 1 / 2"
    "re_id pocketEvent = ''e1''" by (simp_all add: pocketEvent_def)
  show ?thesis
    unfolding assignRobot_def Let_def
    by (simp add: stuckRobot_def tr z t RESPONSE_SPEED_MIN_def)
qed

text \<open>
  C9 on the code. A robot that responds to an event across a shelf stands where every
  steering candidate is blocked, and has stood there for 18 ticks (its stuck counter is
  at the threshold). The next tick takes the detour branch: the robot keeps its
  position, stays in responding mode with its event, and its counter goes to 19. The
  rescue that C9 promises is not applied.
\<close>

theorem stuck_robot_is_not_rescued:
  "robotTick rayCast [pocketSurface] pocketDraws [pocketEvent] stuckRobot =
     stuckRobot \<lparr> targetX := 129 / 200, targetY := 1 / 2, headingRad := 0, stuckTicks := 19 \<rparr> \<and>
   stuckTicks stuckRobot = ROBOT_STUCK_TICKS \<and>
   rb_mode (robotTick rayCast [pocketSurface] pocketDraws [pocketEvent] stuckRobot) = responding \<and>
   stuckTicks (robotTick rayCast [pocketSurface] pocketDraws [pocketEvent] stuckRobot) = 19"
proof -
  let ?n = "assignRobot rayCast [pocketSurface] pocketDraws [pocketEvent] stuckRobot"
  have n: "?n = stuckRobot" by (rule pocket_assign)
  have far: "\<not> hypot (targetX ?n - rb_x ?n) (targetY ?n - rb_y ?n)
                \<le> max (speed ?n * (80 / 1000)) (3 / 1000)"
  proof -
    have "targetY stuckRobot - rb_y stuckRobot = 0" by (simp add: stuckRobot_def)
    then have "hypot (targetX stuckRobot - rb_x stuckRobot) (targetY stuckRobot - rb_y stuckRobot)
        = \<bar>targetX stuckRobot - rb_x stuckRobot\<bar>" by (simp only: hypot_zero)
    also have "\<dots> = 33 / 200" by (simp add: stuckRobot_def)
    finally show ?thesis unfolding n by (simp add: stuckRobot_def)
  qed
  have b: "Some \<lparr> minX = 45 / 100, maxX = 55 / 100, minY = 45 / 100, maxY = 55 / 100 \<rparr>
             \<in> set (concat (map zs_holeBounds [pocketSurface]))"
    by (simp add: pocketSurface_def)
  have p: "inPocket \<lparr> minX = 45 / 100, maxX = 55 / 100, minY = 45 / 100, maxY = 55 / 100 \<rparr>
             (rb_x ?n) (rb_y ?n) (speed ?n * (80 / 1000))"
    unfolding n by (simp add: inPocket_def stuckRobot_def ROBOT_HOLE_PADDING_NORM_def ROBOT_CLEARANCE_def)
  have s: "0 \<le> speed ?n * (80 / 1000)" unfolding n by (simp add: stuckRobot_def)
  have nosteer: "resolveSteerStep rayCast ?n (speed ?n * (80 / 1000))
                    (concat (map zs_holes [pocketSurface])) (concat (map zs_holeBounds [pocketSurface])) = None"
    using pocket_no_steer[OF b p s] .
  have dh: "(0::real) = headingRad ?n + (if detourDraw pocketDraws < 1 / 2 then 92 / 100 else - (92 / 100))"
    unfolding n by (simp add: stuckRobot_def pocketDraws_def)
  have pd: "(129 / 200, 1 / 2) = projectToWalkableTarget rayCast [pocketSurface]
                    (clamp01 (rb_x ?n + cos 0 * (8 / 100)))
                    (clamp01 (rb_y ?n + sin 0 * (8 / 100)))
                    (rb_zoneId ?n)"
  proof -
    have "rb_x stuckRobot + cos 0 * (8 / 100) = 129 / 200" "rb_y stuckRobot + sin 0 * (8 / 100) = 1 / 2"
      "rb_zoneId stuckRobot = ''zone-a''"
      by (simp_all add: stuckRobot_def)
    moreover have "clamp01 (129 / 200) = 129 / 200" "clamp01 (1 / 2) = 1 / 2"
      by (simp_all add: clamp01_def)
    ultimately show ?thesis
      unfolding n using pocket_project[OF pocket_walkable_detour] by (simp only:)
  qed
  have clear: "\<not> isBlockedPoint rayCast (fst (129 / 200 :: real, 1 / 2 :: real)) (snd (129 / 200 :: real, 1 / 2 :: real))
                    (concat (map zs_holes [pocketSurface])) (concat (map zs_holeBounds [pocketSurface]))"
    using pocket_detour_clear by simp
  have r: "robotTick rayCast [pocketSurface] pocketDraws [pocketEvent] stuckRobot =
     stuckRobot \<lparr> targetX := 129 / 200, targetY := 1 / 2, headingRad := 0, stuckTicks := 19 \<rparr>"
    using tick_detour_counts[OF far nosteer dh pd clear] unfolding n
    by (simp add: stuckRobot_def)
  show ?thesis unfolding r by (simp add: stuckRobot_def ROBOT_STUCK_TICKS_def)
qed

lemma find_Some_mem: "find P xs = Some a \<Longrightarrow> a \<in> set xs"
  by (induction xs) (auto split: if_splits)

text \<open>When a steering candidate is accepted the robot moves by exactly one step, so the
  test \<^verbatim>\<open>movedDistance < 0.0006\<close> of the steering branch, the only place where the counter
  is compared with the threshold, is false for every step of 0.0006 or more.\<close>

lemma steered_moves_one_step:
  assumes "resolveSteerStep pip robot s hs hbs = Some st" and "0 \<le> s"
  shows "hypot (fst st - rb_x robot) (fst (snd st) - rb_y robot) = s"
proof -
  from assms(1) have "st \<in> set (map (steerCandidate robot s) STEER_ANGLES_RAD)"
    unfolding resolveSteerStep_def by (rule find_Some_mem)
  then obtain offset where st: "st = steerCandidate robot s offset" by auto
  let ?h = "atan2 (targetY robot - rb_y robot) (targetX robot - rb_x robot) + offset"
  have "hypot (fst st - rb_x robot) (fst (snd st) - rb_y robot)
      = sqrt ((cos ?h * s) * (cos ?h * s) + (sin ?h * s) * (sin ?h * s))"
    by (simp add: st steerCandidate_def Let_def hypot_def)
  also have "(cos ?h * s) * (cos ?h * s) + (sin ?h * s) * (sin ?h * s)
      = ((sin ?h)\<^sup>2 + (cos ?h)\<^sup>2) * (s * s)"
    unfolding power2_eq_square by (simp only: distrib_right mult.assoc mult.left_commute[of s])
  also have "\<dots> = s * s" by (simp only: sin_cos_squared_add mult_1)
  also have "sqrt (s * s) = s" using assms(2) by simp
  finally show ?thesis .
qed

section \<open>Properties of a second pass over the feed\<close>

subsection \<open>Trimmed text\<close>

lemma trim_eq_self_iff:
  "trim s = s \<longleftrightarrow> (s = [] \<or> (\<not> isWhitespace (hd s) \<and> \<not> isWhitespace (last s)))"
proof (cases "s = []")
  case True
  then show ?thesis by (simp add: trim_def)
next
  case False
  show ?thesis
  proof (cases "isWhitespace (hd s)")
    case True
    have "length (trim s) \<le> length (dropWhile isWhitespace s)"
      unfolding trim_def by (metis length_dropWhile_le length_rev)
    also have "\<dots> < length s" using False True by (cases s) (auto intro: le_imp_less_Suc length_dropWhile_le)
    finally have "trim s \<noteq> s" by auto
    then show ?thesis using True False by simp
  next
    case h: False
    then have d1: "dropWhile isWhitespace s = s" using False by (cases s) auto
    show ?thesis
    proof (cases "isWhitespace (last s)")
      case True
      then have "isWhitespace (hd (rev s))" using False by (simp add: hd_rev)
      then have "length (dropWhile isWhitespace (rev s)) < length (rev s)"
        using False by (cases "rev s") (auto intro: le_imp_less_Suc length_dropWhile_le)
      then have "length (trim s) < length s" by (simp add: trim_def d1)
      then have "trim s \<noteq> s" by auto
      then show ?thesis using True False by simp
    next
      case l: False
      then have "\<not> isWhitespace (hd (rev s))" using False by (simp add: hd_rev)
      then have "dropWhile isWhitespace (rev s) = rev s" using False by (cases "rev s") auto
      then show ?thesis using h l False by (simp add: trim_def d1)
    qed
  qed
qed

lemma trim_idem: "trim (trim s) = trim s"
proof (cases "trim s = []")
  case True
  then show ?thesis by (simp add: trim_eq_self_iff)
next
  case False
  let ?a = "dropWhile isWhitespace s"
  let ?b = "dropWhile isWhitespace (rev ?a)"
  have t: "trim s = rev ?b" by (simp add: trim_def)
  from False have bne: "?b \<noteq> []" by (simp add: t)
  have ane: "?a \<noteq> []"
  proof
    assume "?a = []"
    then have "?b = []" by (simp only: rev.simps dropWhile.simps)
    with bne show False by contradiction
  qed
  have l: "\<not> isWhitespace (last (trim s))"
    using bne hd_dropWhile[of isWhitespace "rev ?a"] by (simp add: t last_rev)
  have "hd (trim s) = last ?b" using bne by (simp add: t hd_rev)
  also have "\<dots> = last (rev ?a)" using bne by (metis last_appendR takeWhile_dropWhile_id)
  also have "\<dots> = hd ?a" using ane by (simp add: last_rev)
  finally have h: "\<not> isWhitespace (hd (trim s))"
    using ane hd_dropWhile[of isWhitespace s] by simp
  show ?thesis using h l by (simp add: trim_eq_self_iff)
qed

lemma trimmedText_trim: "trimmedText s \<Longrightarrow> trim s = s"
  by (simp add: trimmedText_def trim_eq_self_iff)

lemma trim_trimmedText: "trim s \<noteq> [] \<Longrightarrow> trimmedText (trim s)"
  using trim_idem[of s] by (simp add: trimmedText_def trim_eq_self_iff)

lemma trimmedText_append:
  "trimmedText a \<Longrightarrow> trimmedText b \<Longrightarrow> trimmedText (a @ m @ b)"
  by (simp add: trimmedText_def)

lemma digitChar_not_ws: "d < 10 \<Longrightarrow> \<not> isWhitespace (digitChar d)"
proof -
  assume "d < 10"
  then have "d \<in> {0,1,2,3,4,5,6,7,8,9}" by auto
  then show ?thesis by (auto simp: digitChar_def isWhitespace_def)
qed

lemma showNat_trimmed: "trimmedText (showNat n)"
proof (induction n rule: showNat.induct)
  case (1 n)
  show ?case
  proof (cases "n < 10")
    case True
    then show ?thesis by (subst showNat.simps) (simp add: trimmedText_def digitChar_not_ws)
  next
    case False
    then have ih: "trimmedText (showNat (n div 10))" using 1 by simp
    have "n mod 10 < 10" by simp
    then have "\<not> isWhitespace (digitChar (n mod 10))" by (rule digitChar_not_ws)
    then show ?thesis using ih False
      by (subst showNat.simps) (simp add: trimmedText_def)
  qed
qed

lemma showInt_trimmed: "trimmedText (showInt k)"
  using showNat_trimmed[of "nat k"] showNat_trimmed[of "nat (- k)"]
  by (auto simp: showInt_def trimmedText_def isWhitespace_def)

lemma parseId_trimmed: "parseId v = Some s \<Longrightarrow> trimmedText s"
  by (cases v) (auto simp: parseId_def showInt_trimmed trim_trimmedText split: if_splits)

lemma parseId_JStr_trimmed: "trimmedText s \<Longrightarrow> parseId (JStr s) = Some s"
  by (simp add: parseId_def trimmedText_trim) (simp add: trimmedText_def)

lemma parseText_trimmed: "parseText v = Some s \<Longrightarrow> trimmedText s"
  by (cases v) (auto simp: parseText_def trim_trimmedText split: if_splits)

lemma parseText_JStr_trimmed: "trimmedText s \<Longrightarrow> parseText (JStr s) = Some s"
  by (simp add: parseText_def trimmedText_trim) (simp add: trimmedText_def)

subsection \<open>The event as a raw record\<close>

lemma lookupU_Nil: "lookupU [] k = JUndefined"
  by (simp add: lookupU_def)

lemma lookupU_Cons: "lookupU ((a, v) # rest) k = (if k = a then v else lookupU rest k)"
  by (simp add: lookupU_def)

lemma lookupU_fieldEntry:
  "lookupU (fieldEntry a wrap f @ rest) k =
     (if k = a \<and> f \<noteq> Absent then fieldValue wrap f else lookupU rest k)"
  by (cases f) (simp_all add: lookupU_def fieldEntry_def fieldValue_def)

lemma lookupU_fieldEntry_last:
  "lookupU (fieldEntry a wrap f) k = (if k = a \<and> f \<noteq> Absent then fieldValue wrap f else JUndefined)"
  using lookupU_fieldEntry[of a wrap f "[]" k] by (simp add: lookupU_Nil)

lemma getProp_JObj: "getProp (JObj kvs) k = lookupU kvs k"
  by (simp add: lookupU_def)

lemmas lookup_simps = lookupU_Nil lookupU_Cons lookupU_fieldEntry lookupU_fieldEntry_last
  append_Cons append_Nil

lemma fieldValue_JStr_not_null: "fieldValue JStr f \<noteq> JNull"
  by (cases f) (simp_all add: fieldValue_def)

lemma pick_or_undefined: "a \<noteq> JNull \<Longrightarrow> (if a \<noteq> JUndefined \<and> a \<noteq> JNull then a else JUndefined) = a"
  by auto

lemmas pick_simps = pickValue.simps readPath_def readChunks.simps splitDot.simps getProp_JObj
  lookup_simps toRaw_def Let_def isObject.simps allKeys_def fieldValue_JStr_not_null pick_or_undefined

lemma pick_toRaw_ids:
  assumes "allKeys ev"
  shows "pickValue (toRaw ev) [''camera_id'', ''cameraId'', ''camera.id'', ''device_id'', ''deviceId'', ''device.id'']
           = fieldValue JStr (camera_id ev)"
    and "pickValue (toRaw ev) [''track_id'', ''trackId'', ''tracking_id'', ''trackingId'', ''object_id'', ''objectId'']
           = fieldValue JStr (track_id ev)"
    and "pickValue (toRaw ev) [''id'', ''event_id'', ''eventId'', ''uuid'', ''alarm_id'', ''alarmId'', ''alert_id'', ''alertId'']
           = JStr (ev_id ev)"
    and "pickValue (toRaw ev) [''model_version'', ''modelVersion'', ''model.version'']
           = fieldValue JStr (model_version ev)"
    and "pickValue (toRaw ev) [''store_id'', ''storeId'', ''store.id'', ''site_id'', ''siteId'', ''shop_id'', ''shopId'']
           = JStr (store_id ev)"
    and "pickValue (toRaw ev) zoneIdPaths = JStr (ev_zone_id ev)"
  using assms
  by (simp_all add: pick_simps zoneIdPaths_def del: getProp.simps)

lemma pick_toRaw_times:
  assumes "allKeys ev"
  shows "pickValue (toRaw ev) [''detected_at'', ''detectedAt'', ''ts'', ''timestamp'', ''created_at'', ''createdAt'', ''time'']
           = JNum (detected_at ev)"
    and "pickValue (toRaw ev) [''ingested_at'', ''ingestedAt'', ''received_at'', ''receivedAt'', ''updated_at'', ''updatedAt'']
           = JNum (ingested_at ev)"
    and "pickValue (toRaw ev) [''latency_ms'', ''latencyMs'', ''latency'', ''delay_ms'']
           = JNum (latency_ms ev)"
  using assms
  by (simp_all add: pick_simps del: getProp.simps)

lemma pick_toRaw_class:
  assumes "allKeys ev"
  shows "pickValue (toRaw ev) [''status'', ''state'', ''event_status'', ''result.status'', ''payload.status'']
           = JUndefined"
    and "pickValue (toRaw ev) [''label'', ''object.label'', ''class'', ''class_name'', ''object.class'', ''event_label'']
           = JUndefined"
    and "pickValue (toRaw ev) [''type'', ''event_type'', ''eventType'', ''category'', ''event_name'', ''label'']
           = JStr (typeName (ev_type ev))"
    and "pickValue (toRaw ev) [''status'', ''state'', ''event_status'', ''eventState''] = JUndefined"
    and "pickValue (toRaw ev) [''severity'', ''priority'', ''level'', ''risk'', ''risk_level'', ''riskLevel'',
                               ''status'', ''state''] = JNum (of_nat (ev_severity ev))"
    and "pickValue (toRaw ev) [''confidence'', ''score'', ''probability'', ''confidence_score'', ''confidenceScore'']
           = JNum (confidence ev)"
    and "pickValue (toRaw ev) [''source'', ''provider'', ''channel'', ''origin'', ''ingest_source'']
           = JStr (sourceName (ev_source ev))"
    and "pickValue (toRaw ev) [''incident_status'', ''incidentStatus'', ''status'', ''state'', ''resolution'',
                               ''result.status''] = JStr (statusName (incident_status ev))"
  using assms
  by (simp_all add: pick_simps del: getProp.simps)

lemma pick_toRaw_note:
  assumes "allKeys ev"
  shows "pickValue (toRaw ev) [''note'', ''message'', ''description'', ''reason'', ''summary'', ''vlm_analysis.summary'']
           = fieldValue JStr (ev_note ev)"
    and "pickValue (toRaw ev) [''vlm_analysis.cause'', ''analysis.cause''] = JUndefined"
    and "pickValue (toRaw ev) [''vlm_analysis.action'', ''analysis.action'', ''action'', ''recommended_action'']
           = JUndefined"
  using assms
  by (simp_all add: pick_simps del: getProp.simps)

lemma pick_toRaw_xy:
  assumes "allKeys ev"
  shows "pickValue (toRaw ev) xPaths = JNum (ev_x ev)"
    and "pickValue (toRaw ev) yPaths = JNum (ev_y ev)"
  using assms
  by (simp_all add: pick_simps xPaths_def yPaths_def del: getProp.simps)

subsection \<open>Values that the parsers leave alone\<close>

lemma mathRound_of_int: "mathRound (of_int k) = k"
  unfolding mathRound_def by linarith

lemma normalizeEpoch_valid: "normalizeEpoch e t = Some d \<Longrightarrow> validEpoch e d"
  by (auto simp: normalizeEpoch_def validEpoch_def Let_def split: if_splits)

lemma scaleEpoch_valid: "scaleEpoch e t = Some d \<Longrightarrow> validEpoch e d"
  by (auto simp: scaleEpoch_def dest: normalizeEpoch_valid split: if_splits)

lemma parseEpochMs_valid: "parseEpochMs e v = Some d \<Longrightarrow> validEpoch e d"
  by (cases v) (auto simp: parseEpochMs_def Let_def dest: normalizeEpoch_valid scaleEpoch_valid
                split: if_splits option.splits)

lemma scaleEpoch_fixed: "validEpoch e d \<Longrightarrow> scaleEpoch e d = Some d"
  by (auto simp: validEpoch_def scaleEpoch_def normalizeEpoch_def Let_def mathRound_of_int
        MIN_VALID_EPOCH_MS_def)

lemma parseEpochMs_fixed: "validEpoch e d \<Longrightarrow> parseEpochMs e (JNum d) = Some d"
  by (simp add: parseEpochMs_def scaleEpoch_fixed)

lemma severity_range: "normalizeSeverity e v t \<in> {1, 2, 3}"
proof -
  have s: "severityByType t \<in> {1, 2, 3}" by (simp add: severityByType_def)
  have r: "\<And>a::real. 1 \<le> a \<Longrightarrow> a \<le> 3 \<Longrightarrow> nat (mathRound a) \<in> {1, 2, 3}"
  proof -
    fix a :: real assume "1 \<le> a" "a \<le> 3"
    then have "1 \<le> mathRound a" "mathRound a \<le> 3" unfolding mathRound_def by linarith+
    then show "nat (mathRound a) \<in> {1, 2, 3}" by auto
  qed
  show ?thesis
  proof (cases v)
    case (JStr x)
    then show ?thesis using s r
      by (auto simp: normalizeSeverity_def Let_def split: option.splits)
  qed (use s in \<open>auto simp: normalizeSeverity_def\<close>)
qed

lemma severity_fixed: "s \<in> {1, 2, 3} \<Longrightarrow> normalizeSeverity e (JNum (of_nat s)) t = s"
  by (auto simp: normalizeSeverity_def)

lemma confidence_range: "0 \<le> normalizeConfidence e v s \<and> normalizeConfidence e v s \<le> 1"
  by (auto simp: normalizeConfidence_def clampRange_def split: option.splits)

lemma confidence_fixed: "0 \<le> c \<Longrightarrow> c \<le> 1 \<Longrightarrow> normalizeConfidence e (JNum c) s = c"
  by (simp add: normalizeConfidence_def parseNumber_def clampRange_def)

lemma type_fixed: "normalizeType (JStr (typeName t)) = t"
  by (cases t) (simp_all add: normalizeType_def typeName_def trim_def isWhitespace_def toLowerCase_def
        lowerChar_def eventTypeOfName_def Let_def)

lemma source_fixed: "normalizeSource (JStr (sourceName s)) fb = s"
  by (cases s) (simp_all add: normalizeSource_def sourceName_def trim_def isWhitespace_def toLowerCase_def
        lowerChar_def eventSourceOfName_def Let_def)

lemma status_fixed: "normalizeIncidentStatus (JStr (statusName s)) = s"
  by (cases s) (simp_all add: normalizeIncidentStatus_def statusName_def trim_def isWhitespace_def
        toLowerCase_def lowerChar_def incidentStatusOfName_def Let_def)

lemma trimmedField_parseId: "trimmedField (fieldOf (parseId v))"
  by (cases "parseId v") (simp_all add: trimmedField_def fieldOf_def parseId_trimmed)

lemma identityOf_trimmed: "identityOf v = Some i \<Longrightarrow> trimmedText i"
proof -
  assume a: "identityOf v = Some i"
  show ?thesis
  proof (cases "explicitIdOf v")
    case (Some x)
    then show ?thesis using a parseId_trimmed[of _ x] by (simp add: identityOf_def explicitIdOf_def)
  next
    case None
    then obtain t where t: "trackIdOf v = Some t" "t \<noteq> []"
      and i: "i = (case cameraIdOf v of Some c \<Rightarrow> c | None \<Rightarrow> ''cam-unknown'') @ '':track-'' @ t"
      using a by (auto simp: identityOf_def split: option.splits if_splits)
    have tt: "trimmedText t" using t(1) parseId_trimmed by (simp add: trackIdOf_def)
    have "trimmedText (case cameraIdOf v of Some c \<Rightarrow> c | None \<Rightarrow> ''cam-unknown'')"
    proof (cases "cameraIdOf v")
      case None
      then show ?thesis by (simp add: trimmedText_def isWhitespace_def)
    next
      case (Some c)
      then show ?thesis using parseId_trimmed[of _ c] by (simp add: cameraIdOf_def)
    qed
    then show ?thesis unfolding i using tt by (rule trimmedText_append)
  qed
qed

lemma composeNote_trimmed:
  assumes "\<And>d. direct = Some d \<Longrightarrow> trimmedText d"
    and "\<And>c. cause = Some c \<Longrightarrow> trimmedText c"
    and "\<And>a. action = Some a \<Longrightarrow> trimmedText a"
  shows "trimmedField (fieldOf (composeNote direct cause action))"
proof -
  have ws: "\<not> isWhitespace CHR ''c''" "\<not> isWhitespace CHR ''a''" by (simp_all add: isWhitespace_def)
  show ?thesis
    using assms ws
    by (cases direct; cases cause; cases action)
       (simp_all add: composeNote_def trimmedField_def fieldOf_def trimmedText_def)
qed

lemma extractNote_trimmed: "trimmedField (fieldOf (extractNote v))"
  unfolding extractNote_def
  by (rule composeNote_trimmed) (erule parseText_trimmed)+

lemma snap_unit: "inUnit (nc_x (snapCoordinatesToFloor e c zid), nc_y (snapCoordinatesToFloor e c zid))"
  using snapCoordinatesToFloor_cases[where e=e and zid=zid and c=c]
  by (cases "map_of (ZONE_GEOMETRY_BY_ID e) zid") (simp_all add: Let_def)

lemma buildEvent_sel:
  "ev_id (buildEvent e options v i d c) = i"
  "store_id (buildEvent e options v i d c) = storeIdOf options v"
  "detected_at (buildEvent e options v i d c) = d"
  "ingested_at (buildEvent e options v i d c) = ingestedOf e v d"
  "latency_ms (buildEvent e options v i d c) = latencyOf e v d"
  "ev_type (buildEvent e options v i d c) = resolveEventType v"
  "ev_severity (buildEvent e options v i d c) = severityOf e v"
  "confidence (buildEvent e options v i d c) =
     normalizeConfidence e
       (pickValue v [''confidence'', ''score'', ''probability'', ''confidence_score'', ''confidenceScore''])
       (severityOf e v)"
  "ev_zone_id (buildEvent e options v i d c) = resolveZoneId e v c"
  "camera_id (buildEvent e options v i d c) = fieldOf (cameraIdOf v)"
  "track_id (buildEvent e options v i d c) = fieldOf (trackIdOf v)"
  "object_label (buildEvent e options v i d c) =
     fieldOf (stringOrUndefined (pickValue v
       [''label'', ''object.label'', ''class'', ''class_name'', ''object.class'', ''event_label'']))"
  "raw_status (buildEvent e options v i d c) =
     fieldOf (stringOrUndefined (pickValue v
       [''status'', ''state'', ''event_status'', ''result.status'', ''payload.status'']))"
  "ev_source (buildEvent e options v i d c) =
     normalizeSource (pickValue v [''source'', ''provider'', ''channel'', ''origin'', ''ingest_source''])
       (case defaultSource options of Some d \<Rightarrow> d | None \<Rightarrow> unknownSource)"
  "model_version (buildEvent e options v i d c) =
     fieldOf (parseId (pickValue v [''model_version'', ''modelVersion'', ''model.version'']))"
  "incident_status (buildEvent e options v i d c) =
     normalizeIncidentStatus (pickValue v
       [''incident_status'', ''incidentStatus'', ''status'', ''state'', ''resolution'', ''result.status''])"
  "ev_x (buildEvent e options v i d c) = nc_x (snapCoordinatesToFloor e c (resolveZoneId e v c))"
  "ev_y (buildEvent e options v i d c) = nc_y (snapCoordinatesToFloor e c (resolveZoneId e v c))"
  "world_x_m (buildEvent e options v i d c) = fieldOf (worldX (snapCoordinatesToFloor e c (resolveZoneId e v c)))"
  "world_z_m (buildEvent e options v i d c) = fieldOf (worldZ (snapCoordinatesToFloor e c (resolveZoneId e v c)))"
  "ev_note (buildEvent e options v i d c) = fieldOf (extractNote v)"
  "EventItem.more (buildEvent e options v i d c) = ()"
  unfolding latencyOf_def ingestedOf_def severityOf_def storeIdOf_def
  by (simp_all add: buildEvent_def Let_def)

lemma ingestedOf_valid: "validEpoch e d \<Longrightarrow> validEpoch e (ingestedOf e v d)"
  unfolding ingestedOf_def using parseEpochMs_valid by (auto split: option.splits)

lemma latencyOf_int: "\<exists>k::int. 0 \<le> k \<and> latencyOf e v d = of_int k"
proof -
  have lat: "\<And>a::real. \<exists>k::int. 0 \<le> k \<and> max 0 (of_int (mathRound a)) = (of_int k :: real)"
  proof -
    fix a :: real
    show "\<exists>k::int. 0 \<le> k \<and> max 0 (of_int (mathRound a)) = (of_int k :: real)"
      by (intro exI[of _ "max 0 (mathRound a)"]) (simp add: max_def)
  qed
  show ?thesis unfolding latencyOf_def using lat by (auto split: option.splits)
qed

lemma buildEvent_canonical:
  assumes "trimmedText i" and "validEpoch e d"
  shows "canonicalEvent e (buildEvent e options v i d c)"
  unfolding canonicalEvent_def buildEvent_sel allKeys_def
  using assms ingestedOf_valid[OF assms(2)] latencyOf_int[of e v d]
        severity_range[of e _ "resolveEventType v"] snap_unit[of e c "resolveZoneId e v c"]
  by (simp add: severityOf_def cameraIdOf_def trackIdOf_def fieldOf_present trimmedField_parseId
        extractNote_trimmed confidence_range)

lemma adaptRawEvent_canonical:
  assumes "adaptRawEvent e options v = Some ev"
  shows "canonicalEvent e ev"
proof -
  from adaptRawEvent_SomeD[OF assms] obtain i d c where
    "identityOf v = Some i" "detectedAtOf e v = Some d" "ev = buildEvent e options v i d c"
    by blast
  then show ?thesis
    using buildEvent_canonical[of i e d options v c] identityOf_trimmed[of v i]
      parseEpochMs_valid[of e _ d]
    by (simp add: detectedAtOf_def)
qed

subsection \<open>One event, adapted again\<close>

lemma parseId_undefined: "parseId JUndefined = None"
  by (simp add: parseId_def)

lemma parseText_undefined: "parseText JUndefined = None"
  by (simp add: parseText_def)

lemma field_roundtrip:
  "f \<noteq> Absent \<Longrightarrow> trimmedField f \<Longrightarrow> fieldOf (parseId (fieldValue JStr f)) = f"
  by (cases f) (simp_all add: fieldValue_def fieldOf_def trimmedField_def parseId_JStr_trimmed parseId_undefined)

lemma note_roundtrip:
  "f \<noteq> Absent \<Longrightarrow> trimmedField f \<Longrightarrow>
   fieldOf (composeNote (parseText (fieldValue JStr f)) (parseText JUndefined) (parseText JUndefined)) = f"
  by (cases f) (simp_all add: fieldValue_def fieldOf_def trimmedField_def parseText_JStr_trimmed
        parseText_undefined composeNote_def)

lemma normalizeCoordinate_unit: "0 \<le> a \<Longrightarrow> a \<le> 1 \<Longrightarrow> normalizeCoordinate e (JNum a) = Some a"
  by (simp add: normalizeCoordinate_def parseNumber_def)

lemma toRaw_object: "isObject (toRaw ev)"
  by (simp add: toRaw_def)

lemma readapt_identity:
  assumes "canonicalEvent e ev"
  shows "identityOf (toRaw ev) = Some (ev_id ev)"
    and "cameraIdOf (toRaw ev) = parseId (fieldValue JStr (camera_id ev))"
    and "trackIdOf (toRaw ev) = parseId (fieldValue JStr (track_id ev))"
    and "detectedAtOf e (toRaw ev) = Some (detected_at ev)"
    and "explicitPair e (toRaw ev) = Some (plainPoint (ev_x ev) (ev_y ev))"
proof -
  from assms have k: "allKeys ev" and t: "trimmedText (ev_id ev)" and d: "validEpoch e (detected_at ev)"
    and u: "inUnit (ev_x ev, ev_y ev)"
    by (simp_all add: canonicalEvent_def)
  show "identityOf (toRaw ev) = Some (ev_id ev)"
    by (simp add: identityOf_def explicitIdOf_def pick_toRaw_ids[OF k] parseId_JStr_trimmed[OF t])
  show "cameraIdOf (toRaw ev) = parseId (fieldValue JStr (camera_id ev))"
    by (simp add: cameraIdOf_def pick_toRaw_ids[OF k])
  show "trackIdOf (toRaw ev) = parseId (fieldValue JStr (track_id ev))"
    by (simp add: trackIdOf_def pick_toRaw_ids[OF k])
  show "detectedAtOf e (toRaw ev) = Some (detected_at ev)"
    by (simp add: detectedAtOf_def pick_toRaw_times[OF k] parseEpochMs_fixed[OF d])
  show "explicitPair e (toRaw ev) = Some (plainPoint (ev_x ev) (ev_y ev))"
    using u by (simp add: explicitPair_def pick_toRaw_xy[OF k] normalizeCoordinate_unit inUnit_def)
qed

lemma adaptRawEvent_toRaw:
  assumes "canonicalEvent e ev"
  shows "adaptRawEvent e options (toRaw ev) = Some (reAdapt e options ev)"
proof -
  from assms have t: "trimmedText (ev_id ev)" by (simp add: canonicalEvent_def)
  then have ne: "ev_id ev \<noteq> []" by (simp add: trimmedText_def)
  have c: "extractCoordinates e (toRaw ev) (cameraIdOf (toRaw ev)) = Some (plainPoint (ev_x ev) (ev_y ev))"
    by (simp add: extractCoordinates_def readapt_identity(5)[OF assms])
  show ?thesis
    by (simp add: adaptRawEvent_def asRecord_def toRaw_object readapt_identity(1,4)[OF assms] ne c
          reAdapt_def)
qed

lemma reAdapt_fields:
  assumes "canonicalEvent e ev"
  shows "ev_id (reAdapt e options ev) = ev_id ev"
    and "detected_at (reAdapt e options ev) = detected_at ev"
    and "ingested_at (reAdapt e options ev) = ingested_at ev"
    and "latency_ms (reAdapt e options ev) = latency_ms ev"
    and "ev_type (reAdapt e options ev) = ev_type ev"
    and "ev_severity (reAdapt e options ev) = ev_severity ev"
    and "confidence (reAdapt e options ev) = confidence ev"
    and "camera_id (reAdapt e options ev) = camera_id ev"
    and "track_id (reAdapt e options ev) = track_id ev"
    and "object_label (reAdapt e options ev) = Undefined"
    and "raw_status (reAdapt e options ev) = Undefined"
    and "ev_source (reAdapt e options ev) = ev_source ev"
    and "model_version (reAdapt e options ev) = model_version ev"
    and "incident_status (reAdapt e options ev) = incident_status ev"
    and "ev_note (reAdapt e options ev) = ev_note ev"
proof -
  from assms have k: "allKeys ev" and d: "validEpoch e (detected_at ev)"
    and i: "validEpoch e (ingested_at ev)" and l: "\<exists>k::int. 0 \<le> k \<and> latency_ms ev = of_int k"
    and s: "ev_severity ev \<in> {1, 2, 3}" and c: "0 \<le> confidence ev" "confidence ev \<le> 1"
    and tf: "trimmedField (camera_id ev)" "trimmedField (track_id ev)" "trimmedField (model_version ev)"
            "trimmedField (ev_note ev)"
    by (simp_all add: canonicalEvent_def)
  from k have pres: "camera_id ev \<noteq> Absent" "track_id ev \<noteq> Absent" "model_version ev \<noteq> Absent"
    "ev_note ev \<noteq> Absent" by (simp_all add: allKeys_def)
  have nu: "normalizeType JUndefined = unknownType" by (simp add: normalizeType_def)
  have ty: "resolveEventType (toRaw ev) = ev_type ev"
    by (cases "ev_type ev = unknownType")
       (simp_all add: resolveEventType_def pick_toRaw_class[OF k] type_fixed Let_def nu)
  have sv: "severityOf e (toRaw ev) = ev_severity ev"
    using s by (simp add: severityOf_def pick_toRaw_class[OF k] severity_fixed del: insert_iff)
  show "ev_id (reAdapt e options ev) = ev_id ev" by (simp add: reAdapt_def buildEvent_sel)
  show "detected_at (reAdapt e options ev) = detected_at ev" by (simp add: reAdapt_def buildEvent_sel)
  show "ingested_at (reAdapt e options ev) = ingested_at ev"
    by (simp add: reAdapt_def buildEvent_sel ingestedOf_def pick_toRaw_times[OF k] parseEpochMs_fixed[OF i])
  show "latency_ms (reAdapt e options ev) = latency_ms ev"
    using l by (auto simp: reAdapt_def buildEvent_sel latencyOf_def pick_toRaw_times[OF k] parseNumber_def
                  mathRound_of_int)
  show "ev_type (reAdapt e options ev) = ev_type ev" by (simp add: reAdapt_def buildEvent_sel ty)
  show "ev_severity (reAdapt e options ev) = ev_severity ev" by (simp add: reAdapt_def buildEvent_sel sv)
  show "confidence (reAdapt e options ev) = confidence ev"
    using c by (simp add: reAdapt_def buildEvent_sel pick_toRaw_class[OF k] confidence_fixed)
  show "camera_id (reAdapt e options ev) = camera_id ev"
    by (simp add: reAdapt_def buildEvent_sel readapt_identity(2)[OF assms] field_roundtrip[OF pres(1) tf(1)])
  show "track_id (reAdapt e options ev) = track_id ev"
    by (simp add: reAdapt_def buildEvent_sel readapt_identity(3)[OF assms] field_roundtrip[OF pres(2) tf(2)])
  show "object_label (reAdapt e options ev) = Undefined"
    by (simp add: reAdapt_def buildEvent_sel pick_toRaw_class[OF k] stringOrUndefined_def fieldOf_def)
  show "raw_status (reAdapt e options ev) = Undefined"
    by (simp add: reAdapt_def buildEvent_sel pick_toRaw_class[OF k] stringOrUndefined_def fieldOf_def)
  show "ev_source (reAdapt e options ev) = ev_source ev"
    by (simp add: reAdapt_def buildEvent_sel pick_toRaw_class[OF k] source_fixed)
  show "model_version (reAdapt e options ev) = model_version ev"
    by (simp add: reAdapt_def buildEvent_sel pick_toRaw_ids[OF k] field_roundtrip[OF pres(3) tf(3)])
  show "incident_status (reAdapt e options ev) = incident_status ev"
    by (simp add: reAdapt_def buildEvent_sel pick_toRaw_class[OF k] status_fixed)
  show "ev_note (reAdapt e options ev) = ev_note ev"
    by (simp add: reAdapt_def buildEvent_sel extractNote_def pick_toRaw_note[OF k]
          note_roundtrip[OF pres(4) tf(4)])
qed

subsection \<open>The feed, normalised again\<close>

lemma update_fresh: "k \<notin> fst ` set al \<Longrightarrow> AList.update k v al = al @ [(k, v)]"
  by (induction al) auto

lemma fold_dedupeStep_distinct:
  assumes "distinct (map ev_id xs)" and "set (map ev_id xs) \<inter> fst ` set m = {}"
  shows "fold dedupeStep xs m = m @ map (\<lambda>ev. (ev_id ev, ev)) xs"
  using assms
proof (induction xs arbitrary: m)
  case Nil
  then show ?case by simp
next
  case (Cons a xs)
  from Cons.prems(2) have fresh: "ev_id a \<notin> fst ` set m" by auto
  then have none: "map_of m (ev_id a) = None" by (simp add: map_of_eq_None_iff)
  have step: "dedupeStep a m = m @ [(ev_id a, a)]"
    by (simp add: dedupeStep_def none update_fresh[OF fresh])
  have d: "distinct (map ev_id xs)" using Cons.prems(1) by simp
  have disj: "set (map ev_id xs) \<inter> fst ` set (m @ [(ev_id a, a)]) = {}"
    using Cons.prems by auto
  show ?case using Cons.IH[OF d disj] by (simp add: step)
qed

lemma sortBy_sorted:
  "sorted_wrt (\<lambda>a b. cmp a b \<le> 0) xs \<Longrightarrow> sortBy cmp xs = xs"
proof (induction xs)
  case Nil
  then show ?case by (simp add: sortBy_def)
next
  case (Cons a xs)
  then have ih: "sortBy cmp xs = xs" by simp
  have "sortBy cmp (a # xs) = insertBy cmp a (sortBy cmp xs)" by (simp add: sortBy_def)
  also have "\<dots> = insertBy cmp a xs" by (simp only: ih)
  also have "\<dots> = a # xs" using Cons.prems by (cases xs) auto
  finally show ?case .
qed

lemma map_filter_all_Some:
  "\<forall>x \<in> set xs. f x = Some (g x) \<Longrightarrow> List.map_filter f xs = map g xs"
  by (induction xs) (simp_all add: List.map_filter_simps)

lemma map_filter_map_all:
  "\<forall>x \<in> set xs. f (h x) = Some (g x) \<Longrightarrow> List.map_filter f (map h xs) = map g xs"
  by (induction xs) (simp_all add: List.map_filter_simps)

lemma map_filter_mem:
  "y \<in> set (List.map_filter f xs) \<Longrightarrow> \<exists>x \<in> set xs. f x = Some y"
  by (induction xs) (auto simp: List.map_filter_simps split: option.splits)

text \<open>What the feed guarantees of its own output, for a consistent comparison of ids.\<close>

lemma feed_output:
  assumes total: "\<forall>a b. localeCompare e a b \<le> 0 \<or> localeCompare e b a \<le> 0"
    and trans: "\<forall>a b c. localeCompare e a b \<le> 0 \<longrightarrow> localeCompare e b c \<le> 0 \<longrightarrow>
                  localeCompare e a c \<le> 0"
  shows "distinct (map ev_id (normalizeEventFeed e (JArr items) options))"
    and "sorted_wrt (newestFirst e) (normalizeEventFeed e (JArr items) options)"
    and "length (normalizeEventFeed e (JArr items) options) \<le> safeMaxEvents options"
    and "\<forall>ev \<in> set (normalizeEventFeed e (JArr items) options).
           \<exists>v. adaptRawEvent e options v = Some ev"
proof -
  let ?N = "List.map_filter (adaptRawEvent e options) items"
  let ?D = "map snd (fold dedupeStep ?N [])"
  let ?full = "sortBy (compareEvents e) ?D"
  have out: "normalizeEventFeed e (JArr items) options = take (safeMaxEvents options) ?full"
    by (simp add: normalizeEventFeed_def normalizedOf_def Let_def)
  note dv = dedupeInv_values[OF dedupe_inv[of ?N]]
  have t: "\<And>a b. compareEvents e a b \<le> 0 \<or> compareEvents e b a \<le> 0"
  proof -
    fix a b :: EventItem
    have "localeCompare e (ev_id a) (ev_id b) \<le> 0 \<or> localeCompare e (ev_id b) (ev_id a) \<le> 0"
      using total by blast
    then have "newestFirst e a b \<or> newestFirst e b a"
      unfolding newestFirst_def by linarith
    then show "compareEvents e a b \<le> 0 \<or> compareEvents e b a \<le> 0"
      by (simp add: compareEvents_le)
  qed
  have tr: "\<And>a b c. compareEvents e a b \<le> 0 \<Longrightarrow> compareEvents e b c \<le> 0 \<Longrightarrow> compareEvents e a c \<le> 0"
  proof -
    fix a b c :: EventItem
    assume ab: "compareEvents e a b \<le> 0" and bc: "compareEvents e b c \<le> 0"
    have l: "localeCompare e (ev_id a) (ev_id b) \<le> 0 \<Longrightarrow> localeCompare e (ev_id b) (ev_id c) \<le> 0
        \<Longrightarrow> localeCompare e (ev_id a) (ev_id c) \<le> 0"
      using trans by blast
    from ab bc have "newestFirst e a b" "newestFirst e b c" by (simp_all add: compareEvents_le)
    then have "newestFirst e a c"
      unfolding newestFirst_def using l by (elim disjE conjE) auto
    then show "compareEvents e a c \<le> 0" by (simp add: compareEvents_le)
  qed
  have s: "sorted_wrt (newestFirst e) ?full"
    using sorted_sortBy[where cmp="compareEvents e" and xs="?D", OF t tr] by (simp add: compareEvents_le)
  have d: "distinct (map ev_id ?full)" using dv(3) by (simp add: distinct_map_sortBy)
  show "distinct (map ev_id (normalizeEventFeed e (JArr items) options))"
    unfolding out using d by (simp add: take_map[symmetric] del: take_map)
  show "sorted_wrt (newestFirst e) (normalizeEventFeed e (JArr items) options)"
    unfolding out using s by (rule sorted_wrt_take)
  show "length (normalizeEventFeed e (JArr items) options) \<le> safeMaxEvents options"
    unfolding out by simp
  have "set ?full \<subseteq> set ?N" using dv(1) by (simp add: set_sortBy)
  then have "set (normalizeEventFeed e (JArr items) options) \<subseteq> set ?N"
    unfolding out using set_take_subset by fastforce
  then show "\<forall>ev \<in> set (normalizeEventFeed e (JArr items) options).
           \<exists>v. adaptRawEvent e options v = Some ev"
    using map_filter_mem[of _ "adaptRawEvent e options" items] by blast
qed

lemma refeed:
  assumes d: "distinct (map ev_id out)"
    and s: "sorted_wrt (newestFirst e) out"
    and l: "length out \<le> safeMaxEvents options"
    and c: "\<forall>ev \<in> set out. canonicalEvent e ev"
  shows "normalizeEventFeed e (JArr (map toRaw out)) options = map (reAdapt e options) out"
proof -
  let ?g = "reAdapt e options"
  have n: "normalizedOf e options (map toRaw out) = map ?g out"
  proof -
    have "List.map_filter (adaptRawEvent e options) (map toRaw out) = map ?g out"
      by (rule map_filter_map_all) (use c adaptRawEvent_toRaw in auto)
    then show ?thesis by (simp add: normalizedOf_def)
  qed
  have ids: "map ev_id (map ?g out) = map ev_id out"
    using c by (simp add: reAdapt_fields(1))
  have dg: "distinct (map ev_id (map ?g out))" by (simp only: ids d)
  have dd: "fold dedupeStep (map ?g out) [] = map (\<lambda>ev. (ev_id ev, ev)) (map ?g out)"
    using fold_dedupeStep_distinct[OF dg, of "[]"] by simp
  have vals: "map snd (map (\<lambda>ev. (ev_id ev, ev)) (map ?g out)) = map ?g out"
    by (simp add: comp_def)
  have same: "\<And>a b. a \<in> set out \<Longrightarrow> b \<in> set out \<Longrightarrow> newestFirst e (?g a) (?g b) = newestFirst e a b"
    using c by (simp add: newestFirst_def reAdapt_fields(1,2,3))
  have "sorted_wrt (\<lambda>a b. newestFirst e (?g a) (?g b)) out"
    using s same by (metis (no_types, lifting) sorted_wrt_mono_rel)
  then have sg: "sorted_wrt (\<lambda>a b. compareEvents e a b \<le> 0) (map ?g out)"
    by (simp add: sorted_wrt_map compareEvents_le)
  have "normalizeEventFeed e (JArr (map toRaw out)) options
      = take (safeMaxEvents options) (sortBy (compareEvents e) (map ?g out))"
    by (simp add: normalizeEventFeed_def n dd vals Let_def del: map_map)
  also have "\<dots> = take (safeMaxEvents options) (map ?g out)"
    by (simp only: sortBy_sorted[OF sg])
  also have "\<dots> = map ?g out" using l by simp
  finally show ?thesis .
qed

subsection \<open>Store, zone and point in a second pass\<close>

lemma store_settled: "trimmedText (storeIdOf options v) \<or> storeIdOf options v = storeFallback options"
  by (auto simp: storeIdOf_def storeFallback_def parseId_trimmed split: option.splits)

lemma store_refeed:
  assumes k: "allKeys ev"
    and s: "trimmedText (store_id ev) \<or> store_id ev = storeFallback options"
    and f: "trim (storeFallback options) = storeFallback options"
  shows "storeIdOf options (toRaw ev) = store_id ev"
proof -
  have a: "storeIdOf options (toRaw ev) =
      (case parseId (JStr (store_id ev)) of Some sid \<Rightarrow> sid | None \<Rightarrow> storeFallback options)"
    unfolding storeIdOf_def storeFallback_def pick_toRaw_ids(5)[OF k] by (rule refl)
  from s show ?thesis
  proof
    assume "trimmedText (store_id ev)"
    then show ?thesis by (simp add: a parseId_JStr_trimmed)
  next
    assume "store_id ev = storeFallback options"
    then show ?thesis using f by (simp add: a parseId_def)
  qed
qed

lemma zone_refeed:
  assumes k: "allKeys ev" and z: "trustedZoneId e (ev_zone_id ev)"
  shows "resolveZoneId e (toRaw ev) c = ev_zone_id ev"
proof -
  from z have t: "trimmedText (ev_zone_id ev)" and ne: "ev_zone_id ev \<noteq> []"
    and g: "ev_zone_id ev \<in> ZONE_IDS e \<or> toLowerCase (ev_zone_id ev) \<notin> GENERIC_ZONE_IDS"
    by (simp_all add: trustedZoneId_def trimmedText_def)
  have p: "parseId (pickValue (toRaw ev) zoneIdPaths) = Some (ev_zone_id ev)"
    by (simp add: pick_toRaw_ids(6)[OF k] parseId_JStr_trimmed[OF t])
  from g show ?thesis
    unfolding resolveZoneId_def p Let_def using ne by auto
qed

lemma fold_nearerZone_fst:
  "fst (fold (nearerZone px py) cs st) \<in> insert (fst st) (fst ` set cs)"
proof (induction cs arbitrary: st)
  case Nil
  then show ?case by simp
next
  case (Cons c cs)
  have "fst (nearerZone px py c st) = fst c \<or> fst (nearerZone px py c st) = fst st"
    by (simp add: nearerZone_def Let_def split: option.splits)
  then show ?case using Cons.IH[of "nearerZone px py c st"] by auto
qed

lemma ZONE_CENTROIDS_keys: "fst ` set (ZONE_CENTROIDS e) \<subseteq> ZONE_IDS e"
proof
  fix k assume "k \<in> fst ` set (ZONE_CENTROIDS e)"
  then obtain c where "(k, c) \<in> set (ZONE_CENTROIDS e)" by auto
  then have "(k, c) \<in> set (concat (map (centroidEntries e) (zones (zm e))))"
    unfolding ZONE_CENTROIDS_def by (rule newMap_set)
  from in_concat_mapD[OF this] obtain zone where z: "zone \<in> set (zones (zm e))"
    and m: "(k, c) \<in> set (centroidEntries e zone)" by blast
  from m have "k = zone_id zone" by (auto simp: centroidEntries_def split: option.splits)
  with z show "k \<in> ZONE_IDS e" by (auto simp: ZONE_IDS_def)
qed

lemma fallbackZone_trusted: "trustedZoneId e ''zone-s001-center''"
  by (simp add: trustedZoneId_def trimmedText_def isWhitespace_def toLowerCase_def lowerChar_def
        GENERIC_ZONE_IDS_def)

lemma zone_settled:
  assumes ids: "\<forall>z \<in> set (zones (zm e)). trimmedText (zone_id z)"
  shows "trustedZoneId e (resolveZoneId e v c)"
proof -
  have known: "\<And>z. z \<in> ZONE_IDS e \<Longrightarrow> trustedZoneId e z"
    using ids by (auto simp: trustedZoneId_def ZONE_IDS_def)
  let ?x = "parseId (pickValue v zoneIdPaths)"
  let ?trusted = "(case ?x of None \<Rightarrow> None
        | Some z \<Rightarrow> if z = [] then None else if z \<in> ZONE_IDS e then Some z
                     else if toLowerCase z \<notin> GENERIC_ZONE_IDS then Some z else None)"
  show ?thesis
  proof (cases ?trusted)
    case (Some z)
    then obtain z0 where z0: "?x = Some z0" by (cases ?x) simp_all
    from Some z0 have zz: "z = z0" and g: "z0 \<in> ZONE_IDS e \<or> toLowerCase z0 \<notin> GENERIC_ZONE_IDS"
      by (auto split: if_splits)
    from parseId_trimmed[OF z0] g have "trustedZoneId e z" by (simp add: zz trustedZoneId_def)
    moreover have "resolveZoneId e v c = z" using Some by (simp add: resolveZoneId_def Let_def)
    ultimately show ?thesis by simp
  next
    case None
    show ?thesis
    proof (cases "find (\<lambda>zone. pointInPolygon e (nc_x c) (nc_y c) (outer zone)) (ZONE_GEOMETRIES e)")
      case (Some hit)
      then have "hit \<in> set (ZONE_GEOMETRIES e)" by (rule find_Some_mem)
      then have "zoneId hit \<in> ZONE_IDS e"
        by (auto simp: ZONE_GEOMETRIES_def ZONE_IDS_def zoneGeometry_def Let_def)
      moreover have "resolveZoneId e v c = zoneId hit"
        using None Some by (simp add: resolveZoneId_def Let_def)
      ultimately show ?thesis using known by simp
    next
      case N2: None
      let ?init = "(case zones (zm e) of [] \<Rightarrow> (''zone-s001-center'', None)
                       | z0 # rest \<Rightarrow> (zone_id z0, None :: real option))"
      have r: "resolveZoneId e v c = fst (fold (nearerZone (nc_x c) (nc_y c)) (ZONE_CENTROIDS e) ?init)"
        using None N2 by (simp add: resolveZoneId_def Let_def)
      have i: "trustedZoneId e (fst ?init)"
        by (cases "zones (zm e)") (auto simp: fallbackZone_trusted ZONE_IDS_def intro: known)
      from fold_nearerZone_fst[of "nc_x c" "nc_y c" "ZONE_CENTROIDS e" ?init]
      have "resolveZoneId e v c = fst ?init \<or> resolveZoneId e v c \<in> ZONE_IDS e"
        unfolding r using ZONE_CENTROIDS_keys[of e] by blast
      then show ?thesis using i known by auto
    qed
  qed
qed

lemma plainPoint_sel: "nc_x (plainPoint a b) = a" "nc_y (plainPoint a b) = b"
  by (simp_all add: plainPoint_def)

lemma snapFixed_walkable:
  assumes "map_of (ZONE_GEOMETRY_BY_ID e) zid = Some zone"
    and "inUnit p" and "pointInZoneWalkable e (fst p) (snd p) zone"
  shows "snapFixed e zid p"
  using assms
  by (simp add: snapFixed_def snapCoordinatesToFloor_def Let_def plainPoint_sel inUnit_def clampRange_id)

lemma snapFixed_anywhere:
  assumes "map_of (ZONE_GEOMETRY_BY_ID e) zid = None"
    and "inUnit p"
    and "walkableAnywhere e (fst p) (snd p) \<or> spiralSnap (fst p) (snd p) (walkableAnywhere e) = None"
  shows "snapFixed e zid p"
  using assms
  by (auto simp: snapFixed_def snapCoordinatesToFloor_def Let_def plainPoint_sel inUnit_def clampRange_id)

lemma snap_settled:
  assumes cen: "\<forall>zone \<in> set (ZONE_GEOMETRIES e). snapFixed e (zoneId zone) (zg_centroid zone)"
  shows "snapFixed e zid (nc_x (snapCoordinatesToFloor e c zid), nc_y (snapCoordinatesToFloor e c zid))"
proof (cases "map_of (ZONE_GEOMETRY_BY_ID e) zid")
  case None
  let ?x0 = "clampRange (nc_x c) 0 1" and ?y0 = "clampRange (nc_y c) 0 1"
  have u: "inUnit (?x0, ?y0)" by (rule clampPoint_unit)
  show ?thesis
  proof (cases "walkableAnywhere e ?x0 ?y0")
    case True
    have "snapFixed e zid (?x0, ?y0)" using True u by (intro snapFixed_anywhere[OF None]) simp_all
    then show ?thesis using None True by (simp add: snapCoordinatesToFloor_def Let_def)
  next
    case False
    show ?thesis
    proof (cases "spiralSnap ?x0 ?y0 (walkableAnywhere e)")
      case N2: None
      have "snapFixed e zid (?x0, ?y0)" using N2 u by (intro snapFixed_anywhere[OF None]) simp_all
      then show ?thesis using None False N2 by (simp add: snapCoordinatesToFloor_def Let_def)
    next
      case (Some s)
      from spiralSnap_Some_walkable[OF Some]
      have "snapFixed e zid s" by (intro snapFixed_anywhere[OF None]) (simp_all add: inUnit_def)
      then show ?thesis using None False Some
        by (simp add: snapCoordinatesToFloor_def Let_def atPoint_xy)
    qed
  qed
next
  case (Some zone)
  let ?x0 = "clampRange (nc_x c) 0 1" and ?y0 = "clampRange (nc_y c) 0 1"
  have u: "inUnit (?x0, ?y0)" by (rule clampPoint_unit)
  from ZONE_GEOMETRY_BY_ID_D[OF Some] cen have c0: "snapFixed e zid (zg_centroid zone)" by blast
  show ?thesis
  proof (cases "pointInZoneWalkable e ?x0 ?y0 zone")
    case True
    have "snapFixed e zid (?x0, ?y0)" using True u by (intro snapFixed_walkable[OF Some]) simp_all
    then show ?thesis using Some True by (simp add: snapCoordinatesToFloor_def Let_def)
  next
    case nw: False
    show ?thesis
    proof (cases "pointInPolygon e ?x0 ?y0 (outer zone)")
      case False
      then show ?thesis using Some nw c0
        by (simp add: snapCoordinatesToFloor_def Let_def atPoint_xy)
    next
      case True
      show ?thesis
      proof (cases "spiralSnap ?x0 ?y0 (\<lambda>px py. pointInZoneWalkable e px py zone)")
        case None
        then show ?thesis using Some nw c0 True
          by (simp add: snapCoordinatesToFloor_def Let_def atPoint_xy)
      next
        case S: (Some s)
        from spiralSnap_Some_walkable[OF S]
        have "snapFixed e zid s" by (intro snapFixed_walkable[OF Some]) (simp_all add: inUnit_def)
        then show ?thesis using Some nw True S
          by (simp add: snapCoordinatesToFloor_def Let_def atPoint_xy)
      qed
    qed
  qed
qed

lemma adaptRawEvent_settled:
  assumes a: "adaptRawEvent e options v = Some ev"
  shows "trimmedText (store_id ev) \<or> store_id ev = storeFallback options"
    and "\<forall>z \<in> set (zones (zm e)). trimmedText (zone_id z) \<Longrightarrow> trustedZoneId e (ev_zone_id ev)"
    and "\<forall>zone \<in> set (ZONE_GEOMETRIES e). snapFixed e (zoneId zone) (zg_centroid zone) \<Longrightarrow>
           snapFixed e (ev_zone_id ev) (ev_x ev, ev_y ev)"
proof -
  from adaptRawEvent_SomeD[OF a] obtain i d c where ev: "ev = buildEvent e options v i d c" by blast
  show "trimmedText (store_id ev) \<or> store_id ev = storeFallback options"
    unfolding ev buildEvent_sel by (rule store_settled)
  show "\<forall>z \<in> set (zones (zm e)). trimmedText (zone_id z) \<Longrightarrow> trustedZoneId e (ev_zone_id ev)"
    unfolding ev buildEvent_sel by (rule zone_settled)
  show "\<forall>zone \<in> set (ZONE_GEOMETRIES e). snapFixed e (zoneId zone) (zg_centroid zone) \<Longrightarrow>
           snapFixed e (ev_zone_id ev) (ev_x ev, ev_y ev)"
    unfolding ev buildEvent_sel by (rule snap_settled)
qed

lemma reAdapt_place:
  assumes c: "canonicalEvent e ev"
  shows "trimmedText (store_id ev) \<or> store_id ev = storeFallback options \<Longrightarrow>
         trim (storeFallback options) = storeFallback options \<Longrightarrow>
         store_id (reAdapt e options ev) = store_id ev"
    and "trustedZoneId e (ev_zone_id ev) \<Longrightarrow> ev_zone_id (reAdapt e options ev) = ev_zone_id ev"
    and "trustedZoneId e (ev_zone_id ev) \<Longrightarrow> snapFixed e (ev_zone_id ev) (ev_x ev, ev_y ev) \<Longrightarrow>
         ev_x (reAdapt e options ev) = ev_x ev \<and> ev_y (reAdapt e options ev) = ev_y ev"
proof -
  from c have k: "allKeys ev" by (simp add: canonicalEvent_def)
  show "trimmedText (store_id ev) \<or> store_id ev = storeFallback options \<Longrightarrow>
         trim (storeFallback options) = storeFallback options \<Longrightarrow>
         store_id (reAdapt e options ev) = store_id ev"
    by (simp add: reAdapt_def buildEvent_sel store_refeed[OF k])
  show "trustedZoneId e (ev_zone_id ev) \<Longrightarrow> ev_zone_id (reAdapt e options ev) = ev_zone_id ev"
    by (simp add: reAdapt_def buildEvent_sel zone_refeed[OF k])
  show "trustedZoneId e (ev_zone_id ev) \<Longrightarrow> snapFixed e (ev_zone_id ev) (ev_x ev, ev_y ev) \<Longrightarrow>
         ev_x (reAdapt e options ev) = ev_x ev \<and> ev_y (reAdapt e options ev) = ev_y ev"
    by (simp add: reAdapt_def buildEvent_sel zone_refeed[OF k] snapFixed_def)
qed

text \<open>
  C5, amended. When \<^verbatim>\<open>localeCompare\<close> orders the ids consistently, feeding the array
  that \<^verbatim>\<open>normalizeEventFeed\<close> returned to \<^verbatim>\<open>normalizeEventFeed\<close> again, with the same
  options and the same clock, returns as many events, in the same order, and each of them
  has the id, \<open>detected_at\<close>, \<open>ingested_at\<close>, \<open>latency_ms\<close>, type, severity,
  confidence, \<open>camera_id\<close>, \<open>track_id\<close>, source, \<open>model_version\<close>,
  \<open>incident_status\<close> and note of the event at the same place of the first output, while
  its \<open>object_label\<close> and \<open>raw_status\<close> are \<^verbatim>\<open>undefined\<close>. Moreover the
  \<open>store_id\<close> is the same when the fallback store id has no white space around it; the
  \<open>zone_id\<close> is the same when no zone id of the zone map is empty or has white space
  around it; and then \<open>x\<close> and \<open>y\<close> are the same when snapping the centroid of any
  zone to that zone leaves it where it is.
\<close>

theorem normalizeEventFeed_refeed:
  assumes total: "\<forall>a b. localeCompare e a b \<le> 0 \<or> localeCompare e b a \<le> 0"
    and trans: "\<forall>a b c. localeCompare e a b \<le> 0 \<longrightarrow> localeCompare e b c \<le> 0 \<longrightarrow>
                  localeCompare e a c \<le> 0"
  shows "list_all2 reNormalized
           (normalizeEventFeed e (JArr items) options)
           (normalizeEventFeed e (JArr (map toRaw (normalizeEventFeed e (JArr items) options))) options) \<and>
         (trim (storeFallback options) = storeFallback options \<longrightarrow>
          list_all2 (\<lambda>a b. store_id b = store_id a)
           (normalizeEventFeed e (JArr items) options)
           (normalizeEventFeed e (JArr (map toRaw (normalizeEventFeed e (JArr items) options))) options)) \<and>
         ((\<forall>z \<in> set (zones (zm e)). trimmedText (zone_id z)) \<longrightarrow>
          list_all2 (\<lambda>a b. ev_zone_id b = ev_zone_id a)
           (normalizeEventFeed e (JArr items) options)
           (normalizeEventFeed e (JArr (map toRaw (normalizeEventFeed e (JArr items) options))) options)) \<and>
         ((\<forall>z \<in> set (zones (zm e)). trimmedText (zone_id z)) \<and>
          (\<forall>zone \<in> set (ZONE_GEOMETRIES e). snapFixed e (zoneId zone) (zg_centroid zone)) \<longrightarrow>
          list_all2 (\<lambda>a b. ev_x b = ev_x a \<and> ev_y b = ev_y a)
           (normalizeEventFeed e (JArr items) options)
           (normalizeEventFeed e (JArr (map toRaw (normalizeEventFeed e (JArr items) options))) options))"
proof -
  let ?out = "normalizeEventFeed e (JArr items) options"
  let ?g = "reAdapt e options"
  note f = feed_output[OF total trans, of items options]
  have c: "\<forall>ev \<in> set ?out. canonicalEvent e ev"
    using f(4) adaptRawEvent_canonical by blast
  have r: "normalizeEventFeed e (JArr (map toRaw ?out)) options = map ?g ?out"
    by (rule refeed[OF f(1) f(2) f(3) c])
  have lift: "\<And>P. \<forall>ev \<in> set ?out. P ev (?g ev) \<Longrightarrow> list_all2 P ?out (map ?g ?out)"
    by (simp add: list_all2_map2 list_all2_same)
  have core: "list_all2 reNormalized ?out (map ?g ?out)"
    by (rule lift) (use c in \<open>simp add: reNormalized_def reAdapt_fields\<close>)
  have store: "list_all2 (\<lambda>a b. store_id b = store_id a) ?out (map ?g ?out)"
    if "trim (storeFallback options) = storeFallback options"
  proof (rule lift, rule ballI)
    fix ev assume m: "ev \<in> set ?out"
    with f(4) obtain v where v: "adaptRawEvent e options v = Some ev" by blast
    from m c have "canonicalEvent e ev" by blast
    from reAdapt_place(1)[OF this adaptRawEvent_settled(1)[OF v] that]
    show "store_id (?g ev) = store_id ev" .
  qed
  have zone: "list_all2 (\<lambda>a b. ev_zone_id b = ev_zone_id a) ?out (map ?g ?out)"
    if "\<forall>z \<in> set (zones (zm e)). trimmedText (zone_id z)"
  proof (rule lift, rule ballI)
    fix ev assume m: "ev \<in> set ?out"
    with f(4) obtain v where v: "adaptRawEvent e options v = Some ev" by blast
    from m c have "canonicalEvent e ev" by blast
    from reAdapt_place(2)[OF this adaptRawEvent_settled(2)[OF v that]]
    show "ev_zone_id (?g ev) = ev_zone_id ev" .
  qed
  have point: "list_all2 (\<lambda>a b. ev_x b = ev_x a \<and> ev_y b = ev_y a) ?out (map ?g ?out)"
    if ids: "\<forall>z \<in> set (zones (zm e)). trimmedText (zone_id z)"
      and cen: "\<forall>zone \<in> set (ZONE_GEOMETRIES e). snapFixed e (zoneId zone) (zg_centroid zone)"
  proof (rule lift, rule ballI)
    fix ev assume m: "ev \<in> set ?out"
    with f(4) obtain v where v: "adaptRawEvent e options v = Some ev" by blast
    from m c have "canonicalEvent e ev" by blast
    from reAdapt_place(3)[OF this adaptRawEvent_settled(2)[OF v ids] adaptRawEvent_settled(3)[OF v cen]]
    show "ev_x (?g ev) = ev_x ev \<and> ev_y (?g ev) = ev_y ev" .
  qed
  show ?thesis unfolding r using core store zone point by blast
qed

theorem normalizeEventFeed_refeed_witness:
  "map (\<lambda>ev. (ev_id ev, ev_x ev, ev_y ev))
       (normalizeEventFeed demoEnv (JArr (labelledRecord # shelfRecord # demoFeed)) demoOptions)
     = [(''cam1:track-7'', 3 / 10, 1 / 10), (''e9'', 1 / 10, 1 / 5),
        (''e2'', 175 / 1000, 1 / 2), (''e5'', 1 / 5, 1 / 5)] \<and>
   list_all2 reNormalized
     (normalizeEventFeed demoEnv (JArr (labelledRecord # shelfRecord # demoFeed)) demoOptions)
     (normalizeEventFeed demoEnv
        (JArr (map toRaw (normalizeEventFeed demoEnv (JArr (labelledRecord # shelfRecord # demoFeed)) demoOptions)))
        demoOptions) \<and>
   list_all2 (\<lambda>a b. store_id b = store_id a)
     (normalizeEventFeed demoEnv (JArr (labelledRecord # shelfRecord # demoFeed)) demoOptions)
     (normalizeEventFeed demoEnv
        (JArr (map toRaw (normalizeEventFeed demoEnv (JArr (labelledRecord # shelfRecord # demoFeed)) demoOptions)))
        demoOptions) \<and>
   list_all2 (\<lambda>a b. ev_zone_id b = ev_zone_id a)
     (normalizeEventFeed demoEnv (JArr (labelledRecord # shelfRecord # demoFeed)) demoOptions)
     (normalizeEventFeed demoEnv
        (JArr (map toRaw (normalizeEventFeed demoEnv (JArr (labelledRecord # shelfRecord # demoFeed)) demoOptions)))
        demoOptions) \<and>
   list_all2 (\<lambda>a b. ev_x b = ev_x a \<and> ev_y b = ev_y a)
     (normalizeEventFeed demoEnv (JArr (labelledRecord # shelfRecord # demoFeed)) demoOptions)
     (normalizeEventFeed demoEnv
        (JArr (map toRaw (normalizeEventFeed demoEnv (JArr (labelledRecord # shelfRecord # demoFeed)) demoOptions)))
        demoOptions)"
proof -
  have lc: "localeCompare demoEnv = codeUnitCompare" by (simp add: demoEnv_def)
  have total: "\<forall>a b. localeCompare demoEnv a b \<le> 0 \<or> localeCompare demoEnv b a \<le> 0"
    unfolding lc using codeUnitCompare_total by blast
  have trans: "\<forall>a b c. localeCompare demoEnv a b \<le> 0 \<longrightarrow> localeCompare demoEnv b c \<le> 0 \<longrightarrow>
                  localeCompare demoEnv a c \<le> 0"
    unfolding lc using codeUnitCompare_trans by blast
  have fb: "trim (storeFallback demoOptions) = storeFallback demoOptions" by code_simp
  have ids: "\<forall>z \<in> set (zones (zm demoEnv)). trimmedText (zone_id z)" by code_simp
  have cen: "\<forall>zone \<in> set (ZONE_GEOMETRIES demoEnv). snapFixed demoEnv (zoneId zone) (zg_centroid zone)"
    by code_simp
  have v: "map (\<lambda>ev. (ev_id ev, ev_x ev, ev_y ev))
       (normalizeEventFeed demoEnv (JArr (labelledRecord # shelfRecord # demoFeed)) demoOptions)
     = [(''cam1:track-7'', 3 / 10, 1 / 10), (''e9'', 1 / 10, 1 / 5),
        (''e2'', 175 / 1000, 1 / 2), (''e5'', 1 / 5, 1 / 5)]"
    by code_simp
  from normalizeEventFeed_refeed[where e=demoEnv and items="labelledRecord # shelfRecord # demoFeed"
         and options=demoOptions, OF total trans] fb ids cen v
  show ?thesis by blast
qed

text \<open>
  C5 as stated fails: the adapter writes the label and the status of a record under the
  keys \<open>object_label\<close> and \<open>raw_status\<close> and reads them from neither, and it reads
  no world coordinate from \<open>world_x_m\<close> and \<open>world_z_m\<close>; the second pass loses all
  four.
\<close>

theorem normalizeEventFeed_refeed_counterexample:
  "map (\<lambda>ev. (ev_id ev, object_label ev, raw_status ev, world_x_m ev, world_z_m ev))
       (normalizeEventFeed demoEnv (JArr [labelledRecord]) demoOptions)
     = [(''e5'', Defined ''person'', Defined ''open'', Defined (9 / 5), Defined (9 / 10))] \<and>
   map (\<lambda>ev. (ev_id ev, object_label ev, raw_status ev, world_x_m ev, world_z_m ev))
       (normalizeEventFeed demoEnv
          (JArr (map toRaw (normalizeEventFeed demoEnv (JArr [labelledRecord]) demoOptions)))
          demoOptions)
     = [(''e5'', Undefined, Undefined, Undefined, Undefined)] \<and>
   normalizeEventFeed demoEnv
          (JArr (map toRaw (normalizeEventFeed demoEnv (JArr [labelledRecord]) demoOptions)))
          demoOptions
     \<noteq> normalizeEventFeed demoEnv (JArr [labelledRecord]) demoOptions"
proof -
  have a: "map (\<lambda>ev. (ev_id ev, object_label ev, raw_status ev, world_x_m ev, world_z_m ev))
       (normalizeEventFeed demoEnv (JArr [labelledRecord]) demoOptions)
     = [(''e5'', Defined ''person'', Defined ''open'', Defined (9 / 5), Defined (9 / 10))]"
    by code_simp
  have b: "map (\<lambda>ev. (ev_id ev, object_label ev, raw_status ev, world_x_m ev, world_z_m ev))
       (normalizeEventFeed demoEnv
          (JArr (map toRaw (normalizeEventFeed demoEnv (JArr [labelledRecord]) demoOptions)))
          demoOptions)
     = [(''e5'', Undefined, Undefined, Undefined, Undefined)]"
    by code_simp
  from a b show ?thesis by force
qed

end
